(* ===== verification/Prelude.thy ===== *)
theory Prelude
  imports Main "HOL-Library.Word" "HOL-Library.Multiset"
begin

text \<open>
  Shared vocabulary of the development.

  \<^item> Machine types: \<open>byte\<close>, \<open>u32\<close> and \<open>u64\<close> (the last one is \<open>size_t\<close> on the
    64-bit Linux targets the program is built for).
  \<^item> The object representation of a 32-bit integer (\<open>mem32\<close>, \<open>load32\<close>) for both byte
    orders, and the C library's \<open>htonl\<close> / \<open>ntohl\<close>.
  \<^item> \<open>outcome\<close>: a C++ function either returns or its behaviour is undefined (a read
    past the end of a buffer).
  \<^item> \<open>std::string\<close> as a list of \<open>char\<close> and its conversion from and to bytes;
    \<open>std::getline\<close>, decimal output, \<open>std::stoi\<close> and \<open>std::stoul\<close>; the exceptions the
    program throws or catches.
\<close>

unbundle bit_operations_syntax

named_theorems wire_simps \<open>evaluation of reads and writes of wire data\<close>
named_theorems parse_simps \<open>evaluation of text parsing\<close>
named_theorems store_simps \<open>lookups in tables after updates\<close>

section \<open>Machine integers\<close>

type_synonym byte = "8 word"
type_synonym u32 = "32 word"
type_synonym u64 = "64 word"

text \<open>The size of a vector as a \<open>size_t\<close>.\<close>

definition vsize :: "'a list \<Rightarrow> u64" where
  "vsize xs = word_of_nat (length xs)"

text \<open>
  \<open>std::vector<T>::max_size()\<close> never exceeds \<open>PTRDIFF_MAX\<close>, so every vector that exists
  has fewer than \<open>2^63\<close> elements.
\<close>

definition vector_ok :: "'a list \<Rightarrow> bool" where
  "vector_ok xs \<longleftrightarrow> length xs < 2 ^ 63"

lemma unat_lt2p_byte: "unat (b :: byte) < 256"
  using unsigned_less [of b] by simp

lemma unat_lt2p_u32: "unat (w :: u32) < 2 ^ 32"
  using unsigned_less [of w] by simp

lemma unat_lt2p_u64: "unat (w :: u64) < 2 ^ 64"
  using unsigned_less [of w] by simp

lemma unat_ucast_u32 [simp]: "unat (ucast (w :: u32) :: u64) = unat w"
  using unat_lt2p_u32 [of w] by (simp add: unsigned_ucast_eq take_bit_nat_eq_self)

lemma ucast_of_nat_u64 [simp]: "(ucast (word_of_nat n :: u64) :: u32) = word_of_nat n"
  by (rule bit_word_eqI) (simp add: bit_simps)

lemma unat_vsize: "vector_ok xs \<Longrightarrow> unat (vsize xs) = length xs"
  by (simp add: vsize_def vector_ok_def unat_of_nat take_bit_nat_eq_self)

lemma vsize_append: "vsize (xs @ ys) = vsize xs + vsize ys"
  by (simp add: vsize_def)

lemma vector_ok_append: "vector_ok (xs @ ys) \<Longrightarrow> vector_ok xs \<and> vector_ok ys"
  by (simp add: vector_ok_def)

section \<open>Object representation of a 32-bit integer\<close>

datatype endian = LittleEndian | BigEndian

definition le_bytes :: "u32 \<Rightarrow> byte list" where
  "le_bytes v = [ucast v, ucast (drop_bit 8 v), ucast (drop_bit 16 v), ucast (drop_bit 24 v)]"

fun le_word :: "byte list \<Rightarrow> u32" where
  "le_word [] = 0"
| "le_word (b # bs) = ucast b OR push_bit 8 (le_word bs)"

definition mem32 :: "endian \<Rightarrow> u32 \<Rightarrow> byte list" where
  "mem32 e v = (case e of LittleEndian \<Rightarrow> le_bytes v | BigEndian \<Rightarrow> rev (le_bytes v))"

text \<open>\<open>load32\<close> is \<open>memcpy\<close> of four bytes into a \<open>uint32_t\<close>.\<close>

definition load32 :: "endian \<Rightarrow> byte list \<Rightarrow> u32" where
  "load32 e bs = (case e of LittleEndian \<Rightarrow> le_word bs | BigEndian \<Rightarrow> le_word (rev bs))"

definition byteswap32 :: "u32 \<Rightarrow> u32" where
  "byteswap32 v = le_word (rev (le_bytes v))"

definition htonl :: "endian \<Rightarrow> u32 \<Rightarrow> u32" where
  "htonl e v = (case e of LittleEndian \<Rightarrow> byteswap32 v | BigEndian \<Rightarrow> v)"

definition ntohl :: "endian \<Rightarrow> u32 \<Rightarrow> u32" where
  "ntohl e v = (case e of LittleEndian \<Rightarrow> byteswap32 v | BigEndian \<Rightarrow> v)"

lemma length_le_bytes [simp]: "length (le_bytes v) = 4"
  by (simp add: le_bytes_def)

lemma length_mem32 [simp]: "length (mem32 e v) = 4"
  by (simp add: mem32_def split: endian.split)

lemma le_word_le_bytes [simp]: "le_word (le_bytes v) = v"
proof (rule bit_word_eqI)
  fix n
  assume "n < LENGTH(32)"
  then consider "n < 8" | "8 \<le> n" "n < 16" | "16 \<le> n" "n < 24" | "24 \<le> n" "n < 32"
    by fastforce
  then show "bit (le_word (le_bytes v)) n \<longleftrightarrow> bit v n"
    by cases (auto simp: le_bytes_def bit_simps)
qed

lemma length_4E:
  assumes "length bs = 4"
  obtains a b c d where "bs = [a, b, c, d]"
  using assms by (auto simp: eval_nat_numeral length_Suc_conv)

lemma not_bit_byte: "8 \<le> n \<Longrightarrow> \<not> bit (b :: byte) n"
  using bit_imp_le_length [of b n] by auto

lemma not_bit_u32: "32 \<le> n \<Longrightarrow> \<not> bit (w :: u32) n"
  using bit_imp_le_length [of w n] by auto

lemma bit_u32_less: "bit (w :: u32) n \<Longrightarrow> n < 32"
  using not_bit_u32 not_le by blast

lemma le_bytes_le_word: "length bs = 4 \<Longrightarrow> le_bytes (le_word bs) = bs"
  by (erule length_4E)
    (auto simp: le_bytes_def bit_simps not_bit_byte intro!: bit_word_eqI)

lemma load32_mem32 [simp]: "load32 e (mem32 e v) = v"
  by (simp add: load32_def mem32_def split: endian.split)

lemma mem32_load32: "length bs = 4 \<Longrightarrow> mem32 e (load32 e bs) = bs"
  using le_bytes_le_word [of "rev bs"]
  by (simp add: load32_def mem32_def le_bytes_le_word split: endian.split)

lemma le_bytes_byteswap32: "le_bytes (byteswap32 v) = rev (le_bytes v)"
  by (simp add: byteswap32_def le_bytes_le_word)

text \<open>
  Whatever the byte order of the host, \<open>htonl\<close> followed by the copy of the object
  representation gives the bytes most significant first, and \<open>ntohl\<close> reads them back.
\<close>

lemma mem32_htonl: "mem32 e (htonl e v) = rev (le_bytes v)"
  by (simp add: mem32_def htonl_def le_bytes_byteswap32 split: endian.split)

lemma ntohl_load32: "length bs = 4 \<Longrightarrow> ntohl e (load32 e bs) = le_word (rev bs)"
  by (simp add: load32_def ntohl_def byteswap32_def le_bytes_le_word split: endian.split)

lemma ntohl_load32_mem32 [simp]: "ntohl e (load32 e (rev (le_bytes v))) = v"
  by (simp add: ntohl_load32)

section \<open>Outcomes and exceptions\<close>

datatype 'a outcome = Ret 'a | UB

text \<open>The standard exceptions the program throws or can see thrown by the library.\<close>

datatype exn =
    Runtime_error string
  | Invalid_argument string
  | Out_of_range string
  | Filesystem_error string

text \<open>\<open>what()\<close> is a C string: it ends at the first NUL of the message.\<close>

definition c_str :: "string \<Rightarrow> string" where
  "c_str s = takeWhile (\<lambda>c. c \<noteq> CHR 0x00) s"

lemma c_str_clean [simp]: "CHR 0x00 \<notin> set s \<Longrightarrow> c_str s = s"
  by (auto simp: c_str_def takeWhile_eq_all_conv)

fun what :: "exn \<Rightarrow> string" where
  "what (Runtime_error s) = c_str s"
| "what (Invalid_argument s) = c_str s"
| "what (Out_of_range s) = c_str s"
| "what (Filesystem_error s) = c_str s"

section \<open>Strings and bytes\<close>

definition byte_of_char :: "char \<Rightarrow> byte" where
  "byte_of_char c = word_of_nat (of_char c)"

definition char_of_byte :: "byte \<Rightarrow> char" where
  "char_of_byte b = char_of (unat b)"

abbreviation to_bytes :: "string \<Rightarrow> byte list" where
  "to_bytes s \<equiv> map byte_of_char s"

abbreviation to_string :: "byte list \<Rightarrow> string" where
  "to_string bs \<equiv> map char_of_byte bs"

lemma char_of_byte_of_char [simp]: "char_of_byte (byte_of_char c) = c"
  by (simp add: byte_of_char_def char_of_byte_def unat_of_nat take_bit_eq_mod)

lemma byte_of_char_of_byte [simp]: "byte_of_char (char_of_byte b) = b"
proof -
  have "unat b mod 256 = unat b"
    using unat_lt2p_byte [of b] by simp
  then show ?thesis
    by (simp add: byte_of_char_def char_of_byte_def)
qed

lemma to_string_to_bytes [simp]: "to_string (to_bytes s) = s"
  by (simp add: comp_def)

lemma to_bytes_to_string [simp]: "to_bytes (to_string bs) = bs"
  by (simp add: comp_def)

section \<open>std::getline\<close>

text \<open>
  One call of \<open>std::getline(stream, token, d)\<close> on a stream that still holds the characters
  \<open>s\<close>: at the end of the stream it extracts nothing and fails; otherwise the token runs to
  the next delimiter, which is consumed and dropped, or to the end of the stream.
\<close>

definition getline :: "char \<Rightarrow> string \<Rightarrow> (string \<times> string) option" where
  "getline d s =
     (if s = [] then None
      else Some (takeWhile (\<lambda>c. c \<noteq> d) s, drop 1 (dropWhile (\<lambda>c. c \<noteq> d) s)))"

lemma getline_shorter: "getline d s = Some (t, s') \<Longrightarrow> length s' < length s"
proof -
  assume "getline d s = Some (t, s')"
  then have "s \<noteq> []" and s': "s' = drop 1 (dropWhile (\<lambda>c. c \<noteq> d) s)"
    by (auto simp: getline_def split: if_splits)
  then show ?thesis
    using length_dropWhile_le [of "\<lambda>c. c \<noteq> d" s] by (cases s) auto
qed

text \<open>The loop \<open>while (std::getline(stream, token, d)) tokens.push_back(token)\<close>.\<close>

function getlines :: "char \<Rightarrow> string \<Rightarrow> string list" where
  "getlines d s = (case getline d s of None \<Rightarrow> [] | Some (t, s') \<Rightarrow> t # getlines d s')"
  by pat_completeness auto
termination
  by (relation "measure (\<lambda>(d, s). length s)") (auto dest: getline_shorter)

declare getlines.simps [simp del]

lemma token_absent:
  assumes "d \<notin> set t"
  shows "takeWhile (\<lambda>c. c \<noteq> d) (t @ s) = t @ takeWhile (\<lambda>c. c \<noteq> d) s"
    and "dropWhile (\<lambda>c. c \<noteq> d) (t @ s) = dropWhile (\<lambda>c. c \<noteq> d) s"
  using assms by (induction t) auto

lemma token_absent_all:
  assumes "d \<notin> set t"
  shows "takeWhile (\<lambda>c. c \<noteq> d) t = t" and "dropWhile (\<lambda>c. c \<noteq> d) t = []"
  using token_absent [OF assms, of "[]"] by simp_all

lemma getline_append [parse_simps]: "d \<notin> set t \<Longrightarrow> getline d (t @ d # s) = Some (t, s)"
  by (simp add: getline_def token_absent)

lemma getline_last [parse_simps]: "d \<notin> set t \<Longrightarrow> t \<noteq> [] \<Longrightarrow> getline d t = Some (t, [])"
  by (simp add: getline_def token_absent_all)

lemma getlines_Nil [simp, parse_simps]: "getlines d [] = []"
  by (simp add: getlines.simps getline_def)

lemma getlines_append: "d \<notin> set t \<Longrightarrow> getlines d (t @ d # s) = t # getlines d s"
  by (subst getlines.simps) (simp add: getline_append)

lemma getlines_last: "d \<notin> set t \<Longrightarrow> t \<noteq> [] \<Longrightarrow> getlines d t = [t]"
  by (subst getlines.simps) (simp add: getline_last)

text \<open>
  Tokens written with a delimiter after each are read back; and so are tokens written with a
  delimiter before each but the first, unless the last one is empty: \<open>getline\<close> never
  delivers an empty token at the end of the stream.
\<close>

definition terminate_with :: "char \<Rightarrow> string list \<Rightarrow> string" where
  "terminate_with d ts = concat (map (\<lambda>t. t @ [d]) ts)"

fun join_with :: "char \<Rightarrow> string list \<Rightarrow> string" where
  "join_with d [] = []"
| "join_with d [t] = t"
| "join_with d (t # ts) = t @ d # join_with d ts"

lemma join_with_Cons: "ts \<noteq> [] \<Longrightarrow> join_with d (t # ts) = t @ d # join_with d ts"
  by (cases ts) auto

lemma getlines_terminate_with:
  "\<forall>t \<in> set ts. d \<notin> set t \<Longrightarrow> getlines d (terminate_with d ts) = ts"
  by (induction ts) (auto simp: terminate_with_def getlines_append)

lemma getlines_join_with:
  assumes "\<forall>t \<in> set ts. d \<notin> set t" and "ts \<noteq> []" and "last ts \<noteq> []"
  shows "getlines d (join_with d ts) = ts"
  using assms
proof (induction ts)
  case (Cons t ts)
  then show ?case
    by (cases "ts = []") (auto simp: getlines_last getlines_append join_with_Cons)
qed simp

lemma getlines_join_with_empty_last:
  assumes "\<forall>t \<in> set ts. d \<notin> set t" and "ts \<noteq> []"
  shows "getlines d (join_with d (ts @ [[]])) = ts"
  using assms
proof (induction ts)
  case (Cons t ts)
  then show ?case
    by (cases "ts = []") (auto simp: getlines_append join_with_Cons)
qed simp

text \<open>No token contains the delimiter.\<close>

lemma getlines_no_delim: "t \<in> set (getlines d s) \<Longrightarrow> d \<notin> set t"
proof (induction d s rule: getlines.induct)
  case (1 d s)
  then show ?case
    by (subst (asm) (2) getlines.simps)
      (auto simp: getline_def dest: set_takeWhileD split: option.splits if_splits)
qed

section \<open>Decimal numbers\<close>

definition digit :: "nat \<Rightarrow> char" where
  "digit n = char_of (48 + n)"

definition is_digit :: "char \<Rightarrow> bool" where
  "is_digit c \<longleftrightarrow> 48 \<le> (of_char c :: nat) \<and> (of_char c :: nat) \<le> 57"

definition digit_value :: "char \<Rightarrow> nat" where
  "digit_value c = of_char c - 48"

text \<open>\<open>isspace\<close> of the C locale.\<close>

definition is_space :: "char \<Rightarrow> bool" where
  "is_space c \<longleftrightarrow> (of_char c :: nat) = 32 \<or> (9 \<le> (of_char c :: nat) \<and> (of_char c :: nat) \<le> 13)"

text \<open>Output of an unsigned and of a signed integer with \<open><<\<close> or \<open>std::to_string\<close>.\<close>

fun show_nat :: "nat \<Rightarrow> string" where
  "show_nat n = (if n < 10 then [digit n] else show_nat (n div 10) @ [digit (n mod 10)])"

declare show_nat.simps [simp del]

definition show_int :: "int \<Rightarrow> string" where
  "show_int i = (if i < 0 then CHR ''-'' # show_nat (nat (- i)) else show_nat (nat i))"

definition number :: "string \<Rightarrow> nat" where
  "number ds = foldl (\<lambda>n c. 10 * n + digit_value c) 0 ds"

lemma digit_props [simp]:
  assumes "n < 10"
  shows "is_digit (digit n)" and "digit_value (digit n) = n"
  using assms by (auto simp: is_digit_def digit_value_def digit_def)

lemma show_nat_digits: "\<forall>c \<in> set (show_nat n). is_digit c"
  by (induction n rule: show_nat.induct) (subst show_nat.simps, auto)

lemma takeWhile_show_nat [simp]: "takeWhile is_digit (show_nat n) = show_nat n"
  using show_nat_digits by simp

lemma show_nat_not_Nil [simp]: "show_nat n \<noteq> []"
  by (subst show_nat.simps) simp

lemma number_show_nat [simp, parse_simps]: "number (show_nat n) = n"
proof (induction n rule: show_nat.induct)
  case (1 n)
  then show ?case
    by (subst show_nat.simps) (auto simp: number_def)
qed

lemma digit_not_space: "is_digit c \<Longrightarrow> \<not> is_space c"
  by (auto simp: is_digit_def is_space_def)

lemma is_digit_not [simp]:
  "\<not> is_digit CHR ''|''" "\<not> is_digit CHR ''-''" "\<not> is_digit CHR ''+''" "\<not> is_digit CHR 0x0A"
  by (auto simp: is_digit_def)

text \<open>
  \<open>strtol\<close> in base 10: white space, an optional sign, then the longest run of digits; no
  digits means that no conversion could be performed. The rest of the text is ignored.
\<close>

definition scan_number :: "string \<Rightarrow> (bool \<times> nat) option" where
  "scan_number s =
     (let s1 = dropWhile is_space s;
          neg = (s1 \<noteq> [] \<and> hd s1 = CHR ''-'');
          s2 = (if s1 \<noteq> [] \<and> (hd s1 = CHR ''-'' \<or> hd s1 = CHR ''+'') then tl s1 else s1);
          ds = takeWhile is_digit s2
      in if ds = [] then None else Some (neg, number ds))"

text \<open>\<open>std::stoi\<close>: the result is an \<open>int\<close> of 32 bits.\<close>

definition stoi :: "string \<Rightarrow> exn + int" where
  "stoi s =
     (case scan_number s of
        None \<Rightarrow> Inl (Invalid_argument ''stoi'')
      | Some (neg, n) \<Rightarrow>
          (let v = (if neg then - int n else int n)
           in if v < - (2 ^ 31) \<or> 2 ^ 31 \<le> v then Inl (Out_of_range ''stoi'') else Inr v))"

text \<open>
  \<open>std::stoul\<close> and \<open>std::stoull\<close>, both of 64 bits: a magnitude that does not fit is out of
  range, and a minus sign negates the value as an unsigned one.
\<close>

definition stoul :: "string \<Rightarrow> string \<Rightarrow> exn + u64" where
  "stoul name s =
     (case scan_number s of
        None \<Rightarrow> Inl (Invalid_argument name)
      | Some (neg, n) \<Rightarrow>
          (if 2 ^ 64 \<le> n then Inl (Out_of_range name)
           else Inr (if neg then - word_of_nat n else word_of_nat n)))"

lemma scan_number_show_nat [parse_simps]: "scan_number (show_nat n) = Some (False, n)"
proof -
  obtain c cs where cs: "show_nat n = c # cs"
    by (cases "show_nat n") auto
  then have "is_digit c"
    using show_nat_digits [of n] by auto
  then have "\<not> is_space c" and "c \<noteq> CHR ''-''" and "c \<noteq> CHR ''+''"
    by (auto simp: digit_not_space)
  then show ?thesis
    using number_show_nat [of n] takeWhile_show_nat [of n] by (simp add: scan_number_def cs)
qed

lemma scan_number_negative [parse_simps]:
  "scan_number (CHR ''-'' # show_nat n) = Some (True, n)"
  by (simp add: scan_number_def is_space_def Let_def)

lemma stoi_show_int [parse_simps]:
  "- (2 ^ 31) \<le> i \<Longrightarrow> i < 2 ^ 31 \<Longrightarrow> stoi (show_int i) = Inr i"
  by (auto simp: stoi_def show_int_def scan_number_show_nat scan_number_negative)

lemma stoul_show_nat [parse_simps]: "stoul name (show_nat (unat w)) = Inr w"
  using unat_lt2p_u64 [of w] by (simp add: stoul_def scan_number_show_nat)

lemma show_nat_no_delim:
  "\<not> is_digit d \<Longrightarrow> d \<notin> set (show_nat n)"
  using show_nat_digits by blast

lemma show_int_no_delim:
  "\<not> is_digit d \<Longrightarrow> d \<noteq> CHR ''-'' \<Longrightarrow> d \<notin> set (show_int i)"
  by (auto simp: show_int_def show_nat_no_delim)

section \<open>Services\<close>

text \<open>
  What every class with \<open>start\<close> and \<open>stop\<close> promises of \<open>stop\<close>: afterwards it is not running,
  and a call on an object that is not running does nothing. Destructors and signal handlers
  rely on it, since they call \<open>stop\<close> on objects that may have been stopped before.
\<close>

locale service =
  fixes running :: "'s \<Rightarrow> bool"
    and stop :: "'s \<Rightarrow> 's"
  assumes stop_stops: "\<not> running (stop s)"
    and stop_idle: "\<not> running s \<Longrightarrow> stop s = s"
begin

lemma stop_stop: "stop (stop s) = stop s"
  by (rule stop_idle) (rule stop_stops)

lemma stop_fixpoint: "stop s = s \<longleftrightarrow> \<not> running s"
  using stop_stops [of s] stop_idle [of s] by auto

lemma stops_once: "(stop ^^ Suc n) s = stop s"
  by (induction n) (simp_all add: stop_stop)

end

end
