(* ===== verification/Double.thy ===== *)
theory Double
  imports Prelude "HOL-Library.Log_Nat"
begin

text \<open>
  The arithmetic of \<open>double\<close> as far as the program uses it: non-negative finite numbers, the
  conversion of integers, division and multiplication, the cast back to an integer and
  \<open>std::to_string\<close>. A double is the rational number it stands for, and an operation is the exact
  one followed by \<open>fl\<close>, the rounding to 53 significant bits, to nearest and ties to even, that
  IEEE 754 prescribes. The numbers that occur lie between \<open>2^-90\<close> and \<open>2^71\<close>, so there is neither
  overflow nor a subnormal result.
\<close>

type_synonym double = rat

section \<open>Rounding\<close>

definition round_even :: "rat \<Rightarrow> int" where
  "round_even x =
     (let f = \<lfloor>x\<rfloor>; r = x - of_int f
      in if r < 1 / 2 then f else if r > 1 / 2 then f + 1 else if even f then f else f + 1)"

text \<open>The binary exponent \<open>\<lfloor>log 2 x\<rfloor>\<close> of a positive number.\<close>

definition ilog2 :: "rat \<Rightarrow> int" where
  "ilog2 x =
     (if 1 \<le> x then int (floorlog 2 (nat \<lfloor>x\<rfloor>)) - 1 else - int (ceillog2 (nat \<lceil>1 / x\<rceil>)))"

definition fl :: "rat \<Rightarrow> double" where
  "fl x =
     (if x = 0 then 0
      else let u = 2 powi (ilog2 x - 52) in of_int (round_even (x / u)) * u)"

lemma round_even_of_int [simp]: "round_even (of_int n) = n"
  by (simp add: round_even_def)

lemma round_even_bounds: "\<lfloor>x\<rfloor> \<le> round_even x" "round_even x \<le> \<lceil>x\<rceil>"
proof -
  show "\<lfloor>x\<rfloor> \<le> round_even x"
    by (simp add: round_even_def Let_def)
  have "\<lceil>x\<rceil> = \<lfloor>x\<rfloor> + 1" if "x \<noteq> of_int \<lfloor>x\<rfloor>"
    using that by (simp add: ceiling_altdef)
  then show "round_even x \<le> \<lceil>x\<rceil>"
    by (auto simp: round_even_def Let_def)
qed

lemma round_even_mono: "x \<le> y \<Longrightarrow> round_even x \<le> round_even y"
proof -
  assume le: "x \<le> y"
  then have f: "\<lfloor>x\<rfloor> \<le> \<lfloor>y\<rfloor>"
    by (rule floor_mono)
  show ?thesis
  proof (cases "\<lfloor>x\<rfloor> = \<lfloor>y\<rfloor>")
    case True
    then show ?thesis
      using le by (auto simp: round_even_def Let_def)
  next
    case False
    have "round_even x \<le> \<lfloor>x\<rfloor> + 1"
      by (simp add: round_even_def Let_def)
    also have "\<dots> \<le> \<lfloor>y\<rfloor>"
      using f False by simp
    also have "\<dots> \<le> round_even y"
      by (rule round_even_bounds)
    finally show ?thesis .
  qed
qed

lemma ilog2_bounds:
  assumes "0 < x"
  shows "2 powi ilog2 x \<le> x" and "x < 2 powi (ilog2 x + 1)"
proof -
  have "2 powi ilog2 x \<le> x \<and> x < 2 powi (ilog2 x + 1)"
  proof (cases "1 \<le> x")
    case True
    let ?n = "nat \<lfloor>x\<rfloor>"
    have n: "0 < ?n"
      using True by simp
    then obtain k where k: "floorlog 2 ?n = Suc k"
      using floorlog_eq_zero_iff [of 2 ?n] by (cases "floorlog 2 ?n") auto
    then have "2 ^ k \<le> ?n" and "?n < 2 ^ Suc k"
      using floorlog_bounds [of ?n 2] n by simp_all
    then have "(2 :: int) ^ k \<le> \<lfloor>x\<rfloor>" and "\<lfloor>x\<rfloor> < (2 :: int) ^ Suc k"
      using n by (simp_all add: nat_less_iff le_nat_iff)
    then have "2 ^ k \<le> x" and "x < 2 ^ Suc k"
      by (simp_all add: le_floor_iff floor_less_iff)
    moreover have "ilog2 x = int k"
      using True k by (simp add: ilog2_def)
    moreover have "int k + 1 = int (Suc k)"
      by simp
    ultimately show ?thesis
      by (simp only: power_int_of_nat)
  next
    case False
    let ?y = "1 / x"
    let ?n = "nat \<lceil>?y\<rceil>" and ?k = "ceillog2 (nat \<lceil>?y\<rceil>)"
    have y: "1 < ?y"
      using False assms by simp
    then have n: "1 < ?n"
      by linarith
    have "?k \<noteq> 0"
      using le_two_power_ceillog2 [of ?n] n by (metis linorder_not_less power_0)
    then obtain j where j: "?k = Suc j"
      by (metis not0_implies_Suc)
    have "?n \<le> 2 ^ Suc j" and "2 ^ Suc j < 2 * ?n"
      using le_two_power_ceillog2 [of ?n] two_power_ceillog2_gt [of ?n] n j assms by simp_all
    then have "\<lceil>?y\<rceil> \<le> (2 :: int) ^ Suc j" and "(2 :: int) ^ j < \<lceil>?y\<rceil>"
      using assms by (simp_all add: nat_le_iff zless_nat_eq_int_zless)
    then have "?y \<le> 2 ^ Suc j" and "2 ^ j < ?y"
      by (simp_all only: ceiling_le_iff less_ceiling_iff of_int_power of_int_numeral)
    then have "inverse (2 ^ Suc j) \<le> x" and "x < inverse (2 ^ j)"
      using assms by (simp_all only: field_simps inverse_eq_divide) (simp_all add: field_simps)
    moreover have "ilog2 x = - int (Suc j)" and "ilog2 x + 1 = - int j"
      using False j by (simp_all add: ilog2_def)
    ultimately show ?thesis
      by (simp only: power_int_minus power_int_of_nat)
  qed
  then show "2 powi ilog2 x \<le> x" and "x < 2 powi (ilog2 x + 1)"
    by simp_all
qed

lemma ilog2_less: "0 < x \<Longrightarrow> x < 2 powi k \<Longrightarrow> ilog2 x < k"
  using ilog2_bounds(1) [of x] power_int_increasing [of k "ilog2 x" "2 :: rat"] by fastforce

lemma ilog2_mono: "0 < x \<Longrightarrow> x \<le> y \<Longrightarrow> ilog2 x \<le> ilog2 y"
  using ilog2_less [of x "ilog2 y + 1"] ilog2_bounds(2) [of y] by simp

text \<open>The result stays in the binade of the number, its end included.\<close>

lemma fl_bounds:
  assumes "0 < x"
  shows "2 powi ilog2 x \<le> fl x" and "fl x \<le> 2 powi (ilog2 x + 1)"
proof -
  let ?e = "ilog2 x"
  define u :: rat where "u = 2 powi (?e - 52)"
  have u: "0 < u"
    by (simp add: u_def)
  have "2 powi ?e = 2 ^ 52 * u" and "2 powi (?e + 1) = 2 ^ 53 * u"
    by (simp_all add: u_def power_int_diff power_int_add)
  note scaled = this
  then have "of_int (2 ^ 52) \<le> x / u" and "x / u \<le> of_int (2 ^ 53)"
    using ilog2_bounds [OF assms] u by (simp_all add: field_simps)
  then have "2 ^ 52 \<le> round_even (x / u)" and "round_even (x / u) \<le> 2 ^ 53"
    using round_even_mono round_even_of_int by metis+
  then have "of_int (2 ^ 52) * u \<le> of_int (round_even (x / u)) * u"
    and "of_int (round_even (x / u)) * u \<le> of_int (2 ^ 53) * u"
    using u by (simp_all only: mult_right_mono of_int_le_iff less_imp_le)
  then show "2 powi ?e \<le> fl x" and "fl x \<le> 2 powi (?e + 1)"
    using assms by (simp_all add: fl_def Let_def scaled u_def)
qed

lemma fl_pos: "0 < x \<Longrightarrow> 0 < fl x"
  using fl_bounds(1) [of x] by (meson less_le_trans zero_less_power_int zero_less_numeral)

lemma fl_0 [simp]: "fl 0 = 0"
  by (simp add: fl_def)

lemma fl_nonneg: "0 \<le> x \<Longrightarrow> 0 \<le> fl x"
  using fl_pos [of x] by (cases "x = 0") auto

lemma fl_mono:
  assumes "0 \<le> x" and "x \<le> y"
  shows "fl x \<le> fl y"
proof (cases "x = 0")
  case True
  then show ?thesis
    using assms by (simp add: fl_nonneg)
next
  case False
  then have x: "0 < x" and y: "0 < y"
    using assms by simp_all
  show ?thesis
  proof (cases "ilog2 x = ilog2 y")
    case True
    let ?u = "2 powi (ilog2 y - 52) :: rat"
    have "round_even (x / ?u) \<le> round_even (y / ?u)"
      using assms by (intro round_even_mono divide_right_mono) simp_all
    then show ?thesis
      using x y True by (simp add: fl_def Let_def)
  next
    case False
    then have "ilog2 x + 1 \<le> ilog2 y"
      using ilog2_mono [OF x assms(2)] by simp
    then have "(2 :: rat) powi (ilog2 x + 1) \<le> 2 powi ilog2 y"
      by (intro power_int_increasing) simp_all
    then show ?thesis
      using fl_bounds(2) [OF x] fl_bounds(1) [OF y] by linarith
  qed
qed

text \<open>Integers of up to 53 bits are exact.\<close>

lemma fl_of_nat:
  assumes "n < 2 ^ 53"
  shows "fl (of_nat n) = of_nat n"
proof (cases "n = 0")
  case False
  let ?x = "of_nat n :: rat" and ?e = "ilog2 (of_nat n)"
  have "(of_nat n :: rat) < of_nat (2 ^ 53)"
    using assms by (simp only: of_nat_less_iff)
  also have "\<dots> = 2 powi 53"
    by simp
  finally have "?e < 53"
    using ilog2_less False by simp
  then have u: "(2 :: rat) powi (?e - 52) = inverse (2 ^ nat (52 - ?e))" (is "?u = inverse (2 ^ ?j)")
    using power_int_minus [of "2 :: rat" "52 - ?e"] by (simp add: power_int_def)
  then have "?x / ?u = of_int (int n * 2 ^ ?j)"
    by (simp add: field_simps)
  then have "round_even (?x / ?u) = int n * 2 ^ ?j"
    by (simp only: round_even_of_int)
  then show ?thesis
    using False by (simp add: fl_def Let_def u field_simps)
qed simp

section \<open>The operations of the program\<close>

definition double_of :: "u64 \<Rightarrow> double" where
  "double_of w = fl (of_nat (unat w))"

definition fdiv :: "double \<Rightarrow> double \<Rightarrow> double" where
  "fdiv x y = fl (x / y)"

definition fmul :: "double \<Rightarrow> double \<Rightarrow> double" where
  "fmul x y = fl (x * y)"

text \<open>\<open>(int)x\<close> cuts off the fraction.\<close>

definition int_of_double :: "double \<Rightarrow> int" where
  "int_of_double x = \<lfloor>x\<rfloor>"

text \<open>\<open>std::to_string\<close> prints with \<open>%f\<close>: six decimals, the exact value rounded to the nearest.\<close>

definition show_double :: "double \<Rightarrow> string" where
  "show_double x =
     (let n = nat (round_even (x * 1000000));
          frac = show_nat (n mod 1000000)
      in show_nat (n div 1000000) @ ''.'' @ replicate (6 - length frac) (CHR ''0'') @ frac)"

lemma double_of_mono: "a \<le> b \<Longrightarrow> double_of a \<le> double_of b"
  unfolding double_of_def word_le_nat_alt by (intro fl_mono) (simp_all only: of_nat_0_le_iff of_nat_le_iff)

lemma double_of_pos: "0 < w \<Longrightarrow> 0 < double_of w"
  unfolding double_of_def word_less_nat_alt by (intro fl_pos) (simp only: of_nat_0_less_iff unsigned_0)

lemma double_of_nonneg: "0 \<le> double_of w"
  unfolding double_of_def by (intro fl_nonneg) (simp only: of_nat_0_le_iff)

lemma fl_small [simp]: "fl 1 = 1" "fl 100 = 100"
  using fl_of_nat [of 1] fl_of_nat [of 100] by simp_all

text \<open>The share of a part in a whole, in percent, computed as the code computes it.\<close>

lemma percent_bounds:
  assumes "0 < whole" and "part \<le> whole"
  shows "0 \<le> int_of_double (fmul (fdiv (double_of part) (double_of whole)) 100)"
    and "int_of_double (fmul (fdiv (double_of part) (double_of whole)) 100) \<le> 100"
proof -
  let ?q = "double_of part / double_of whole"
  have t: "0 < double_of whole"
    using assms(1) by (rule double_of_pos)
  then have q: "0 \<le> ?q" "?q \<le> 1"
    using double_of_mono [OF assms(2)] double_of_nonneg [of part] by simp_all
  then have "0 \<le> fl ?q" and "fl ?q \<le> 1"
    using fl_mono [of ?q 1] fl_nonneg [of ?q] by simp_all
  then have "0 \<le> fl (fl ?q * 100)" and "fl (fl ?q * 100) \<le> 100"
    using fl_mono [of "fl ?q * 100" 100] fl_nonneg [of "fl ?q * 100"] by simp_all
  then show "0 \<le> int_of_double (fmul (fdiv (double_of part) (double_of whole)) 100)"
    and "int_of_double (fmul (fdiv (double_of part) (double_of whole)) 100) \<le> 100"
    by (simp_all add: int_of_double_def fmul_def fdiv_def floor_le_iff)
qed

lemma percent_full:
  "0 < whole \<Longrightarrow> int_of_double (fmul (fdiv (double_of whole) (double_of whole)) 100) = 100"
  using double_of_pos [of whole] by (simp add: int_of_double_def fmul_def fdiv_def)

lemma show_double_0: "show_double 0 = ''0.000000''"
proof -
  have "replicate 5 (CHR ''0'') = ''00000''"
    by (simp add: numeral_eq_Suc)
  moreover have "char_of (48 :: nat) = CHR ''0''"
    by code_simp
  ultimately show ?thesis
    by (simp add: show_double_def round_even_def show_nat.simps [of 0] digit_def)
qed

end
