(* ===== verification/Common.thy ===== *)
theory Common
  imports Prelude
begin

text \<open>
  The constants and the two enumerations of \<open>include/Common.h\<close>.

  Both enumerations have the fixed underlying type \<open>uint8_t\<close>, so a cast from any byte to
  them is defined and keeps the byte, whether or not an enumerator has that value. The last
  constructor of each datatype stands for the values that have no enumerator.
\<close>

definition DEFAULT_PORT :: int where
  "DEFAULT_PORT = 8888"

definition BUFFER_SIZE :: nat where
  "BUFFER_SIZE = 8192"

definition MAX_CONNECTIONS :: int where
  "MAX_CONNECTIONS = 1024"

definition MAX_EVENTS :: nat where
  "MAX_EVENTS = 100"

datatype MessageType =
    PEER_LIST_REQUEST
  | PEER_LIST_RESPONSE
  | FILE_LIST_REQUEST
  | FILE_LIST_RESPONSE
  | FILE_REQUEST
  | FILE_CHUNK
  | FILE_COMPLETE
  | ERROR_MESSAGE
  | PING
  | PONG
  | Unnamed_type byte

fun type_byte :: "MessageType \<Rightarrow> byte" where
  "type_byte PEER_LIST_REQUEST = 1"
| "type_byte PEER_LIST_RESPONSE = 2"
| "type_byte FILE_LIST_REQUEST = 3"
| "type_byte FILE_LIST_RESPONSE = 4"
| "type_byte FILE_REQUEST = 5"
| "type_byte FILE_CHUNK = 6"
| "type_byte FILE_COMPLETE = 7"
| "type_byte ERROR_MESSAGE = 8"
| "type_byte PING = 9"
| "type_byte PONG = 10"
| "type_byte (Unnamed_type b) = b"

text \<open>\<open>static_cast<MessageType>(b)\<close>.\<close>

definition byte_type :: "byte \<Rightarrow> MessageType" where
  "byte_type b =
     (if b = 1 then PEER_LIST_REQUEST
      else if b = 2 then PEER_LIST_RESPONSE
      else if b = 3 then FILE_LIST_REQUEST
      else if b = 4 then FILE_LIST_RESPONSE
      else if b = 5 then FILE_REQUEST
      else if b = 6 then FILE_CHUNK
      else if b = 7 then FILE_COMPLETE
      else if b = 8 then ERROR_MESSAGE
      else if b = 9 then PING
      else if b = 10 then PONG
      else Unnamed_type b)"

datatype ErrorCode =
    SUCCESS
  | FILE_NOT_FOUND
  | PERMISSION_DENIED
  | NETWORK_ERROR
  | PROTOCOL_ERROR
  | Unnamed_code byte

fun code_byte :: "ErrorCode \<Rightarrow> byte" where
  "code_byte SUCCESS = 0"
| "code_byte FILE_NOT_FOUND = 1"
| "code_byte PERMISSION_DENIED = 2"
| "code_byte NETWORK_ERROR = 3"
| "code_byte PROTOCOL_ERROR = 4"
| "code_byte (Unnamed_code b) = b"

text \<open>A message type that names its value: an enumerator, or a byte that has none.\<close>

definition proper_type :: "MessageType \<Rightarrow> bool" where
  "proper_type t \<longleftrightarrow> byte_type (type_byte t) = t"

lemma type_byte_byte_type [simp]: "type_byte (byte_type b) = b"
  by (simp add: byte_type_def)

lemma byte_type_type_byte [simp]: "proper_type t \<Longrightarrow> byte_type (type_byte t) = t"
  by (simp add: proper_type_def)

lemma proper_type_named [simp]:
  "proper_type PEER_LIST_REQUEST" "proper_type PEER_LIST_RESPONSE"
  "proper_type FILE_LIST_REQUEST" "proper_type FILE_LIST_RESPONSE"
  "proper_type FILE_REQUEST" "proper_type FILE_CHUNK" "proper_type FILE_COMPLETE"
  "proper_type ERROR_MESSAGE" "proper_type PING" "proper_type PONG"
  by (simp_all add: proper_type_def byte_type_def)

lemma proper_byte_type [simp]: "proper_type (byte_type b)"
  by (simp add: proper_type_def)

lemma named_type_byte_nonzero: "(\<forall>b. t \<noteq> Unnamed_type b) \<Longrightarrow> type_byte t \<noteq> 0"
  by (cases t) auto

end
