(* ===== verification/CRC32.thy ===== *)
theory CRC32
  imports Prelude
begin

text \<open>
  The checksum of \<open>src/Protocol.cpp\<close>: the lookup table and \<open>Protocol::calculateCRC32\<close>.

  The table is proved to be the one the CRC-32 polynomial \<open>0xEDB88320\<close> gives (bit by bit,
  least significant bit first), so the table-driven loop computes the bit-serial CRC-32.
  Because a shift step of the register is linear and injective, two equally long inputs that
  differ only inside a window of four bytes have different checksums.
\<close>

section \<open>The code\<close>

definition crc32_table :: "u32 list" where
  "crc32_table = [
   0x00000000, 0x77073096, 0xee0e612c, 0x990951ba,
   0x076dc419, 0x706af48f, 0xe963a535, 0x9e6495a3,
   0x0edb8832, 0x79dcb8a4, 0xe0d5e91e, 0x97d2d988,
   0x09b64c2b, 0x7eb17cbd, 0xe7b82d07, 0x90bf1d91,
   0x1db71064, 0x6ab020f2, 0xf3b97148, 0x84be41de,
   0x1adad47d, 0x6ddde4eb, 0xf4d4b551, 0x83d385c7,
   0x136c9856, 0x646ba8c0, 0xfd62f97a, 0x8a65c9ec,
   0x14015c4f, 0x63066cd9, 0xfa0f3d63, 0x8d080df5,
   0x3b6e20c8, 0x4c69105e, 0xd56041e4, 0xa2677172,
   0x3c03e4d1, 0x4b04d447, 0xd20d85fd, 0xa50ab56b,
   0x35b5a8fa, 0x42b2986c, 0xdbbbc9d6, 0xacbcf940,
   0x32d86ce3, 0x45df5c75, 0xdcd60dcf, 0xabd13d59,
   0x26d930ac, 0x51de003a, 0xc8d75180, 0xbfd06116,
   0x21b4f4b5, 0x56b3c423, 0xcfba9599, 0xb8bda50f,
   0x2802b89e, 0x5f058808, 0xc60cd9b2, 0xb10be924,
   0x2f6f7c87, 0x58684c11, 0xc1611dab, 0xb6662d3d,
   0x76dc4190, 0x01db7106, 0x98d220bc, 0xefd5102a,
   0x71b18589, 0x06b6b51f, 0x9fbfe4a5, 0xe8b8d433,
   0x7807c9a2, 0x0f00f934, 0x9609a88e, 0xe10e9818,
   0x7f6a0dbb, 0x086d3d2d, 0x91646c97, 0xe6635c01,
   0x6b6b51f4, 0x1c6c6162, 0x856530d8, 0xf262004e,
   0x6c0695ed, 0x1b01a57b, 0x8208f4c1, 0xf50fc457,
   0x65b0d9c6, 0x12b7e950, 0x8bbeb8ea, 0xfcb9887c,
   0x62dd1ddf, 0x15da2d49, 0x8cd37cf3, 0xfbd44c65,
   0x4db26158, 0x3ab551ce, 0xa3bc0074, 0xd4bb30e2,
   0x4adfa541, 0x3dd895d7, 0xa4d1c46d, 0xd3d6f4fb,
   0x4369e96a, 0x346ed9fc, 0xad678846, 0xda60b8d0,
   0x44042d73, 0x33031de5, 0xaa0a4c5f, 0xdd0d7cc9,
   0x5005713c, 0x270241aa, 0xbe0b1010, 0xc90c2086,
   0x5768b525, 0x206f85b3, 0xb966d409, 0xce61e49f,
   0x5edef90e, 0x29d9c998, 0xb0d09822, 0xc7d7a8b4,
   0x59b33d17, 0x2eb40d81, 0xb7bd5c3b, 0xc0ba6cad,
   0xedb88320, 0x9abfb3b6, 0x03b6e20c, 0x74b1d29a,
   0xead54739, 0x9dd277af, 0x04db2615, 0x73dc1683,
   0xe3630b12, 0x94643b84, 0x0d6d6a3e, 0x7a6a5aa8,
   0xe40ecf0b, 0x9309ff9d, 0x0a00ae27, 0x7d079eb1,
   0xf00f9344, 0x8708a3d2, 0x1e01f268, 0x6906c2fe,
   0xf762575d, 0x806567cb, 0x196c3671, 0x6e6b06e7,
   0xfed41b76, 0x89d32be0, 0x10da7a5a, 0x67dd4acc,
   0xf9b9df6f, 0x8ebeeff9, 0x17b7be43, 0x60b08ed5,
   0xd6d6a3e8, 0xa1d1937e, 0x38d8c2c4, 0x4fdff252,
   0xd1bb67f1, 0xa6bc5767, 0x3fb506dd, 0x48b2364b,
   0xd80d2bda, 0xaf0a1b4c, 0x36034af6, 0x41047a60,
   0xdf60efc3, 0xa867df55, 0x316e8eef, 0x4669be79,
   0xcb61b38c, 0xbc66831a, 0x256fd2a0, 0x5268e236,
   0xcc0c7795, 0xbb0b4703, 0x220216b9, 0x5505262f,
   0xc5ba3bbe, 0xb2bd0b28, 0x2bb45a92, 0x5cb36a04,
   0xc2d7ffa7, 0xb5d0cf31, 0x2cd99e8b, 0x5bdeae1d,
   0x9b64c2b0, 0xec63f226, 0x756aa39c, 0x026d930a,
   0x9c0906a9, 0xeb0e363f, 0x72076785, 0x05005713,
   0x95bf4a82, 0xe2b87a14, 0x7bb12bae, 0x0cb61b38,
   0x92d28e9b, 0xe5d5be0d, 0x7cdcefb7, 0x0bdbdf21,
   0x86d3d2d4, 0xf1d4e242, 0x68ddb3f8, 0x1fda836e,
   0x81be16cd, 0xf6b9265b, 0x6fb077e1, 0x18b74777,
   0x88085ae6, 0xff0f6a70, 0x66063bca, 0x11010b5c,
   0x8f659eff, 0xf862ae69, 0x616bffd3, 0x166ccf45,
   0xa00ae278, 0xd70dd2ee, 0x4e048354, 0x3903b3c2,
   0xa7672661, 0xd06016f7, 0x4969474d, 0x3e6e77db,
   0xaed16a4a, 0xd9d65adc, 0x40df0b66, 0x37d83bf0,
   0xa9bcae53, 0xdebb9ec5, 0x47b2cf7f, 0x30b5ffe9,
   0xbdbdf21c, 0xcabac28a, 0x53b39330, 0x24b4a3a6,
   0xbad03605, 0xcdd70693, 0x54de5729, 0x23d967bf,
   0xb3667a2e, 0xc4614ab8, 0x5d681b02, 0x2a6f2b94,
   0xb40bbe37, 0xc30c8ea1, 0x5a05df1b, 0x2d02ef8d]"

definition crc_step :: "u32 \<Rightarrow> byte \<Rightarrow> u32" where
  "crc_step crc b = crc32_table ! unat ((crc XOR ucast b) AND 0xFF) XOR drop_bit 8 crc"

definition calculateCRC32 :: "byte list \<Rightarrow> u32" where
  "calculateCRC32 data = foldl crc_step 0xFFFFFFFF data XOR 0xFFFFFFFF"

section \<open>The bit-serial reference\<close>

text \<open>One clock of the shift register with the reflected polynomial.\<close>

definition crc_shift :: "u32 \<Rightarrow> u32" where
  "crc_shift c = (if bit c 0 then 0xEDB88320 XOR drop_bit 1 c else drop_bit 1 c)"

definition crc_byte_ref :: "u32 \<Rightarrow> byte \<Rightarrow> u32" where
  "crc_byte_ref c b = (crc_shift ^^ 8) (c XOR ucast b)"

definition crc32_ref :: "byte list \<Rightarrow> u32" where
  "crc32_ref data = foldl crc_byte_ref 0xFFFFFFFF data XOR 0xFFFFFFFF"

section \<open>The shift step is linear and injective\<close>

lemma crc_shift_xor: "crc_shift (x XOR y) = crc_shift x XOR crc_shift y"
  by (rule bit_word_eqI) (auto simp: crc_shift_def bit_simps)

lemma crc_shift_0 [simp]: "crc_shift 0 = 0"
  by (simp add: crc_shift_def)

lemma crc_shifts_xor: "(crc_shift ^^ n) (x XOR y) = (crc_shift ^^ n) x XOR (crc_shift ^^ n) y"
  by (induction n arbitrary: x y) (simp_all add: crc_shift_xor)

lemma crc_shifts_0 [simp]: "(crc_shift ^^ n) 0 = 0"
  by (induction n) simp_all

lemma crc_shift_eq_0: "crc_shift x = 0 \<Longrightarrow> x = 0"
proof -
  assume 0: "crc_shift x = 0"
  have low: "\<not> bit x 0"
  proof
    assume "bit x 0"
    then have "bit (crc_shift x) 31"
      by (simp add: crc_shift_def bit_simps not_bit_u32)
    with 0 show False by simp
  qed
  with 0 have high: "drop_bit 1 x = 0"
    by (simp add: crc_shift_def)
  show "x = 0"
  proof (rule bit_word_eqI)
    fix n
    show "bit x n \<longleftrightarrow> bit 0 n"
      using low high bit_drop_bit_eq [of 1 x] by (cases n) (auto simp: fun_eq_iff)
  qed
qed

lemma xor_left_cancel: "a XOR x = a XOR y \<longleftrightarrow> x = y" for a :: u32
proof
  assume "a XOR x = a XOR y"
  then have "a XOR (a XOR x) = a XOR (a XOR y)" by simp
  then show "x = y" by (simp add: xor.assoc [symmetric])
qed simp

lemma xor_right_cancel: "x XOR a = y XOR a \<longleftrightarrow> x = y" for a :: u32
  by (simp add: xor.commute [of _ a] xor_left_cancel)

lemma xor_eq_0: "x XOR y = 0 \<longleftrightarrow> x = y" for x :: u32
  using xor_left_cancel [of y x y] by (simp add: xor.commute)

lemma inj_crc_shift: "inj crc_shift"
proof (rule injI)
  fix x y
  assume "crc_shift x = crc_shift y"
  then have "crc_shift (x XOR y) = 0"
    by (simp add: crc_shift_xor)
  then show "x = y"
    using crc_shift_eq_0 xor_eq_0 by blast
qed

lemma inj_crc_shifts: "inj (crc_shift ^^ n)"
proof (induction n)
  case (Suc n)
  then show ?case
    using inj_compose [OF inj_crc_shift Suc] by (simp only: funpow.simps)
qed simp

text \<open>While the low bits are zero, the register only shifts.\<close>

lemma crc_shifts_low_zero: "(\<forall>k<n. \<not> bit x k) \<Longrightarrow> (crc_shift ^^ n) x = drop_bit n x"
proof (induction n)
  case (Suc n)
  then have low: "\<not> bit (drop_bit n x) 0"
    by (auto simp: bit_drop_bit_eq)
  from Suc have "(crc_shift ^^ Suc n) x = crc_shift (drop_bit n x)"
    by simp
  also have "crc_shift (drop_bit n x) = drop_bit 1 (drop_bit n x)"
    using low by (simp only: crc_shift_def if_False)
  finally show ?case
    by simp
qed simp

section \<open>The table\<close>

text \<open>
  The table is the image of the eight one-bit bytes under linear combination, which keeps
  its evaluation small: 64 shifts and 255 exclusive ors.
\<close>

fun xor_span :: "u32 list \<Rightarrow> u32 list \<Rightarrow> u32 list" where
  "xor_span acc [] = acc"
| "xor_span acc (b # bs) = xor_span (acc @ map ((XOR) b) acc) bs"

lemma map_xor_span:
  "map (crc_shift ^^ n) (xor_span acc bs) =
   xor_span (map (crc_shift ^^ n) acc) (map (crc_shift ^^ n) bs)"
  by (induction acc bs rule: xor_span.induct) (simp_all add: comp_def crc_shifts_xor)

lemma byte_values: "map word_of_nat [0..<256] = xor_span [0] [1, 2, 4, 8, 16, 32, 64, 128]"
proof -
  have "[0..<256] = 0 # 1 # [2..<256]"
    by (simp add: upt_conv_Cons numeral_2_eq_2)
  then show ?thesis
    by (simp add: upt_rec_numeral)
qed

lemma crc_shifts_8: "(crc_shift ^^ 8) x = crc_shift (crc_shift (crc_shift (crc_shift
    (crc_shift (crc_shift (crc_shift (crc_shift x)))))))"
  by (simp add: eval_nat_numeral)

lemma crc32_basis:
  "map (crc_shift ^^ 8) [1, 2, 4, 8, 16, 32, 64, 128] =
   [0x77073096, 0xee0e612c, 0x076dc419, 0x0edb8832, 0x1db71064, 0x3b6e20c8, 0x76dc4190, 0xedb88320]"
  by (simp only: list.map crc_shifts_8) (simp add: crc_shift_def)

lemma crc32_table_eq: "crc32_table = map (\<lambda>i. (crc_shift ^^ 8) (word_of_nat i)) [0..<256]"
proof -
  have "map (\<lambda>i. (crc_shift ^^ 8) (word_of_nat i)) [0..<256] =
      map (crc_shift ^^ 8) (map word_of_nat [0..<256])"
    by (simp only: map_map comp_def)
  also have "\<dots> = xor_span (map (crc_shift ^^ 8) [0]) (map (crc_shift ^^ 8) [1, 2, 4, 8, 16, 32, 64, 128])"
    by (simp only: byte_values map_xor_span)
  also have "\<dots> = crc32_table"
    by (simp only: crc32_basis) (simp add: crc32_table_def)
  finally show ?thesis ..
qed

lemma crc32_table_nth: "i < 256 \<Longrightarrow> crc32_table ! i = (crc_shift ^^ 8) (word_of_nat i)"
  by (simp add: crc32_table_eq del: funpow.simps)

lemma crc32_table_length: "length crc32_table = 256"
  by (simp add: crc32_table_eq)

text \<open>The index expression of the loop never leaves the table.\<close>

lemma crc_index_bound: "unat ((w :: u32) AND 0xFF) < 256"
proof -
  have "unat (w AND 0xFF) \<le> unat (0xFF :: u32)"
    by (rule word_le_nat_alt [THEN iffD1]) (rule word_and_le1)
  then show ?thesis by simp
qed

section \<open>Table-driven and bit-serial steps agree\<close>

lemma and_0xFF: "w AND 0xFF = take_bit 8 w" for w :: u32
  by (simp add: take_bit_eq_mask mask_eq_exp_minus_1)

lemma low_byte_split: "w = (w AND 0xFF) XOR (push_bit 8 (drop_bit 8 w))" for w :: u32
  by (rule bit_word_eqI) (auto simp: and_0xFF bit_simps)

lemma crc_step_eq_ref: "crc_step c b = crc_byte_ref c b"
proof -
  define w where "w = c XOR ucast b"
  have high: "drop_bit 8 w = drop_bit 8 c"
    by (rule bit_word_eqI) (auto simp: w_def bit_simps not_bit_byte)
  have "crc_byte_ref c b = (crc_shift ^^ 8) ((w AND 0xFF) XOR push_bit 8 (drop_bit 8 w))"
    using low_byte_split [of w] by (simp add: crc_byte_ref_def w_def)
  also have "\<dots> = (crc_shift ^^ 8) (w AND 0xFF) XOR drop_bit 8 (push_bit 8 (drop_bit 8 w))"
    by (simp only: crc_shifts_xor) (simp add: crc_shifts_low_zero bit_simps)
  also have "drop_bit 8 (push_bit 8 (drop_bit 8 w)) = drop_bit 8 c"
    using high by (intro bit_word_eqI) (auto simp: bit_simps dest: bit_u32_less)
  also have "(crc_shift ^^ 8) (w AND 0xFF) = crc32_table ! unat (w AND 0xFF)"
    using crc_index_bound [of w] by (simp add: crc32_table_nth)
  finally show ?thesis
    by (simp add: crc_step_def w_def)
qed

section \<open>Error detection\<close>

lemma crc_steps_eq_ref: "foldl crc_step c data = foldl crc_byte_ref c data"
  by (induction data arbitrary: c) (simp_all add: crc_step_eq_ref)

lemma calculateCRC32_eq_ref: "calculateCRC32 data = crc32_ref data"
  by (simp add: calculateCRC32_def crc32_ref_def crc_steps_eq_ref)

text \<open>The register after any input determines the register before it.\<close>

lemma crc_byte_ref_inj: "crc_byte_ref c b = crc_byte_ref d b \<Longrightarrow> c = d"
  by (auto simp: crc_byte_ref_def xor_right_cancel dest: injD [OF inj_crc_shifts])

lemma foldl_crc_inj: "foldl crc_byte_ref c data = foldl crc_byte_ref d data \<Longrightarrow> c = d"
  by (induction data arbitrary: c d) (auto dest: crc_byte_ref_inj)

text \<open>
  A window of up to four bytes is absorbed as one word: feeding it to the register is the
  same as adding that word and clocking the register over zeros.
\<close>

lemma le_word_bit_low: "bit (le_word bs) n \<Longrightarrow> n < 8 * length bs"
proof (induction bs arbitrary: n)
  case (Cons b bs)
  from Cons.prems have "bit b n \<or> 8 \<le> n \<and> bit (le_word bs) (n - 8)"
    by (auto simp: bit_simps)
  then show ?case
    using Cons.IH [of "n - 8"] not_bit_byte [of n b] by (cases "8 \<le> n") auto
qed simp

lemma le_word_Cons_xor: "le_word (b # bs) = ucast b XOR push_bit 8 (le_word bs)"
  by (rule bit_word_eqI) (auto simp: bit_simps not_bit_byte)

lemma crc_absorb:
  "length bs \<le> 4 \<Longrightarrow> foldl crc_byte_ref c bs = (crc_shift ^^ (8 * length bs)) (c XOR le_word bs)"
proof (induction bs arbitrary: c)
  case (Cons b bs)
  let ?p = "push_bit 8 (le_word bs)"
  have "drop_bit 8 ?p = le_word bs"
    using Cons.prems le_word_bit_low [of bs]
    by (intro bit_word_eqI) (fastforce simp: bit_simps)
  then have p: "(crc_shift ^^ 8) ?p = le_word bs"
    by (simp add: crc_shifts_low_zero bit_simps)
  have window: "8 * length (b # bs) = 8 * length bs + 8"
    by simp
  have "foldl crc_byte_ref c (b # bs) =
      (crc_shift ^^ (8 * length bs)) ((crc_shift ^^ 8) (c XOR ucast b) XOR (crc_shift ^^ 8) ?p)"
    using Cons by (simp add: p crc_byte_ref_def [of c])
  also have "\<dots> = (crc_shift ^^ (8 * length bs)) ((crc_shift ^^ 8) (c XOR le_word (b # bs)))"
    by (simp only: crc_shifts_xor [symmetric] le_word_Cons_xor xor.assoc)
  also have "\<dots> = (crc_shift ^^ (8 * length (b # bs))) (c XOR le_word (b # bs))"
    by (simp only: window funpow_add comp_apply)
  finally show ?case .
qed simp

lemma le_word_inj:
  "length bs = length cs \<Longrightarrow> length bs \<le> 4 \<Longrightarrow> le_word bs = le_word cs \<Longrightarrow> bs = cs"
proof (induction bs cs rule: list_induct2)
  case (Cons b bs c cs)
  from Cons.prems have eq: "bit (le_word (b # bs)) n = bit (le_word (c # cs)) n" for n
    by simp
  have "bit b n = bit c n" for n
    using eq [of n] by (cases "n < 8") (auto simp: bit_simps not_bit_byte)
  moreover have "bit (le_word bs) n = bit (le_word cs) n" for n
    using eq [of "8 + n"] le_word_bit_low [of bs n] le_word_bit_low [of cs n] Cons.prems Cons.hyps
    by (auto simp: bit_simps not_bit_byte)
  ultimately show ?case
    using Cons by (auto simp: bit_eq_iff)
qed simp

text \<open>
  Corruption of any number of bits within four consecutive bytes always changes the checksum.
\<close>

lemma crc_burst_detected:
  assumes "length mid = length mid'" and "length mid \<le> 4" and "mid \<noteq> mid'"
  shows "calculateCRC32 (pre @ mid @ post) \<noteq> calculateCRC32 (pre @ mid' @ post)"
proof
  assume "calculateCRC32 (pre @ mid @ post) = calculateCRC32 (pre @ mid' @ post)"
  then have "foldl crc_byte_ref (foldl crc_byte_ref 0xFFFFFFFF pre) mid =
      foldl crc_byte_ref (foldl crc_byte_ref 0xFFFFFFFF pre) mid'"
    by (auto simp: calculateCRC32_eq_ref crc32_ref_def xor_right_cancel dest: foldl_crc_inj)
  then have "foldl crc_byte_ref 0xFFFFFFFF pre XOR le_word mid =
      foldl crc_byte_ref 0xFFFFFFFF pre XOR le_word mid'"
    using assms by (auto simp: crc_absorb dest: injD [OF inj_crc_shifts])
  with assms show False
    using le_word_inj [of mid mid'] by (simp add: xor_left_cancel)
qed

end
