(* ===== verification/Wire.thy ===== *)
theory Wire
  imports Common
begin

text \<open>
  The primitive reads and writes of \<open>src/Protocol.cpp\<close>: \<open>serializeUint32\<close>,
  \<open>deserializeUint32\<close>, \<open>serializeString\<close> and \<open>deserializeString\<close>, and the counted loop
  the list parsers run over them.

  The cursor is a \<open>size_t\<close> and its additions wrap, as in C++. A read that leaves the buffer
  is undefined behaviour (\<open>UB\<close>), so that the absence of such reads is a theorem and not an
  assumption. \<open>deserialize\<dots>\<close> returns the flag, the cursor and the out-parameter as they are
  when it returns.

  The locale \<open>wire_codec\<close> is the contract between a writer and the reader of the same data;
  what the counted loops need from it is proved once in the locale.
\<close>

section \<open>The primitives\<close>

text \<open>A read of \<open>n\<close> elements from position \<open>pos\<close> of a vector.\<close>

definition vread :: "'a list \<Rightarrow> u64 \<Rightarrow> nat \<Rightarrow> 'a list option" where
  "vread buffer pos n =
     (if unat pos + n \<le> length buffer then Some (take n (drop (unat pos) buffer)) else None)"

definition serializeUint32 :: "endian \<Rightarrow> byte list \<Rightarrow> u32 \<Rightarrow> byte list" where
  "serializeUint32 e buffer value = buffer @ mem32 e (htonl e value)"

definition deserializeUint32 ::
    "endian \<Rightarrow> byte list \<Rightarrow> u64 \<Rightarrow> u32 \<Rightarrow> (bool \<times> u64 \<times> u32) outcome" where
  "deserializeUint32 e buffer offset value =
     (if offset + 4 > vsize buffer then Ret (False, offset, value)
      else case vread buffer offset 4 of
             None \<Rightarrow> UB
           | Some raw \<Rightarrow> Ret (True, offset + 4, ntohl e (load32 e raw)))"

definition serializeString :: "endian \<Rightarrow> byte list \<Rightarrow> string \<Rightarrow> byte list" where
  "serializeString e buffer str =
     serializeUint32 e buffer (word_of_nat (length str)) @ to_bytes str"

definition deserializeString ::
    "endian \<Rightarrow> byte list \<Rightarrow> u64 \<Rightarrow> string \<Rightarrow> (bool \<times> u64 \<times> string) outcome" where
  "deserializeString e buffer offset str =
     (case deserializeUint32 e buffer offset 0 of
        UB \<Rightarrow> UB
      | Ret (ok, offset1, len) \<Rightarrow>
          (if \<not> ok then Ret (False, offset1, str)
           else if offset1 + ucast len > vsize buffer then Ret (False, offset1, str)
           else case vread buffer offset1 (unat len) of
                  None \<Rightarrow> UB
                | Some raw \<Rightarrow> Ret (True, offset1 + ucast len, to_string raw)))"

text \<open>
  The loop \<open>for (uint32_t i = 0; i < count; ++i)\<close> that reads one element per round, appends
  it to the out-parameter and returns false at the first element that cannot be read.
\<close>

fun parse_loop ::
    "(byte list \<Rightarrow> u64 \<Rightarrow> (bool \<times> u64 \<times> 'a) outcome) \<Rightarrow> nat \<Rightarrow> byte list \<Rightarrow> u64 \<Rightarrow> 'a list
     \<Rightarrow> (bool \<times> 'a list) outcome" where
  "parse_loop dec 0 buffer offset acc = Ret (True, acc)"
| "parse_loop dec (Suc n) buffer offset acc =
     (case dec buffer offset of
        UB \<Rightarrow> UB
      | Ret (ok, offset', x) \<Rightarrow>
          (if ok then parse_loop dec n buffer offset' (acc @ [x]) else Ret (False, acc)))"

section \<open>Cursor arithmetic\<close>

lemma cursor_advance:
  assumes "vector_ok buffer" and "unat offset \<le> length buffer" and "n < 2 ^ 32"
  shows "unat (offset + word_of_nat n) = unat offset + n"
    and "offset + word_of_nat n > vsize buffer \<longleftrightarrow> length buffer < unat offset + n"
proof -
  have "unat offset + n < 2 ^ 64"
    using assms by (simp add: vector_ok_def)
  then show *: "unat (offset + word_of_nat n) = unat offset + n"
    using assms(3) by (simp add: unat_word_ariths unat_of_nat take_bit_nat_eq_self)
  show "offset + word_of_nat n > vsize buffer \<longleftrightarrow> length buffer < unat offset + n"
    by (simp add: word_less_nat_alt * unat_vsize [OF assms(1)])
qed

lemma vread_append [wire_simps]:
  assumes "vector_ok (pre @ mid @ post)" and "n = length mid"
  shows "vread (pre @ mid @ post) (vsize pre) n = Some mid"
  using assms vector_ok_append [of pre "mid @ post"] by (simp add: vread_def unat_vsize)

text \<open>In range, a read of an integer is exactly the bounds test followed by the read.\<close>

lemma deserializeUint32_in_range:
  assumes "vector_ok buffer" and "unat offset \<le> length buffer"
  shows "deserializeUint32 e buffer offset value =
     (if length buffer < unat offset + 4 then Ret (False, offset, value)
      else Ret (True, offset + 4, le_word (rev (take 4 (drop (unat offset) buffer)))))"
  using cursor_advance [OF assms, of 4]
  by (auto simp: deserializeUint32_def vread_def ntohl_load32)

lemma deserializeString_in_range:
  assumes "vector_ok buffer" and "unat offset \<le> length buffer"
  shows "\<exists>ok offset' str'. deserializeString e buffer offset str = Ret (ok, offset', str') \<and>
     unat offset' \<le> length buffer \<and> (ok \<longrightarrow> unat offset + 4 \<le> unat offset')"
proof (cases "length buffer < unat offset + 4")
  case True
  then show ?thesis
    using assms by (auto simp: deserializeString_def deserializeUint32_in_range)
next
  case False
  define len where "len = le_word (rev (take 4 (drop (unat offset) buffer)))"
  have off1: "unat (offset + 4) = unat offset + 4"
    using cursor_advance [OF assms, of 4] by simp
  have len: "unat len < 2 ^ 32"
    by (rule unat_lt2p_u32)
  have adv: "unat (offset + 4 + ucast len) = unat offset + 4 + unat len"
      "offset + 4 + ucast len > vsize buffer \<longleftrightarrow> length buffer < unat offset + 4 + unat len"
    using cursor_advance [OF assms(1), of "offset + 4" "unat len"] False off1 len by simp_all
  from False assms show ?thesis
    by (auto simp: deserializeString_def deserializeUint32_in_range len_def [symmetric] adv
        vread_def off1)
qed

section \<open>The codec contract\<close>

locale wire_codec =
  fixes enc :: "byte list \<Rightarrow> 'a \<Rightarrow> byte list"
    and dec :: "byte list \<Rightarrow> u64 \<Rightarrow> (bool \<times> u64 \<times> 'a) outcome"
    and wire :: "'a \<Rightarrow> byte list"
    and legal :: "'a \<Rightarrow> bool"
    and width :: nat
  assumes enc_appends: "enc buffer x = buffer @ wire x"
    and dec_wire: "legal x \<Longrightarrow> vector_ok (pre @ wire x @ post) \<Longrightarrow>
      dec (pre @ wire x @ post) (vsize pre) = Ret (True, vsize (pre @ wire x), x)"
    and dec_safe: "vector_ok buffer \<Longrightarrow> unat offset \<le> length buffer \<Longrightarrow>
      \<exists>ok offset' x. dec buffer offset = Ret (ok, offset', x) \<and> unat offset' \<le> length buffer \<and>
        (ok \<longrightarrow> unat offset + width \<le> unat offset')"
begin

lemma enc_all: "foldl enc buffer xs = buffer @ concat (map wire xs)"
  by (induction xs arbitrary: buffer) (simp_all add: enc_appends)

lemma parse_loop_wire:
  "\<forall>x \<in> set xs. legal x \<Longrightarrow> vector_ok (pre @ concat (map wire xs) @ post) \<Longrightarrow>
   parse_loop dec (length xs) (pre @ concat (map wire xs) @ post) (vsize pre) acc =
   Ret (True, acc @ xs)"
proof (induction xs arbitrary: pre acc)
  case (Cons x xs)
  then show ?case
    using dec_wire [of x pre "concat (map wire xs) @ post"] Cons.IH [of "pre @ wire x" "acc @ [x]"]
    by simp
qed simp

text \<open>
  The loop never leaves the buffer, whatever count the sender claims, and each element it
  delivers took at least \<open>width\<close> bytes of input.
\<close>

lemma parse_loop_safe:
  "vector_ok buffer \<Longrightarrow> unat offset \<le> length buffer \<Longrightarrow>
   \<exists>ok ys. parse_loop dec n buffer offset acc = Ret (ok, acc @ ys) \<and>
     unat offset + width * length ys \<le> length buffer \<and> length ys \<le> n \<and> (ok \<longrightarrow> length ys = n)"
proof (induction n arbitrary: offset acc)
  case (Suc n)
  obtain ok offset' x where step: "dec buffer offset = Ret (ok, offset', x)"
      and le: "unat offset' \<le> length buffer" and adv: "ok \<longrightarrow> unat offset + width \<le> unat offset'"
    using dec_safe [OF Suc.prems] by blast
  show ?case
  proof (cases ok)
    case True
    obtain ok' ys where "parse_loop dec n buffer offset' (acc @ [x]) = Ret (ok', (acc @ [x]) @ ys)"
        and "unat offset' + width * length ys \<le> length buffer" and "length ys \<le> n"
        and "ok' \<longrightarrow> length ys = n"
      using Suc.IH [OF Suc.prems(1) le, of "acc @ [x]"] by blast
    then show ?thesis
      using step True adv by (intro exI [of _ ok'] exI [of _ "x # ys"]) auto
  next
    case False
    then show ?thesis
      using step Suc.prems by auto
  qed
qed auto

end

interpretation uint32: wire_codec "serializeUint32 e"
    "\<lambda>buffer offset. deserializeUint32 e buffer offset 0"
    "\<lambda>v. rev (le_bytes v)" "\<lambda>_. True" 4
  for e
proof unfold_locales
  fix x :: u32 and pre post
  assume ok: "vector_ok (pre @ rev (le_bytes x) @ post)"
  then have pre: "vector_ok pre"
    using vector_ok_append by blast
  have "vsize (pre @ rev (le_bytes x)) = vsize pre + 4"
    by (simp add: vsize_def)
  then show "deserializeUint32 e (pre @ rev (le_bytes x) @ post) (vsize pre) 0 =
      Ret (True, vsize (pre @ rev (le_bytes x)), x)"
    using deserializeUint32_in_range [OF ok, of "vsize pre" e 0] by (simp add: unat_vsize [OF pre])
next
  fix buffer :: "byte list" and offset :: u64
  assume "vector_ok buffer" "unat offset \<le> length buffer"
  then show "\<exists>ok offset' x. deserializeUint32 e buffer offset 0 = Ret (ok, offset', x) \<and>
      unat offset' \<le> length buffer \<and> (ok \<longrightarrow> unat offset + 4 \<le> unat offset')"
    using cursor_advance [of buffer offset 4] by (auto simp: deserializeUint32_in_range)
qed (simp add: serializeUint32_def mem32_htonl)

text \<open>The bytes of a string: its length, most significant byte first, then its characters.\<close>

definition string_wire :: "string \<Rightarrow> byte list" where
  "string_wire s = rev (le_bytes (word_of_nat (length s))) @ to_bytes s"

definition string_legal :: "string \<Rightarrow> bool" where
  "string_legal s \<longleftrightarrow> length s < 2 ^ 32"

lemma serializeString_wire: "serializeString e buffer s = buffer @ string_wire s"
  by (simp add: serializeString_def uint32.enc_appends string_wire_def)

lemma deserializeString_wire [wire_simps]:
  assumes "string_legal s" and ok: "vector_ok (pre @ string_wire s @ post)"
  shows "deserializeString e (pre @ string_wire s @ post) (vsize pre) str =
     Ret (True, vsize (pre @ string_wire s), s)"
proof -
  let ?len = "word_of_nat (length s) :: u32"
  let ?pre = "pre @ rev (le_bytes ?len)"
  let ?buffer = "?pre @ to_bytes s @ post"
  have buffer: "pre @ string_wire s @ post = ?buffer"
    by (simp add: string_wire_def)
  have ok': "vector_ok ?buffer" and pre: "vector_ok ?pre"
    using ok vector_ok_append [of ?pre "to_bytes s @ post"] by (simp_all add: buffer)
  have len: "unat ?len = length s"
    using assms(1) by (simp add: string_legal_def unat_of_nat take_bit_nat_eq_self)
  have read: "deserializeUint32 e ?buffer (vsize pre) 0 = Ret (True, vsize ?pre, ?len)"
    using uint32.dec_wire [where x = ?len and pre = pre and post = "to_bytes s @ post"] ok' by simp
  have "(word_of_nat (unat ?len) :: u64) = ucast ?len"
    by (rule of_nat_unat)
  then have wide: "ucast ?len = (word_of_nat (length s) :: u64)"
    by (simp only: len)
  have in_range: "\<not> vsize ?pre + word_of_nat (length s) > vsize ?buffer"
    using cursor_advance(2) [OF ok', of "vsize ?pre" "length s"] assms(1)
    by (simp add: unat_vsize [OF pre] string_legal_def)
  have chars: "vread ?buffer (vsize ?pre) (unat ?len) = Some (to_bytes s)"
    using ok' by (intro vread_append) (simp_all add: len)
  have total: "vsize ?pre + word_of_nat (length s) = vsize (pre @ string_wire s)"
    by (simp add: vsize_def string_wire_def)
  show ?thesis
    unfolding deserializeString_def buffer
    by (simp only: read outcome.case prod.case wide in_range chars option.case if_False not_True_eq_False
        to_string_to_bytes) (simp only: total)
qed

interpretation wstring: wire_codec "serializeString e"
    "\<lambda>buffer offset. deserializeString e buffer offset []" string_wire string_legal 4
  for e
  using deserializeString_in_range
  by unfold_locales (auto simp: serializeString_wire deserializeString_wire)

end
