(* ===== verification/Table.thy ===== *)
theory Table
  imports Prelude "HOL-Library.AList"
begin

text \<open>
  \<open>std::unordered_map<std::string, T>\<close> as the program uses it: \<open>find\<close>, \<open>operator[]\<close> with
  assignment, \<open>erase\<close> by key and iteration. A table is the association list of its entries in
  iteration order. C++ does not specify that order, so properties of the components speak of
  tables up to order (\<open>mset\<close>, \<open>set\<close>, or the map the table stands for).

  The locale \<open>string_table\<close> is the contract that the clients (\<open>PeerManager\<close>, \<open>Client\<close>) rely on.
\<close>

type_synonym 'v table = "(string \<times> 'v) list"

definition table_find :: "string \<Rightarrow> 'v table \<Rightarrow> 'v option" where
  "table_find k t = map_of t k"

definition table_put :: "string \<Rightarrow> 'v \<Rightarrow> 'v table \<Rightarrow> 'v table" where
  "table_put k v t = AList.update k v t"

definition table_erase :: "string \<Rightarrow> 'v table \<Rightarrow> 'v table" where
  "table_erase k t = filter (\<lambda>e. fst e \<noteq> k) t"

definition table_values :: "'v table \<Rightarrow> 'v list" where
  "table_values t = map snd t"

text \<open>What the class keeps true: one entry per key.\<close>

definition table_ok :: "'v table \<Rightarrow> bool" where
  "table_ok t \<longleftrightarrow> distinct (map fst t)"

locale string_table =
  fixes ok :: "'t \<Rightarrow> bool"
    and find :: "string \<Rightarrow> 't \<Rightarrow> 'v option"
    and put :: "string \<Rightarrow> 'v \<Rightarrow> 't \<Rightarrow> 't"
    and erase :: "string \<Rightarrow> 't \<Rightarrow> 't"
    and vals :: "'t \<Rightarrow> 'v list"
  assumes find_put: "find k (put j v t) = (if k = j then Some v else find k t)"
    and find_erase: "find k (erase j t) = (if k = j then None else find k t)"
    and ok_put: "ok t \<Longrightarrow> ok (put k v t)"
    and ok_erase: "ok t \<Longrightarrow> ok (erase k t)"
    and vals_find: "ok t \<Longrightarrow> set (vals t) = {v. \<exists>k. find k t = Some v}"
    and vals_card: "ok t \<Longrightarrow> finite (dom (\<lambda>k. find k t)) \<and> length (vals t) = card (dom (\<lambda>k. find k t))"
begin

lemma put_same: "find k t = Some v \<Longrightarrow> find j (put k v t) = find j t"
  by (simp add: find_put)

lemma find_put_put: "find k (put j w (put j v t)) = find k (put j w t)"
  by (simp add: find_put)

lemma length_vals_put:
  assumes "ok t"
  shows "length (vals (put k v t)) =
    (if find k t = None then Suc (length (vals t)) else length (vals t))"
proof -
  have "dom (\<lambda>j. find j (put k v t)) = insert k (dom (\<lambda>j. find j t))"
    by (auto simp: find_put split: if_splits)
  then show ?thesis
    using vals_card [OF assms] vals_card [OF ok_put [OF assms]] by (auto simp: card_insert_if)
qed

lemma length_vals_erase:
  assumes "ok t"
  shows "length (vals (erase k t)) =
    (if find k t = None then length (vals t) else length (vals t) - 1)"
proof -
  have "dom (\<lambda>j. find j (erase k t)) = dom (\<lambda>j. find j t) - {k}"
    by (auto simp: find_erase split: if_splits)
  then show ?thesis
    using vals_card [OF assms] vals_card [OF ok_erase [OF assms]] by (auto simp: card_Diff_singleton_if)
qed

end

lemma map_of_filter_key:
  "map_of (filter (\<lambda>e. fst e \<noteq> j) t) k = (if k = j then None else map_of t k)"
  by (induction t) auto

interpretation tbl: string_table table_ok table_find table_put table_erase table_values
proof
  fix k j :: string and v :: 'a and t :: "'a table"
  show "table_find k (table_put j v t) = (if k = j then Some v else table_find k t)"
    by (simp add: table_find_def table_put_def update_conv)
  show "table_find k (table_erase j t) = (if k = j then None else table_find k t)"
    by (simp add: table_find_def table_erase_def map_of_filter_key)
  assume ok: "table_ok t"
  then show "table_ok (table_put k v t)"
    by (simp add: table_ok_def table_put_def distinct_update)
  show "table_ok (table_erase k t)"
    using ok by (simp add: table_ok_def table_erase_def distinct_map_filter)
  show "set (table_values t) = {v. \<exists>k. table_find k t = Some v}"
    using ok by (force simp: table_ok_def table_values_def table_find_def)
  show "finite (dom (\<lambda>k. table_find k t)) \<and>
      length (table_values t) = card (dom (\<lambda>k. table_find k t))"
    using ok distinct_card [of "map fst t"]
    by (simp add: table_ok_def table_values_def table_find_def dom_map_of_conv_image_fst
        finite_dom_map_of)
qed

lemma table_ok_Nil [simp]: "table_ok []"
  by (simp add: table_ok_def)

lemma table_find_Nil [simp]: "table_find k [] = None"
  by (simp add: table_find_def)

lemma table_find_in: "table_find k t = Some v \<Longrightarrow> (k, v) \<in> set t"
  by (simp add: table_find_def map_of_SomeD)

lemma table_find_iff: "table_ok t \<Longrightarrow> table_find k t = Some v \<longleftrightarrow> (k, v) \<in> set t"
  by (simp add: table_ok_def table_find_def)

lemma table_find_filter:
  "table_ok t \<Longrightarrow>
   table_find k (filter P t) =
   (case table_find k t of None \<Rightarrow> None | Some v \<Rightarrow> if P (k, v) then Some v else None)"
proof (induction t)
  case (Cons e t)
  obtain j v where e: "e = (j, v)"
    by (cases e)
  have "table_find k t = None" if "k = j"
    using Cons.prems that
    by (auto simp: e table_ok_def table_find_def map_of_eq_None_iff)
  with Cons show ?case
    by (auto simp: e table_ok_def table_find_def)
qed simp

end
