(* ===== verification/Peer.thy ===== *)
theory Peer
  imports Common
begin

text \<open>
  \<open>include/Peer.h\<close> and \<open>src/Peer.cpp\<close>: the file record \<open>FileInfo\<close>, the peer object and its
  text form.

  A peer's methods hold its mutex while they touch the list of files, and the others read or
  write single fields, so each is one function from the old object to the new one. \<open>std::chrono::system_clock::now()\<close> is an argument of the operations
  that read the clock.

  Two interfaces are stated as locales: \<open>file_lookup\<close> (what \<open>hasFile\<close> and \<open>getFileInfo\<close>
  promise, also implemented by \<open>FileManager\<close>) and \<open>file_table\<close> (what \<open>addFile\<close> and
  \<open>removeFile\<close> add to it).
\<close>

section \<open>Data\<close>

record FileInfo =
  filename :: string
  filepath :: string
  file_size :: u64
  file_hash :: string
  last_modified :: "64 word"

record Peer =
  peer_id :: string
  ip_address :: string
  peer_port :: int
  shared_files :: "FileInfo list"
  is_active :: bool
  last_seen :: int

definition mkFileInfo :: "string \<Rightarrow> string \<Rightarrow> u64 \<Rightarrow> string \<Rightarrow> 64 word \<Rightarrow> FileInfo" where
  "mkFileInfo name path sz h modified =
     \<lparr>filename = name, filepath = path, file_size = sz, file_hash = h, last_modified = modified\<rparr>"

section \<open>Operations\<close>

definition updateLastSeen :: "int \<Rightarrow> Peer \<Rightarrow> Peer" where
  "updateLastSeen now p = p\<lparr>last_seen := now\<rparr>"

definition new_Peer :: "int \<Rightarrow> string \<Rightarrow> string \<Rightarrow> int \<Rightarrow> Peer" where
  "new_Peer now i ip p =
     updateLastSeen now
       \<lparr>peer_id = i, ip_address = ip, peer_port = p, shared_files = [], is_active = True,
        last_seen = 0\<rparr>"

text \<open>The first file of that name is overwritten in place; a new name goes to the end.\<close>

fun put_file :: "FileInfo list \<Rightarrow> FileInfo \<Rightarrow> FileInfo list" where
  "put_file [] f = [f]"
| "put_file (g # gs) f = (if filename g = filename f then f # gs else g # put_file gs f)"

definition addFile :: "Peer \<Rightarrow> FileInfo \<Rightarrow> Peer" where
  "addFile p f = p\<lparr>shared_files := put_file (shared_files p) f\<rparr>"

definition removeFile :: "Peer \<Rightarrow> string \<Rightarrow> Peer" where
  "removeFile p name = p\<lparr>shared_files := filter (\<lambda>f. filename f \<noteq> name) (shared_files p)\<rparr>"

definition getFiles :: "Peer \<Rightarrow> FileInfo list" where
  "getFiles p = shared_files p"

definition find_file :: "string \<Rightarrow> FileInfo list \<Rightarrow> FileInfo option" where
  "find_file name fs = find (\<lambda>f. filename f = name) fs"

definition hasFile :: "Peer \<Rightarrow> string \<Rightarrow> bool" where
  "hasFile p name = (find_file name (shared_files p) \<noteq> None)"

definition getFileInfo :: "Peer \<Rightarrow> string \<Rightarrow> exn + FileInfo" where
  "getFileInfo p name =
     (case find_file name (shared_files p) of
        Some f \<Rightarrow> Inr f
      | None \<Rightarrow> Inl (Runtime_error (''File not found: '' @ name)))"

definition setActive :: "int \<Rightarrow> bool \<Rightarrow> Peer \<Rightarrow> Peer" where
  "setActive now active p =
     (let p1 = p\<lparr>is_active := active\<rparr> in if active then updateLastSeen now p1 else p1)"

definition getLastSeen :: "Peer \<Rightarrow> int" where
  "getLastSeen p = last_seen p"

definition getAddress :: "Peer \<Rightarrow> string" where
  "getAddress p = ip_address p @ '':'' @ show_int (peer_port p)"

section \<open>Text form\<close>

definition serialize_file :: "FileInfo \<Rightarrow> string" where
  "serialize_file f =
     ''|'' @ filename f @ ''|'' @ show_nat (unat (file_size f)) @ ''|'' @ file_hash f"

definition serialize :: "Peer \<Rightarrow> string" where
  "serialize p =
     peer_id p @ ''|'' @ ip_address p @ ''|'' @ show_int (peer_port p) @ ''|''
       @ (if is_active p then ''1'' else ''0'')
       @ ''|'' @ show_nat (length (shared_files p))
       @ concat (map serialize_file (shared_files p))"

text \<open>
  The loop over the file tokens: it stops after \<open>file_count\<close> files or when fewer than three
  tokens are left (\<open>idx + 2 < tokens.size()\<close> fails); the list argument is the tokens from
  \<open>idx\<close> on.
\<close>

fun read_files :: "nat \<Rightarrow> string list \<Rightarrow> Peer \<Rightarrow> exn + Peer" where
  "read_files (Suc n) (name # sz # h # rest) p =
     (case stoul ''stoul'' sz of
        Inl err \<Rightarrow> Inl err
      | Inr w \<Rightarrow> read_files n rest (addFile p (mkFileInfo name [] w h 0)))"
| "read_files n rest p = Inr p"

text \<open>
  The constructor and \<open>setActive\<close> read the clock one after the other, at \<open>t_new\<close> and
  \<open>t_active\<close>.
\<close>

definition deserialize :: "int \<Rightarrow> int \<Rightarrow> string \<Rightarrow> exn + Peer" where
  "deserialize t_new t_active data =
     (let tokens = getlines CHR ''|'' data
      in if length tokens < 5 then Inl (Runtime_error ''Invalid peer serialization data'')
         else case stoi (tokens ! 2) of
                Inl err \<Rightarrow> Inl err
              | Inr p \<Rightarrow>
                  (let peer = setActive t_active (tokens ! 3 = ''1'')
                                (new_Peer t_new (tokens ! 0) (tokens ! 1) p)
                   in case stoul ''stoul'' (tokens ! 4) of
                        Inl err \<Rightarrow> Inl err
                      | Inr file_count \<Rightarrow> read_files (unat file_count) (drop 5 tokens) peer))"

section \<open>Lookups\<close>

lemma find_file_Some: "find_file name fs = Some f \<Longrightarrow> f \<in> set fs \<and> filename f = name"
  by (induction fs) (auto simp: find_file_def split: if_splits)

lemma find_file_None: "find_file name fs = None \<longleftrightarrow> name \<notin> filename ` set fs"
  by (induction fs) (auto simp: find_file_def)

lemma find_file_put_file [store_simps]:
  "find_file name (put_file fs f) = (if name = filename f then Some f else find_file name fs)"
  by (induction fs) (auto simp: find_file_def)

lemma find_file_filter [store_simps]:
  "find_file name (filter (\<lambda>f. filename f \<noteq> other) fs) =
   (if name = other then None else find_file name fs)"
  by (induction fs) (auto simp: find_file_def)

lemma set_put_file: "filename ` set (put_file fs f) = insert (filename f) (filename ` set fs)"
  by (induction fs) auto

lemma distinct_put_file:
  "distinct (map filename fs) \<Longrightarrow> distinct (map filename (put_file fs f))"
  by (induction fs) (auto simp: set_put_file simp del: image_insert)

lemma put_file_new: "filename f \<notin> filename ` set fs \<Longrightarrow> put_file fs f = fs @ [f]"
  by (induction fs) auto

lemma foldl_put_file_distinct:
  "distinct (map filename (fs @ gs)) \<Longrightarrow> foldl put_file fs gs = fs @ gs"
proof (induction gs arbitrary: fs)
  case (Cons g gs)
  then have "put_file fs g = fs @ [g]"
    by (intro put_file_new) auto
  with Cons show ?case by simp
qed simp

locale file_lookup =
  fixes files :: "'t \<Rightarrow> FileInfo list"
    and has :: "'t \<Rightarrow> string \<Rightarrow> bool"
    and get :: "'t \<Rightarrow> string \<Rightarrow> exn + FileInfo"
  assumes has_def: "has t name \<longleftrightarrow> find_file name (files t) \<noteq> None"
    and get_def: "get t name =
      (case find_file name (files t) of
         Some f \<Rightarrow> Inr f
       | None \<Rightarrow> Inl (Runtime_error (''File not found: '' @ name)))"
begin

lemma has_iff: "has t name \<longleftrightarrow> (\<exists>f \<in> set (files t). filename f = name)"
  using find_file_None [of name "files t"] by (auto simp: has_def)

lemma get_sound: "get t name = Inr f \<Longrightarrow> f \<in> set (files t) \<and> filename f = name"
  by (auto simp: get_def dest: find_file_Some split: option.splits)

lemma get_total:
  "if has t name then \<exists>f. get t name = Inr f
   else get t name = Inl (Runtime_error (''File not found: '' @ name))"
  by (auto simp: has_def get_def)

text \<open>With distinct names, the record of a shared file is the one that is found.\<close>

lemma get_unique:
  assumes "distinct (map filename (files t))" and "f \<in> set (files t)"
  shows "get t (filename f) = Inr f"
proof -
  obtain g where g: "find_file (filename f) (files t) = Some g"
    using assms(2) find_file_None [of "filename f" "files t"] by auto
  then have "g \<in> set (files t)" and "filename g = filename f"
    by (auto dest: find_file_Some)
  with assms have "g = f"
    by (auto simp: distinct_map dest: inj_onD)
  with g show ?thesis by (simp add: get_def)
qed

end

locale file_table = file_lookup +
  fixes add :: "'t \<Rightarrow> FileInfo \<Rightarrow> 't"
    and remove :: "'t \<Rightarrow> string \<Rightarrow> 't"
  assumes files_add: "files (add t f) = put_file (files t) f"
    and files_remove: "files (remove t name) = filter (\<lambda>f. filename f \<noteq> name) (files t)"
begin

lemma find_add:
  "find_file name (files (add t f)) =
   (if name = filename f then Some f else find_file name (files t))"
  by (simp add: files_add store_simps)

lemma find_remove:
  "find_file name (files (remove t other)) =
   (if name = other then None else find_file name (files t))"
  by (simp add: files_remove store_simps)

lemma distinct_add: "distinct (map filename (files t)) \<Longrightarrow> distinct (map filename (files (add t f)))"
  by (simp add: files_add distinct_put_file)

lemma distinct_remove:
  "distinct (map filename (files t)) \<Longrightarrow> distinct (map filename (files (remove t name)))"
  by (simp add: files_remove distinct_map_filter)

lemma files_foldl_add: "files (foldl add t fs) = foldl put_file (files t) fs"
  by (induction fs arbitrary: t) (simp_all add: files_add)

lemma files_foldl_remove:
  "files (foldl remove t names) = filter (\<lambda>f. filename f \<notin> set names) (files t)"
  by (induction names arbitrary: t) (auto simp: files_remove intro: filter_cong)

text \<open>Removing every name in the table and then adding a list replaces the table.\<close>

lemma files_replace:
  "files (foldl add (foldl remove t (map filename (files t))) fs) = foldl put_file [] fs"
  by (simp add: files_foldl_add files_foldl_remove)

end

interpretation peer_files: file_table shared_files hasFile getFileInfo addFile removeFile
  by unfold_locales (auto simp: hasFile_def getFileInfo_def addFile_def removeFile_def)

section \<open>Well-formed peers\<close>

text \<open>
  What the class keeps true: file names are distinct (every insertion goes through
  \<open>addFile\<close>) and the port is an \<open>int\<close>.
\<close>

definition peer_wf :: "Peer \<Rightarrow> bool" where
  "peer_wf p \<longleftrightarrow> distinct (map filename (shared_files p)) \<and>
     - (2 ^ 31) \<le> peer_port p \<and> peer_port p < 2 ^ 31"

lemma peer_fields [simp]:
  "shared_files (updateLastSeen now p) = shared_files p"
  "peer_port (updateLastSeen now p) = peer_port p"
  "peer_id (updateLastSeen now p) = peer_id p"
  "is_active (updateLastSeen now p) = is_active p"
  "shared_files (setActive now a p) = shared_files p"
  "peer_port (setActive now a p) = peer_port p"
  "peer_id (setActive now a p) = peer_id p"
  "is_active (setActive now a p) = a"
  "peer_port (addFile p f) = peer_port p" "peer_id (addFile p f) = peer_id p"
  "is_active (addFile p f) = is_active p" "last_seen (addFile p f) = last_seen p"
  "peer_port (removeFile p name) = peer_port p" "peer_id (removeFile p name) = peer_id p"
  "is_active (removeFile p name) = is_active p" "last_seen (removeFile p name) = last_seen p"
  by (simp_all add: updateLastSeen_def setActive_def addFile_def removeFile_def Let_def)

lemma peer_wf_ops [simp]:
  assumes "peer_wf p"
  shows "peer_wf (addFile p f)" "peer_wf (removeFile p name)"
    "peer_wf (setActive now a p)" "peer_wf (updateLastSeen now p)"
  using assms peer_files.distinct_add [of p f] peer_files.distinct_remove [of p name]
  by (simp_all add: peer_wf_def)

lemma peer_wf_new: "- (2 ^ 31) \<le> i \<Longrightarrow> i < 2 ^ 31 \<Longrightarrow> peer_wf (new_Peer now n ip i)"
  by (simp add: peer_wf_def new_Peer_def)

lemma stoi_range: "stoi s = Inr i \<Longrightarrow> - (2 ^ 31) \<le> i \<and> i < 2 ^ 31"
  by (auto simp: stoi_def Let_def split: option.splits if_splits)

lemma read_files_wf: "peer_wf p \<Longrightarrow> read_files n ts p = Inr p' \<Longrightarrow> peer_wf p'"
  by (induction n ts p rule: read_files.induct) (auto split: sum.splits)

lemma deserialize_wf: "deserialize t_new t_active data = Inr p \<Longrightarrow> peer_wf p"
  by (auto simp: deserialize_def Let_def peer_wf_new dest!: stoi_range
      split: if_splits sum.splits intro: read_files_wf [rotated])

section \<open>Reading back a serialized peer\<close>

definition peer_tokens :: "Peer \<Rightarrow> string list" where
  "peer_tokens p =
     [peer_id p, ip_address p, show_int (peer_port p), (if is_active p then ''1'' else ''0''),
      show_nat (length (shared_files p))]"

definition file_tokens :: "FileInfo \<Rightarrow> string list" where
  "file_tokens f = [filename f, show_nat (unat (file_size f)), file_hash f]"

text \<open>What the text form keeps of a file.\<close>

definition wire_file :: "FileInfo \<Rightarrow> FileInfo" where
  "wire_file f = f\<lparr>filepath := [], last_modified := 0\<rparr>"

lemma wire_file_eq: "mkFileInfo (filename f) [] (file_size f) (file_hash f) 0 = wire_file f"
  by (simp add: mkFileInfo_def wire_file_def)

lemma filename_wire_file [simp]: "filename (wire_file f) = filename f"
  by (simp add: wire_file_def)

lemma serialize_file_wire: "serialize_file (wire_file f) = serialize_file f"
  by (simp add: serialize_file_def wire_file_def)

lemma join_with_append:
  "xs \<noteq> [] \<Longrightarrow> join_with d (xs @ ys) = join_with d xs @ concat (map (\<lambda>t. d # t) ys)"
proof (induction xs)
  case (Cons x xs)
  show ?case
  proof (cases "xs = []")
    case True
    then show ?thesis
      by (induction ys arbitrary: x) (simp_all add: join_with_Cons)
  next
    case False
    with Cons show ?thesis by (simp add: join_with_Cons)
  qed
qed simp

lemma serialize_eq_join:
  "serialize p = join_with CHR ''|'' (peer_tokens p @ concat (map file_tokens (shared_files p)))"
proof -
  have files: "concat (map (\<lambda>t. CHR ''|'' # t) (concat (map file_tokens fs))) =
      concat (map serialize_file fs)" for fs
    by (induction fs) (simp_all add: serialize_file_def file_tokens_def)
  have "join_with CHR ''|'' (peer_tokens p @ concat (map file_tokens (shared_files p))) =
      join_with CHR ''|'' (peer_tokens p) @ concat (map serialize_file (shared_files p))"
    by (simp only: files [symmetric]) (rule join_with_append, simp add: peer_tokens_def)
  then show ?thesis
    by (simp add: serialize_def) (simp add: peer_tokens_def)
qed

text \<open>The peers whose fields the text form can carry.\<close>

definition no_bar :: "string \<Rightarrow> bool" where
  "no_bar s \<longleftrightarrow> CHR ''|'' \<notin> set s"

definition peer_printable :: "Peer \<Rightarrow> bool" where
  "peer_printable p \<longleftrightarrow> no_bar (peer_id p) \<and> no_bar (ip_address p) \<and>
     (\<forall>f \<in> set (shared_files p). no_bar (filename f) \<and> no_bar (file_hash f))"

lemma peer_tokens_no_bar:
  "peer_printable p \<Longrightarrow>
   \<forall>t \<in> set (peer_tokens p @ concat (map file_tokens (shared_files p))). CHR ''|'' \<notin> set t"
  by (auto simp: peer_printable_def no_bar_def peer_tokens_def file_tokens_def
      show_nat_no_delim show_int_no_delim)

text \<open>Up to two left-over tokens do not make another file.\<close>

lemma read_files_short: "length rest < 3 \<Longrightarrow> read_files n rest p = Inr p"
  by (induction n rest p rule: read_files.induct) auto

lemma read_files_tokens:
  "length rest < 3 \<Longrightarrow>
   read_files (length fs + k) (concat (map file_tokens fs) @ rest) p =
   Inr (foldl addFile p (map wire_file fs))"
proof (induction fs arbitrary: p)
  case Nil
  then show ?case by (simp add: read_files_short)
next
  case (Cons f fs)
  then show ?case
    by (simp add: file_tokens_def stoul_show_nat wire_file_eq)
qed

lemma addFile_foldl:
  "foldl addFile p fs = p\<lparr>shared_files := foldl put_file (shared_files p) fs\<rparr>"
  by (induction fs arbitrary: p) (simp_all add: addFile_def)

text \<open>
  Reading back: identity, address, port, the active flag and the files with name, size and
  hash return; paths and modification times do not travel, and the clock is read again.
\<close>

definition received_peer :: "int \<Rightarrow> int \<Rightarrow> Peer \<Rightarrow> FileInfo list \<Rightarrow> Peer" where
  "received_peer t_new t_active p fs =
     p\<lparr>shared_files := map wire_file fs, last_seen := (if is_active p then t_active else t_new)\<rparr>"

lemma deserialize_tokens:
  assumes "peer_wf p" and "length (shared_files p) < 2 ^ 64"
    and tokens: "getlines CHR ''|'' data = peer_tokens p @ concat (map file_tokens fs) @ rest"
    and rest: "length rest < 3"
    and "length fs \<le> length (shared_files p)" and "distinct (map filename fs)"
  shows "deserialize t_new t_active data = Inr (received_peer t_new t_active p fs)"
proof -
  define n where "n = length (shared_files p)"
  define base where "base = setActive t_active (is_active p)
      (new_Peer t_new (peer_id p) (ip_address p) (peer_port p))"
  have port: "stoi (show_int (peer_port p)) = Inr (peer_port p)"
    using assms(1) by (simp add: peer_wf_def stoi_show_int)
  have count: "stoul ''stoul'' (show_nat n) = Inr (word_of_nat n)" and "unat (word_of_nat n :: u64) = n"
    using assms(2) stoul_show_nat [of "''stoul''" "word_of_nat n"]
    by (simp_all add: n_def unat_of_nat take_bit_nat_eq_self)
  moreover have "read_files n (concat (map file_tokens fs) @ rest) base =
      Inr (foldl addFile base (map wire_file fs))"
    using read_files_tokens [OF rest, of fs "n - length fs" base] assms by (simp add: n_def)
  moreover have "foldl addFile base (map wire_file fs) = received_peer t_new t_active p fs"
    using foldl_put_file_distinct [of "[]" "map wire_file fs"] assms(6)
    by (simp add: addFile_foldl comp_def base_def received_peer_def setActive_def updateLastSeen_def
        new_Peer_def Let_def)
  ultimately show ?thesis
    by (auto simp: deserialize_def tokens peer_tokens_def port n_def [symmetric] base_def Let_def)
qed

lemma deserialize_serialize:
  assumes "peer_wf p" and "peer_printable p" and "length (shared_files p) < 2 ^ 64"
    and "shared_files p = [] \<or> file_hash (last (shared_files p)) \<noteq> []"
  shows "deserialize t_new t_active (serialize p) =
    Inr (received_peer t_new t_active p (shared_files p))"
proof (rule deserialize_tokens [where rest = "[]"])
  let ?ts = "peer_tokens p @ concat (map file_tokens (shared_files p))"
  have "last ?ts \<noteq> []"
    using assms(4) by (cases "shared_files p" rule: rev_cases)
      (auto simp: peer_tokens_def file_tokens_def)
  then have "getlines CHR ''|'' (serialize p) = ?ts"
    unfolding serialize_eq_join using peer_tokens_no_bar [OF assms(2)]
    by (intro getlines_join_with) (auto simp: peer_tokens_def)
  then show "getlines CHR ''|'' (serialize p) =
      peer_tokens p @ concat (map file_tokens (shared_files p)) @ []"
    by simp
qed (use assms in \<open>auto simp: peer_wf_def\<close>)

text \<open>
  When the hash of the last file is empty, the text ends in a delimiter, the stream yields
  no token after it, and the reader drops that file.
\<close>

lemma deserialize_drops_last:
  assumes "peer_wf p" and "peer_printable p" and "length (shared_files p) < 2 ^ 64"
    and "shared_files p = fs @ [f]" and "file_hash f = []"
  shows "deserialize t_new t_active (serialize p) = Inr (received_peer t_new t_active p fs)"
proof -
  let ?rest = "[filename f, show_nat (unat (file_size f))]"
  let ?full = "peer_tokens p @ concat (map file_tokens fs) @ ?rest"
  have ts: "peer_tokens p @ concat (map file_tokens (shared_files p)) = ?full @ [[]]"
    using assms(4,5) by (simp add: file_tokens_def)
  have "getlines CHR ''|'' (serialize p) = ?full"
    using peer_tokens_no_bar [OF assms(2)] unfolding serialize_eq_join ts
    by (intro getlines_join_with_empty_last) (auto simp: peer_tokens_def)
  then show ?thesis
    using assms by (intro deserialize_tokens [where rest = ?rest]) (auto simp: peer_wf_def)
qed

section \<open>The file table as a finite map\<close>

text \<open>The operations of a peer object, as one sequence of calls, and what they mean for an
  abstract map from names to records.\<close>

datatype peer_op =
    Add FileInfo
  | Remove string
  | Set_active int bool
  | Touch int

fun peer_apply :: "Peer \<Rightarrow> peer_op \<Rightarrow> Peer" where
  "peer_apply p (Add f) = addFile p f"
| "peer_apply p (Remove name) = removeFile p name"
| "peer_apply p (Set_active now a) = setActive now a p"
| "peer_apply p (Touch now) = updateLastSeen now p"

fun map_apply :: "(string \<rightharpoonup> FileInfo) \<Rightarrow> peer_op \<Rightarrow> (string \<rightharpoonup> FileInfo)" where
  "map_apply m (Add f) = m(filename f \<mapsto> f)"
| "map_apply m (Remove name) = m(name := None)"
| "map_apply m (Set_active now a) = m"
| "map_apply m (Touch now) = m"

definition peer_map :: "Peer \<Rightarrow> string \<rightharpoonup> FileInfo" where
  "peer_map p = (\<lambda>name. find_file name (shared_files p))"

lemma peer_map_apply: "peer_map (peer_apply p op) = map_apply (peer_map p) op"
  by (cases op) (auto simp: peer_map_def peer_files.find_add peer_files.find_remove)

lemma peer_wf_apply: "peer_wf p \<Longrightarrow> peer_wf (peer_apply p op)"
  by (cases op) simp_all

lemma peer_runs:
  "peer_wf p \<Longrightarrow>
   peer_wf (foldl peer_apply p ops) \<and>
   peer_map (foldl peer_apply p ops) = foldl map_apply (peer_map p) ops"
  by (induction ops arbitrary: p) (simp_all add: peer_map_apply peer_wf_apply)

lemma peer_map_new [simp]: "peer_map (new_Peer now i ip n) = Map.empty"
  by (simp add: peer_map_def new_Peer_def updateLastSeen_def find_file_def fun_eq_iff)

lemma getFileInfo_map:
  "getFileInfo p name =
   (case peer_map p name of
      Some f \<Rightarrow> Inr f | None \<Rightarrow> Inl (Runtime_error (''File not found: '' @ name)))"
  by (simp add: getFileInfo_def peer_map_def)

lemma hasFile_map: "hasFile p name \<longleftrightarrow> name \<in> dom (peer_map p)"
  by (auto simp: hasFile_def peer_map_def)

section \<open>Text that comes from the network\<close>

lemma length_put_file: "length (put_file fs f) \<le> Suc (length fs)"
  by (induction fs) auto

lemma read_files_length:
  "read_files n ts p = Inr p' \<Longrightarrow>
   3 * length (shared_files p') \<le> 3 * length (shared_files p) + length ts"
proof (induction n ts p rule: read_files.induct)
  case (1 n name sz h rest p)
  then obtain w where w: "stoul ''stoul'' sz = Inr w"
    by (auto split: sum.splits)
  let ?f = "mkFileInfo name [] w h 0"
  have "3 * length (shared_files p') \<le> 3 * length (put_file (shared_files p) ?f) + length rest"
    using 1 w by (simp add: addFile_def)
  with length_put_file [of "shared_files p" ?f] show ?case
    by simp
qed auto

definition conversion_error :: "exn \<Rightarrow> bool" where
  "conversion_error e \<longleftrightarrow>
     (\<exists>name \<in> {''stoi'', ''stoul''}. e = Invalid_argument name \<or> e = Out_of_range name)"

lemma stoi_error: "stoi s = Inl e \<Longrightarrow> conversion_error e"
  by (auto simp: stoi_def conversion_error_def Let_def split: option.splits if_splits)

lemma stoul_error: "stoul ''stoul'' s = Inl e \<Longrightarrow> conversion_error e"
  by (auto simp: stoul_def conversion_error_def split: option.splits if_splits)

lemma read_files_error: "read_files n ts p = Inl e \<Longrightarrow> conversion_error e"
  by (induction n ts p rule: read_files.induct) (auto split: sum.splits dest: stoul_error)

section \<open>Properties\<close>

text \<open>
  C32. Whatever sequence of calls a peer object has seen since its construction, its file names
  are distinct, and \<open>hasFile\<close> and \<open>getFileInfo\<close> answer as a finite map in which \<open>addFile\<close>
  inserts or overwrites and \<open>removeFile\<close> deletes: the vector searched front to back is
  an implementation of that map.
\<close>

theorem peer_implements_map:
  assumes "- (2 ^ 31) \<le> n" and "n < 2 ^ 31"
    and "p = foldl peer_apply (new_Peer now i ip n) ops"
    and "m = foldl map_apply Map.empty ops"
  shows "peer_wf p \<and>
    hasFile p name = (name \<in> dom m) \<and>
    getFileInfo p name =
      (case m name of
         Some f \<Rightarrow> Inr f | None \<Rightarrow> Inl (Runtime_error (''File not found: '' @ name)))"
  using peer_runs [OF peer_wf_new [OF assms(1,2), of now i ip], of ops] assms(3,4)
  by (simp add: getFileInfo_map hasFile_map)

definition file_a :: FileInfo where
  "file_a = mkFileInfo ''a.txt'' ''/s/a.txt'' 5 ''ab12'' 77"

definition file_b :: FileInfo where
  "file_b = mkFileInfo ''b.txt'' ''/s/b.txt'' 9 ''cd34'' 78"

lemma example_files [simp]:
  "filename file_a = ''a.txt''" "filename file_b = ''b.txt''"
  "file_hash file_a = ''ab12''" "file_hash file_b = ''cd34''"
  by (simp_all add: file_a_def file_b_def mkFileInfo_def)

theorem peer_implements_map_witness:
  "getFileInfo (foldl peer_apply (new_Peer 0 ''p1'' ''10.0.0.1'' 8888)
     [Add file_a, Add file_b, Remove ''a.txt'']) ''b.txt'' = Inr file_b"
  using peer_implements_map
      [OF _ _ refl refl, of 8888 0 "''p1''" "''10.0.0.1''"
        "[Add file_a, Add file_b, Remove ''a.txt'']" "''b.txt''"]
  by simp

text \<open>
  C33. A peer survives the trip through its text form: identity, address, port, active flag and
  the name, size and hash of every file come back, paths and modification times do not
  travel, the time of last contact is the reader's clock, and writing the result again
  gives the same text. The fields must be free of the delimiter, and the last file must
  have a hash.
\<close>

theorem peer_text_roundtrip:
  assumes "peer_wf p" and "peer_printable p" and "length (shared_files p) < 2 ^ 64"
    and "shared_files p = [] \<or> file_hash (last (shared_files p)) \<noteq> []"
  shows "deserialize t_new t_active (serialize p) =
      Inr (received_peer t_new t_active p (shared_files p)) \<and>
    serialize (received_peer t_new t_active p (shared_files p)) = serialize p"
proof
  show "serialize (received_peer t_new t_active p (shared_files p)) = serialize p"
    by (simp add: serialize_def received_peer_def comp_def serialize_file_wire)
qed (rule deserialize_serialize [OF assms])

definition example_peer :: Peer where
  "example_peer =
     \<lparr>peer_id = ''p1'', ip_address = ''10.0.0.1'', peer_port = 8888,
      shared_files = [file_a, file_b], is_active = True, last_seen = 100\<rparr>"

theorem peer_text_roundtrip_witness:
  "deserialize 7 8 (serialize example_peer) =
   Inr (example_peer\<lparr>shared_files := [wire_file file_a, wire_file file_b], last_seen := 8\<rparr>)"
  using peer_text_roundtrip [of example_peer 7 8]
  by (simp add: example_peer_def peer_wf_def peer_printable_def no_bar_def received_peer_def)

text \<open>
  A peer whose last file has an empty hash comes back without that file, and without an
  error: \<open>std::getline\<close> delivers no token after the final delimiter, and the reading loop
  needs three tokens for a file.
\<close>

theorem peer_last_file_dropped:
  assumes "peer_wf p" and "peer_printable p" and "length (shared_files p) < 2 ^ 64"
    and "shared_files p = fs @ [f]" and "file_hash f = []"
  shows "\<exists>q. deserialize t_new t_active (serialize p) = Inr q \<and>
    map filename (shared_files q) = map filename fs \<and> \<not> hasFile q (filename f)"
proof -
  let ?q = "received_peer t_new t_active p fs"
  have "deserialize t_new t_active (serialize p) = Inr ?q"
    using assms by (rule deserialize_drops_last)
  moreover have "shared_files ?q = map wire_file fs"
    by (simp add: received_peer_def)
  moreover from this have "\<not> hasFile ?q (filename f)"
    using assms(1,4)
    by (simp add: hasFile_def find_file_None peer_wf_def image_image)
  ultimately show ?thesis by (auto simp: comp_def)
qed

theorem peer_last_file_dropped_witness:
  "\<exists>q. deserialize 7 8
      (serialize (example_peer\<lparr>shared_files := [file_a, file_b\<lparr>file_hash := []\<rparr>]\<rparr>)) = Inr q \<and>
    map filename (shared_files q) = [''a.txt''] \<and> \<not> hasFile q ''b.txt''"
  using peer_last_file_dropped
      [of "example_peer\<lparr>shared_files := [file_a, file_b\<lparr>file_hash := []\<rparr>]\<rparr>" "[file_a]"
        "file_b\<lparr>file_hash := []\<rparr>" 7 8]
  by (simp add: example_peer_def peer_wf_def peer_printable_def no_bar_def)

text \<open>
  C34. Any text, however malformed, gives either a well-formed peer whose number of files is
  bounded by the tokens that are really there (not by the count the text claims), or one of
  the exceptions: too few fields, or a number that \<open>stoi\<close> / \<open>stoul\<close> refuse.
\<close>

theorem deserialize_any_text:
  "case deserialize t_new t_active data of
     Inr p \<Rightarrow> peer_wf p \<and> 3 * length (shared_files p) + 5 \<le> length (getlines CHR ''|'' data)
   | Inl e \<Rightarrow>
       if length (getlines CHR ''|'' data) < 5
       then e = Runtime_error ''Invalid peer serialization data'' else conversion_error e"
proof (cases "deserialize t_new t_active data")
  case (Inl e)
  then show ?thesis
    by (auto simp: deserialize_def Let_def dest: stoi_error stoul_error read_files_error
        split: if_splits sum.splits)
next
  case (Inr p)
  then obtain n q where "read_files n (drop 5 (getlines CHR ''|'' data)) q = Inr p"
      and "shared_files q = []" and "\<not> length (getlines CHR ''|'' data) < 5"
    by (auto simp: deserialize_def Let_def new_Peer_def split: if_splits sum.splits)
  then have "3 * length (shared_files p) + 5 \<le> length (getlines CHR ''|'' data)"
    using read_files_length [of n "drop 5 (getlines CHR ''|'' data)" q p] by simp
  with Inr show ?thesis
    using deserialize_wf [OF Inr] by simp
qed

end
