(* ===== verification/Protocol.thy ===== *)
theory Protocol
  imports Wire CRC32 Peer
begin

text \<open>
  \<open>include/Protocol.h\<close> and \<open>src/Protocol.cpp\<close>: the packed message header, the creation and
  the check of a message, the creators of the message bodies and their parsers.

  The parameter \<open>e\<close> is the byte order of the host: the header is copied in host order, the
  integers of the bodies go through \<open>htonl\<close> and \<open>ntohl\<close>. Parsers take the old values of
  their out-parameters and return the flag with the new ones, so that what a failed parse
  leaves behind is visible.
\<close>

section \<open>The header\<close>

record MessageHeader =
  magic :: u32
  version :: u32
  message_type :: MessageType
  payload_size :: u32
  checksum :: u32

definition MAGIC_NUMBER :: u32 where
  "MAGIC_NUMBER = 0x50325032"

definition PROTOCOL_VERSION :: u32 where
  "PROTOCOL_VERSION = 1"

definition new_MessageHeader :: MessageHeader where
  "new_MessageHeader =
     \<lparr>magic = MAGIC_NUMBER, version = PROTOCOL_VERSION, message_type = PING, payload_size = 0,
      checksum = 0\<rparr>"

definition isValid :: "MessageHeader \<Rightarrow> bool" where
  "isValid h \<longleftrightarrow> magic h = MAGIC_NUMBER \<and> version h = PROTOCOL_VERSION"

text \<open>\<open>__attribute__((packed))\<close>: the fields follow each other without padding, 17 bytes.\<close>

definition header_size :: nat where
  "header_size = 17"

definition store_header :: "endian \<Rightarrow> MessageHeader \<Rightarrow> byte list" where
  "store_header e h =
     mem32 e (magic h) @ mem32 e (version h) @ [type_byte (message_type h)]
       @ mem32 e (payload_size h) @ mem32 e (checksum h)"

definition load_header :: "endian \<Rightarrow> byte list \<Rightarrow> MessageHeader" where
  "load_header e raw =
     \<lparr>magic = load32 e (take 4 raw),
      version = load32 e (take 4 (drop 4 raw)),
      message_type = byte_type (raw ! 8),
      payload_size = load32 e (take 4 (drop 9 raw)),
      checksum = load32 e (take 4 (drop 13 raw))\<rparr>"

section \<open>Messages\<close>

definition createMessage :: "endian \<Rightarrow> MessageType \<Rightarrow> byte list \<Rightarrow> byte list" where
  "createMessage e t payload =
     (let header = new_MessageHeader
            \<lparr>message_type := t, payload_size := ucast (vsize payload),
             checksum := calculateCRC32 payload\<rparr>
      in store_header e header @ payload)"

definition parseMessage ::
    "endian \<Rightarrow> byte list \<Rightarrow> MessageType \<Rightarrow> byte list
     \<Rightarrow> (bool \<times> MessageType \<times> byte list) outcome" where
  "parseMessage e data t payload =
     (if vsize data < word_of_nat header_size then Ret (False, t, payload)
      else case vread data 0 header_size of
        None \<Rightarrow> UB
      | Some raw \<Rightarrow>
          (let header = load_header e raw
           in if \<not> isValid header then Ret (False, t, payload)
              else if vsize data \<noteq> word_of_nat header_size + ucast (payload_size header)
                then Ret (False, t, payload)
              else if payload_size header > 0 then
                (case vread data (word_of_nat header_size) (unat (payload_size header)) of
                   None \<Rightarrow> UB
                 | Some body \<Rightarrow>
                     (if calculateCRC32 body \<noteq> checksum header then Ret (False, t, body)
                      else Ret (True, message_type header, body)))
              else Ret (True, message_type header, [])))"

section \<open>Creators\<close>

definition createPeerListRequest :: "endian \<Rightarrow> byte list" where
  "createPeerListRequest e = createMessage e PEER_LIST_REQUEST []"

definition createPeerListResponse :: "endian \<Rightarrow> string list \<Rightarrow> byte list" where
  "createPeerListResponse e peer_data =
     (let payload = serializeUint32 e [] (ucast (vsize peer_data));
          payload = foldl (serializeString e) payload peer_data
      in createMessage e PEER_LIST_RESPONSE payload)"

definition createFileListRequest :: "endian \<Rightarrow> string \<Rightarrow> byte list" where
  "createFileListRequest e pid = createMessage e FILE_LIST_REQUEST (serializeString e [] pid)"

text \<open>The body of the loop over the files: a \<open>size_t\<close> and a \<open>time_t\<close> are cut to 32 bits.\<close>

definition serializeFile :: "endian \<Rightarrow> byte list \<Rightarrow> FileInfo \<Rightarrow> byte list" where
  "serializeFile e payload f =
     (let payload = serializeString e payload (filename f);
          payload = serializeUint32 e payload (ucast (file_size f));
          payload = serializeString e payload (file_hash f)
      in serializeUint32 e payload (ucast (last_modified f)))"

definition createFileListResponse :: "endian \<Rightarrow> FileInfo list \<Rightarrow> byte list" where
  "createFileListResponse e files =
     (let payload = serializeUint32 e [] (ucast (vsize files));
          payload = foldl (serializeFile e) payload files
      in createMessage e FILE_LIST_RESPONSE payload)"

definition createFileRequest :: "endian \<Rightarrow> string \<Rightarrow> u64 \<Rightarrow> u64 \<Rightarrow> byte list" where
  "createFileRequest e name offset len =
     (let payload = serializeString e [] name;
          payload = serializeUint32 e payload (ucast offset);
          payload = serializeUint32 e payload (ucast len)
      in createMessage e FILE_REQUEST payload)"

definition createFileChunk :: "endian \<Rightarrow> byte list \<Rightarrow> u64 \<Rightarrow> byte list" where
  "createFileChunk e chunk offset =
     (let payload = serializeUint32 e [] (ucast offset);
          payload = serializeUint32 e payload (ucast (vsize chunk));
          payload = payload @ chunk
      in createMessage e FILE_CHUNK payload)"

definition createErrorMessage :: "endian \<Rightarrow> ErrorCode \<Rightarrow> string \<Rightarrow> byte list" where
  "createErrorMessage e code message =
     createMessage e ERROR_MESSAGE (serializeString e [code_byte code] message)"

section \<open>Parsers\<close>

definition parsePeerListResponse ::
    "endian \<Rightarrow> byte list \<Rightarrow> (bool \<times> string list) outcome" where
  "parsePeerListResponse e payload =
     (case deserializeUint32 e payload 0 0 of
        UB \<Rightarrow> UB
      | Ret (ok, offset, peer_count) \<Rightarrow>
          (if \<not> ok then Ret (False, [])
           else parse_loop (\<lambda>buffer offset. deserializeString e buffer offset [])
                  (unat peer_count) payload offset []))"

definition deserializeFile ::
    "endian \<Rightarrow> byte list \<Rightarrow> u64 \<Rightarrow> (bool \<times> u64 \<times> FileInfo) outcome" where
  "deserializeFile e payload offset =
     (let failed = (\<lambda>offset. Ret (False, offset, mkFileInfo [] [] 0 [] 0))
      in case deserializeString e payload offset [] of UB \<Rightarrow> UB
      | Ret (ok1, offset1, name) \<Rightarrow> if \<not> ok1 then failed offset1 else
         (case deserializeUint32 e payload offset1 0 of UB \<Rightarrow> UB
      | Ret (ok2, offset2, sz) \<Rightarrow> if \<not> ok2 then failed offset2 else
         (case deserializeString e payload offset2 [] of UB \<Rightarrow> UB
      | Ret (ok3, offset3, h) \<Rightarrow> if \<not> ok3 then failed offset3 else
         (case deserializeUint32 e payload offset3 0 of UB \<Rightarrow> UB
      | Ret (ok4, offset4, modified) \<Rightarrow> if \<not> ok4 then failed offset4 else
           Ret (True, offset4, mkFileInfo name [] (ucast sz) h (ucast modified))))))"

definition parseFileListResponse ::
    "endian \<Rightarrow> byte list \<Rightarrow> (bool \<times> FileInfo list) outcome" where
  "parseFileListResponse e payload =
     (case deserializeUint32 e payload 0 0 of
        UB \<Rightarrow> UB
      | Ret (ok, offset, file_count) \<Rightarrow>
          (if \<not> ok then Ret (False, [])
           else parse_loop (deserializeFile e) (unat file_count) payload offset []))"

definition parseFileRequest ::
    "endian \<Rightarrow> byte list \<Rightarrow> string \<Rightarrow> u64 \<Rightarrow> u64 \<Rightarrow> (bool \<times> string \<times> u64 \<times> u64) outcome" where
  "parseFileRequest e payload name offset len =
     (case deserializeString e payload 0 name of UB \<Rightarrow> UB
      | Ret (ok1, pos1, name1) \<Rightarrow> if \<not> ok1 then Ret (False, name1, offset, len) else
         (case deserializeUint32 e payload pos1 0 of UB \<Rightarrow> UB
      | Ret (ok2, pos2, offset32) \<Rightarrow> if \<not> ok2 then Ret (False, name1, offset, len) else
         (case deserializeUint32 e payload pos2 0 of UB \<Rightarrow> UB
      | Ret (ok3, pos3, length32) \<Rightarrow> if \<not> ok3 then Ret (False, name1, offset, len) else
           Ret (True, name1, ucast offset32, ucast length32))))"

definition parseFileChunk ::
    "endian \<Rightarrow> byte list \<Rightarrow> byte list \<Rightarrow> u64 \<Rightarrow> (bool \<times> byte list \<times> u64) outcome" where
  "parseFileChunk e payload chunk offset =
     (case deserializeUint32 e payload 0 0 of UB \<Rightarrow> UB
      | Ret (ok1, pos1, offset32) \<Rightarrow> if \<not> ok1 then Ret (False, chunk, offset) else
         (case deserializeUint32 e payload pos1 0 of UB \<Rightarrow> UB
      | Ret (ok2, pos2, chunk_size) \<Rightarrow> if \<not> ok2 then Ret (False, chunk, offset) else
           (if pos2 + ucast chunk_size > vsize payload then Ret (False, chunk, offset)
            else case vread payload pos2 (unat chunk_size) of
              None \<Rightarrow> UB
            | Some data \<Rightarrow> Ret (True, data, ucast offset32))))"

section \<open>Storing and loading the header\<close>

lemma length_store_header [simp]: "length (store_header e h) = 17"
  by (simp add: store_header_def)

lemma load_store_header:
  "load_header e (store_header e h) =
   h\<lparr>message_type := byte_type (type_byte (message_type h))\<rparr>"
  by (simp add: load_header_def store_header_def nth_append)

lemma length_17E:
  assumes "length raw = 17"
  obtains a b c d f where "raw = a @ b @ [c] @ d @ f"
    and "length a = 4" and "length b = 4" and "length d = 4" and "length f = 4"
proof
  show "raw = take 4 raw @ take 4 (drop 4 raw) @ [raw ! 8] @ take 4 (drop 9 raw) @ drop 13 raw"
    using assms by (auto simp: list_eq_iff_nth_eq nth_append less_Suc_eq eval_nat_numeral)
qed (use assms in simp_all)

lemma store_load_header: "length raw = 17 \<Longrightarrow> store_header e (load_header e raw) = raw"
  by (erule length_17E) (simp add: load_header_def store_header_def mem32_load32 nth_append)

lemma vsize_less: "vector_ok xs \<Longrightarrow> n < 2 ^ 63 \<Longrightarrow> vsize xs < word_of_nat n \<longleftrightarrow> length xs < n"
  by (simp add: word_less_nat_alt unat_vsize unat_of_nat take_bit_nat_eq_self)

text \<open>
  The outcome of \<open>parseMessage\<close> on a header followed by any bytes, on every branch.
\<close>

lemma parseMessage_stored:
  assumes ok: "vector_ok (store_header e h @ body)"
  shows "parseMessage e (store_header e h @ body) t payload =
     (if \<not> isValid h \<or> length body \<noteq> unat (payload_size h) then Ret (False, t, payload)
      else if body = [] then Ret (True, byte_type (type_byte (message_type h)), [])
      else if calculateCRC32 body \<noteq> checksum h then Ret (False, t, body)
      else Ret (True, byte_type (type_byte (message_type h)), body))"
proof -
  let ?data = "store_header e h @ body"
  let ?n = "payload_size h"
  have "17 + unat ?n < 2 ^ 64"
    using unat_lt2p_u32 [of ?n] by simp
  then have sum: "unat (17 + ucast ?n :: u64) = 17 + unat ?n"
    by (simp add: unat_word_ariths)
  have size: "vsize ?data = 17 + ucast ?n \<longleftrightarrow> length body = unat ?n"
    using sum unat_vsize [OF ok] by (simp add: word_unat_eq_iff)
  have raw: "vread ?data 0 17 = Some (store_header e h)"
    by (simp add: vread_def)
  have body: "vread ?data 17 (unat ?n) = Some body" if "length body = unat ?n"
    using that by (simp add: vread_def)
  have long: "\<not> vsize ?data < 17"
    using vsize_less [OF ok, of 17] by simp
  show ?thesis
    using size body long
    by (auto simp: parseMessage_def header_size_def raw load_store_header isValid_def Let_def
        unat_eq_0 simp flip: word_neq_0_conv)
qed

lemma parseMessage_short:
  "vector_ok data \<Longrightarrow> length data < 17 \<Longrightarrow> parseMessage e data t payload = Ret (False, t, payload)"
  using vsize_less [of data 17] by (simp add: parseMessage_def header_size_def)

lemma messageE:
  assumes "17 \<le> length data"
  obtains h body where "data = store_header e h @ body" and "proper_type (message_type h)"
proof
  show "data = store_header e (load_header e (take 17 data)) @ drop 17 data"
    using assms store_load_header [of "take 17 data" e] by simp
qed (simp add: load_header_def)

lemma createMessage_eq:
  "createMessage e t payload =
   store_header e \<lparr>magic = MAGIC_NUMBER, version = PROTOCOL_VERSION, message_type = t,
     payload_size = word_of_nat (length payload), checksum = calculateCRC32 payload\<rparr> @ payload"
  by (simp add: createMessage_def new_MessageHeader_def vsize_def)

lemma message_accepted:
  assumes "vector_ok (createMessage e t body)" and "length body < 2 ^ 32"
  shows "parseMessage e (createMessage e t body) t0 p0 = Ret (True, byte_type (type_byte t), body)"
  using assms
  by (auto simp: createMessage_eq parseMessage_stored isValid_def unat_of_nat take_bit_nat_eq_self)

lemma vector_ok_message: "length body < 2 ^ 32 \<Longrightarrow> vector_ok (createMessage e t body)"
  by (simp add: vector_ok_def createMessage_eq)

section \<open>The file record on the wire\<close>

definition file_wire :: "FileInfo \<Rightarrow> byte list" where
  "file_wire f =
     string_wire (filename f) @ rev (le_bytes (ucast (file_size f)))
       @ string_wire (file_hash f) @ rev (le_bytes (ucast (last_modified f)))"

text \<open>What arrives: no path, and the size and the time modulo \<open>2^32\<close>.\<close>

definition cut_file :: "FileInfo \<Rightarrow> FileInfo" where
  "cut_file f =
     mkFileInfo (filename f) [] (ucast (ucast (file_size f) :: u32)) (file_hash f)
       (ucast (ucast (last_modified f) :: u32))"

definition file_legal :: "FileInfo \<Rightarrow> bool" where
  "file_legal f \<longleftrightarrow> string_legal (filename f) \<and> string_legal (file_hash f) \<and> cut_file f = f"

lemma ucast_down_up: "ucast (ucast (w :: u32) :: u64) = w"
  by (rule bit_word_eqI) (simp add: bit_simps)

lemma cut_file_props [simp]:
  "filename (cut_file f) = filename f" "file_hash (cut_file f) = file_hash f"
  "cut_file (cut_file f) = cut_file f" "file_wire (cut_file f) = file_wire f"
  by (simp_all add: cut_file_def mkFileInfo_def file_wire_def ucast_down_up)

lemma serializeFile_wire: "serializeFile e buffer f = buffer @ file_wire f"
  by (simp add: serializeFile_def file_wire_def serializeString_wire uint32.enc_appends)

lemma deserializeFile_wire:
  assumes legal: "file_legal f" and ok: "vector_ok (pre @ file_wire f @ post)"
  shows "deserializeFile e (pre @ file_wire f @ post) (vsize pre) =
     Ret (True, vsize (pre @ file_wire f), f)"
proof -
  let ?n = "string_wire (filename f)" and ?s = "rev (le_bytes (ucast (file_size f)))"
    and ?h = "string_wire (file_hash f)" and ?m = "rev (le_bytes (ucast (last_modified f)))"
  have wire: "file_wire f = ?n @ ?s @ ?h @ ?m"
    by (simp add: file_wire_def)
  have "deserializeString e (pre @ file_wire f @ post) (vsize pre) [] =
      Ret (True, vsize (pre @ ?n), filename f)"
    using deserializeString_wire [of "filename f" pre "?s @ ?h @ ?m @ post" e "[]"] legal ok
    by (simp add: wire file_legal_def)
  moreover have "deserializeUint32 e (pre @ file_wire f @ post) (vsize (pre @ ?n)) 0 =
      Ret (True, vsize (pre @ ?n @ ?s), ucast (file_size f))"
    using uint32.dec_wire [where x = "ucast (file_size f)" and pre = "pre @ ?n"
        and post = "?h @ ?m @ post"] ok
    by (simp add: wire)
  moreover have "deserializeString e (pre @ file_wire f @ post) (vsize (pre @ ?n @ ?s)) [] =
      Ret (True, vsize (pre @ ?n @ ?s @ ?h), file_hash f)"
    using deserializeString_wire [of "file_hash f" "pre @ ?n @ ?s" "?m @ post" e "[]"] legal ok
    by (simp add: wire file_legal_def)
  moreover have "deserializeUint32 e (pre @ file_wire f @ post) (vsize (pre @ ?n @ ?s @ ?h)) 0 =
      Ret (True, vsize (pre @ file_wire f), ucast (last_modified f))"
    using uint32.dec_wire [where x = "ucast (last_modified f)" and pre = "pre @ ?n @ ?s @ ?h"
        and post = post] ok
    by (simp add: wire)
  moreover have "mkFileInfo (filename f) [] (ucast (ucast (file_size f) :: u32)) (file_hash f)
      (ucast (ucast (last_modified f) :: u32)) = f"
    using legal by (simp add: file_legal_def cut_file_def)
  ultimately show ?thesis
    by (simp add: deserializeFile_def Let_def)
qed

lemma deserializeFile_safe:
  assumes ok: "vector_ok buffer" and "unat offset \<le> length buffer"
  shows "\<exists>ok offset' f. deserializeFile e buffer offset = Ret (ok, offset', f) \<and>
     unat offset' \<le> length buffer \<and> (ok \<longrightarrow> unat offset + 16 \<le> unat offset')"
proof -
  obtain k1 o1 n where 1: "deserializeString e buffer offset [] = Ret (k1, o1, n)"
      "unat o1 \<le> length buffer" "k1 \<longrightarrow> unat offset + 4 \<le> unat o1"
    using wstring.dec_safe [OF assms] by blast
  obtain k2 o2 sz where 2: "deserializeUint32 e buffer o1 0 = Ret (k2, o2, sz)"
      "unat o2 \<le> length buffer" "k2 \<longrightarrow> unat o1 + 4 \<le> unat o2"
    using uint32.dec_safe [OF ok 1(2)] by blast
  obtain k3 o3 h where 3: "deserializeString e buffer o2 [] = Ret (k3, o3, h)"
      "unat o3 \<le> length buffer" "k3 \<longrightarrow> unat o2 + 4 \<le> unat o3"
    using wstring.dec_safe [OF ok 2(2)] by blast
  obtain k4 o4 m where 4: "deserializeUint32 e buffer o3 0 = Ret (k4, o4, m)"
      "unat o4 \<le> length buffer" "k4 \<longrightarrow> unat o3 + 4 \<le> unat o4"
    using uint32.dec_safe [OF ok 3(2)] by blast
  show ?thesis
    using 1 2 3 4
    by (cases k1; cases k2; cases k3; cases k4) (simp_all add: deserializeFile_def Let_def ex_bool_eq)
qed

interpretation wfile: wire_codec "serializeFile e" "deserializeFile e" file_wire file_legal 16
  for e
  using deserializeFile_safe by unfold_locales (auto simp: serializeFile_wire deserializeFile_wire)

section \<open>Properties of messages\<close>

lemma unat_of_nat_u32: "unat (word_of_nat n :: u32) = n \<longleftrightarrow> n < 2 ^ 32"
  using unat_lt2p_u32 [of "word_of_nat n"] by (auto simp: unat_of_nat take_bit_nat_eq_self)

text \<open>
  C2. A message that \<open>createMessage\<close> builds is accepted by \<open>parseMessage\<close> with its type and
  its payload when the payload is shorter than 4 GiB. From 4 GiB on the \<open>uint32_t\<close> size field
  of the header has wrapped, and \<open>parseMessage\<close> refuses the message and leaves its
  out-parameters as they were.
\<close>

theorem message_roundtrip:
  assumes "vector_ok (createMessage e t payload)" and "proper_type t"
  shows "parseMessage e (createMessage e t payload) t0 p0 =
     (if length payload < 2 ^ 32 then Ret (True, t, payload) else Ret (False, t0, p0))"
  using assms unat_of_nat_u32 [of "length payload"]
  by (auto simp: createMessage_eq parseMessage_stored isValid_def)

theorem message_roundtrip_witness:
  "parseMessage LittleEndian (createMessage LittleEndian PING [1, 2, 3]) PONG [] =
   Ret (True, PING, [1, 2, 3])"
  using message_roundtrip [of LittleEndian PING "[1, 2, 3]" PONG "[]"]
  by (simp add: vector_ok_message)

text \<open>
  C1. Soundness of acceptance: an accepted message with a non-empty payload is, byte for
  byte, the message \<open>createMessage\<close> builds from that type and payload. With an empty payload
  everything but the four checksum bytes is determined: they are not looked at.
\<close>

theorem accepted_is_created:
  assumes "vector_ok data" and "parseMessage e data t0 p0 = Ret (True, t, payload)"
  shows "proper_type t \<and>
    (\<exists>c. length c = 4 \<and> data = take 13 (createMessage e t payload) @ c @ payload) \<and>
    (payload \<noteq> [] \<longrightarrow> data = createMessage e t payload)"
proof -
  have "17 \<le> length data"
    using assms parseMessage_short [of data e t0 p0] by (cases "length data < 17") auto
  then obtain h body where data: "data = store_header e h @ body"
      and proper: "proper_type (message_type h)"
    by (rule messageE)
  have parsed: "isValid h" "length payload = unat (payload_size h)"
      "t = message_type h" "payload = body" "payload \<noteq> [] \<longrightarrow> calculateCRC32 payload = checksum h"
    using assms parseMessage_stored [of e h body t0 p0] proper
    by (auto simp: data split: if_splits)
  have size: "payload_size h = word_of_nat (length payload)"
    using parsed(2) by simp
  have "data = take 13 (createMessage e t payload) @ mem32 e (checksum h) @ payload"
    using parsed size by (simp add: data createMessage_eq store_header_def isValid_def)
  moreover have "data = createMessage e t payload" if "payload \<noteq> []"
    using parsed size that by (simp add: data createMessage_eq store_header_def isValid_def)
  ultimately show ?thesis
    using proper parsed(3) by (metis length_mem32)
qed

theorem accepted_is_created_witness:
  "\<exists>c. length c = 4 \<and> createMessage BigEndian FILE_REQUEST [7, 8] =
     take 13 (createMessage BigEndian FILE_REQUEST [7, 8]) @ c @ [7, 8]"
proof -
  have ok: "vector_ok (createMessage BigEndian FILE_REQUEST [7, 8])"
    by (simp add: vector_ok_message)
  have accepted: "parseMessage BigEndian (createMessage BigEndian FILE_REQUEST [7, 8]) PONG [] =
      Ret (True, FILE_REQUEST, [7, 8])"
    using message_accepted [of BigEndian FILE_REQUEST "[7, 8]" PONG "[]"]
    by (simp add: vector_ok_message byte_type_def)
  show ?thesis
    by (rule accepted_is_created [OF ok accepted, THEN conjunct2, THEN conjunct1])
qed

text \<open>
  C4. Corruption of the payload in transit is detected: when the bytes of any window of at
  most four bytes of the payload change, \<open>parseMessage\<close> returns false (and leaves the corrupted
  bytes, not the old ones, in its payload out-parameter).
\<close>

theorem corrupted_payload_rejected:
  assumes "length mid = length mid'" and "length mid \<le> 4" and "mid \<noteq> mid'"
    and "length (pre @ mid @ post) < 2 ^ 32"
  shows "parseMessage e (take 17 (createMessage e t (pre @ mid @ post)) @ pre @ mid' @ post) t0 p0 =
     Ret (False, t0, pre @ mid' @ post)"
proof -
  let ?h = "\<lparr>magic = MAGIC_NUMBER, version = PROTOCOL_VERSION, message_type = t,
      payload_size = word_of_nat (length (pre @ mid @ post)),
      checksum = calculateCRC32 (pre @ mid @ post)\<rparr>"
  have len: "length (pre @ mid' @ post) = length (pre @ mid @ post)"
    using assms(1) by simp
  have "vector_ok (store_header e ?h @ pre @ mid' @ post)"
    using assms(4) len by (simp add: vector_ok_def)
  moreover have "pre @ mid' @ post \<noteq> []"
    using assms by auto
  moreover have "calculateCRC32 (pre @ mid @ post) \<noteq> calculateCRC32 (pre @ mid' @ post)"
    using assms by (intro crc_burst_detected) auto
  moreover have "unat (payload_size ?h) = length (pre @ mid' @ post)"
    using len assms(4) by (simp only: unat_of_nat_u32 MessageHeader.simps)
  ultimately have "parseMessage e (store_header e ?h @ pre @ mid' @ post) t0 p0 =
      Ret (False, t0, pre @ mid' @ post)"
    by (simp only: parseMessage_stored) (auto simp: isValid_def)
  then show ?thesis
    by (simp add: createMessage_eq)
qed

theorem corrupted_payload_rejected_witness:
  "parseMessage LittleEndian
     (take 17 (createMessage LittleEndian FILE_CHUNK [10, 20, 30, 40, 50]) @ [10, 21, 31, 40, 50])
     PING [] = Ret (False, PING, [10, 21, 31, 40, 50])"
  using corrupted_payload_rejected
    [of "[20, 30]" "[21, 31]" "[10]" "[40, 50]" LittleEndian FILE_CHUNK PING "[]"]
  by simp

text \<open>
  The header is copied in host byte order, so a message built on a little-endian host is
  refused on a big-endian one and the other way round, whatever its type and payload.
\<close>

theorem cross_endian_rejected:
  assumes "vector_ok (createMessage e t payload)" and "e' \<noteq> e"
  shows "parseMessage e' (createMessage e t payload) t0 p0 = Ret (False, t0, p0)"
proof -
  obtain h body where msg: "createMessage e t payload = store_header e' h @ body"
    using messageE [of "createMessage e t payload" e'] by (auto simp: createMessage_eq)
  have "load32 e' (take 4 (createMessage e t payload)) = magic h"
    by (simp add: msg store_header_def)
  then have "magic h = load32 e' (mem32 e MAGIC_NUMBER)"
    by (simp add: createMessage_eq store_header_def)
  then have "magic h \<noteq> MAGIC_NUMBER"
    using assms(2) by (cases e; cases e')
      (simp_all add: load32_def mem32_def MAGIC_NUMBER_def le_bytes_def)
  then show ?thesis
    using assms(1) parseMessage_stored [of e' h body t0 p0] by (simp add: msg isValid_def)
qed

theorem cross_endian_rejected_witness:
  "parseMessage BigEndian (createMessage LittleEndian PING [1]) PONG [] = Ret (False, PONG, [])"
  using cross_endian_rejected [of LittleEndian PING "[1]" BigEndian PONG "[]"]
  by (simp add: vector_ok_message)

section \<open>Properties of the bodies\<close>

definition peer_list_body :: "string list \<Rightarrow> byte list" where
  "peer_list_body ps = rev (le_bytes (word_of_nat (length ps))) @ concat (map string_wire ps)"

lemma createPeerListResponse_eq:
  "createPeerListResponse e ps = createMessage e PEER_LIST_RESPONSE (peer_list_body ps)"
  by (simp add: createPeerListResponse_def wstring.enc_all uint32.enc_appends peer_list_body_def
      vsize_def)

lemma parsePeerListResponse_body:
  assumes "vector_ok (peer_list_body ps @ post)" and "\<forall>p \<in> set ps. string_legal p"
    and "length ps < 2 ^ 32"
  shows "parsePeerListResponse e (peer_list_body ps @ post) = Ret (True, ps)"
proof -
  let ?n = "word_of_nat (length ps) :: u32"
  have n: "unat ?n = length ps"
    using assms(3) by (simp add: unat_of_nat_u32)
  have "deserializeUint32 e (peer_list_body ps @ post) 0 0 =
      Ret (True, vsize (rev (le_bytes ?n)), ?n)"
    using uint32.dec_wire [where x = ?n and pre = "[]" and post = "concat (map string_wire ps) @ post"]
      assms(1) by (simp add: peer_list_body_def vsize_def)
  then show ?thesis
    using wstring.parse_loop_wire [of ps "rev (le_bytes ?n)" post e "[]"] assms
    by (simp add: parsePeerListResponse_def n peer_list_body_def)
qed

text \<open>
  A peer list survives the trip: the receiver accepts the message and parses exactly the
  strings that were sent, in order.
\<close>

theorem peer_list_roundtrip:
  assumes "length (peer_list_body ps) < 2 ^ 32"
  shows "\<exists>body. parseMessage e (createPeerListResponse e ps) t0 p0 =
       Ret (True, PEER_LIST_RESPONSE, body) \<and> parsePeerListResponse e body = Ret (True, ps)"
proof -
  have count: "length ps \<le> length (peer_list_body ps)"
    and each: "\<forall>p \<in> set ps. length p \<le> length (peer_list_body ps)"
    unfolding peer_list_body_def by (induction ps) (auto simp: string_wire_def)
  have "parseMessage e (createPeerListResponse e ps) t0 p0 =
      Ret (True, PEER_LIST_RESPONSE, peer_list_body ps)"
    using message_accepted [OF vector_ok_message [OF assms] assms]
    by (simp add: createPeerListResponse_eq byte_type_def)
  moreover have "parsePeerListResponse e (peer_list_body ps) = Ret (True, ps)"
    using parsePeerListResponse_body [of ps "[]"] assms count each
    by (force simp: vector_ok_def string_legal_def)
  ultimately show ?thesis by blast
qed

theorem peer_list_roundtrip_witness:
  "\<exists>body. parseMessage LittleEndian (createPeerListResponse LittleEndian [''a|b'', ''c'']) PING [] =
     Ret (True, PEER_LIST_RESPONSE, body) \<and>
     parsePeerListResponse LittleEndian body = Ret (True, [''a|b'', ''c''])"
  using peer_list_roundtrip [of "[''a|b'', ''c'']" LittleEndian PING "[]"]
  by (simp add: peer_list_body_def string_wire_def)

definition file_list_body :: "FileInfo list \<Rightarrow> byte list" where
  "file_list_body fs = rev (le_bytes (word_of_nat (length fs))) @ concat (map file_wire fs)"

lemma createFileListResponse_eq:
  "createFileListResponse e fs = createMessage e FILE_LIST_RESPONSE (file_list_body fs)"
  by (simp add: createFileListResponse_def wfile.enc_all uint32.enc_appends file_list_body_def
      vsize_def)

lemma file_list_body_cut: "file_list_body (map cut_file fs) = file_list_body fs"
  by (simp add: file_list_body_def comp_def)

lemma parseFileListResponse_body:
  assumes "vector_ok (file_list_body fs @ post)" and "\<forall>f \<in> set fs. file_legal f"
    and "length fs < 2 ^ 32"
  shows "parseFileListResponse e (file_list_body fs @ post) = Ret (True, fs)"
proof -
  let ?n = "word_of_nat (length fs) :: u32"
  have n: "unat ?n = length fs"
    using assms(3) by (simp add: unat_of_nat_u32)
  have "deserializeUint32 e (file_list_body fs @ post) 0 0 =
      Ret (True, vsize (rev (le_bytes ?n)), ?n)"
    using uint32.dec_wire [where x = ?n and pre = "[]" and post = "concat (map file_wire fs) @ post"]
      assms(1) by (simp add: file_list_body_def vsize_def)
  then show ?thesis
    using wfile.parse_loop_wire [of fs "rev (le_bytes ?n)" post e "[]"] assms
    by (simp add: parseFileListResponse_def n file_list_body_def)
qed

text \<open>
  C39. A file list arrives with its names, hashes and order; the local path is not sent, and
  the size (a 64-bit \<open>size_t\<close>) and the modification time arrive modulo \<open>2^32\<close>, so that a file of
  4 GiB or more is announced with a wrong size.
\<close>

theorem file_list_roundtrip:
  assumes "length (file_list_body fs) < 2 ^ 32"
  shows "\<exists>body. parseMessage e (createFileListResponse e fs) t0 p0 =
       Ret (True, FILE_LIST_RESPONSE, body) \<and>
     parseFileListResponse e body = Ret (True, map cut_file fs)"
proof -
  have count: "length fs \<le> length (file_list_body fs)"
    and each: "\<forall>f \<in> set fs. length (filename f) \<le> length (file_list_body fs) \<and>
      length (file_hash f) \<le> length (file_list_body fs)"
    unfolding file_list_body_def by (induction fs) (auto simp: file_wire_def string_wire_def)
  have "parseMessage e (createFileListResponse e fs) t0 p0 =
      Ret (True, FILE_LIST_RESPONSE, file_list_body fs)"
    using message_accepted [OF vector_ok_message [OF assms] assms]
    by (simp add: createFileListResponse_eq byte_type_def)
  moreover have "parseFileListResponse e (file_list_body fs) = Ret (True, map cut_file fs)"
    using parseFileListResponse_body [of "map cut_file fs" "[]"] assms count each
    by (force simp: vector_ok_def file_legal_def string_legal_def file_list_body_cut)
  ultimately show ?thesis by blast
qed

theorem file_list_roundtrip_witness:
  "\<exists>body. parseMessage LittleEndian
       (createFileListResponse LittleEndian [mkFileInfo ''a'' ''/x/a'' 0x100000007 ''h'' 5]) PING [] =
     Ret (True, FILE_LIST_RESPONSE, body) \<and>
     parseFileListResponse LittleEndian body = Ret (True, [mkFileInfo ''a'' [] 7 ''h'' 5])"
  using file_list_roundtrip [of "[mkFileInfo ''a'' ''/x/a'' 0x100000007 ''h'' 5]" LittleEndian PING "[]"]
  by (simp add: file_list_body_def file_wire_def string_wire_def mkFileInfo_def cut_file_def)

definition file_request_body :: "string \<Rightarrow> u64 \<Rightarrow> u64 \<Rightarrow> byte list" where
  "file_request_body name offset len =
     string_wire name @ rev (le_bytes (ucast offset)) @ rev (le_bytes (ucast len))"

lemma createFileRequest_eq:
  "createFileRequest e name offset len =
   createMessage e FILE_REQUEST (file_request_body name offset len)"
  by (simp add: createFileRequest_def serializeString_wire uint32.enc_appends file_request_body_def
      Let_def)

lemma parseFileRequest_body:
  assumes "vector_ok (file_request_body name offset len)" and "string_legal name"
  shows "parseFileRequest e (file_request_body name offset len) n0 o0 l0 =
     Ret (True, name, ucast (ucast offset :: u32), ucast (ucast len :: u32))"
proof -
  let ?n = "string_wire name" and ?o = "rev (le_bytes (ucast offset))"
    and ?l = "rev (le_bytes (ucast len))"
  have "deserializeString e (file_request_body name offset len) 0 n0 = Ret (True, vsize ?n, name)"
    using deserializeString_wire [of name "[]" "?o @ ?l" e n0] assms
    by (simp add: file_request_body_def vsize_def)
  moreover have "deserializeUint32 e (file_request_body name offset len) (vsize ?n) 0 =
      Ret (True, vsize (?n @ ?o), ucast offset)"
    using uint32.dec_wire [where x = "ucast offset" and pre = ?n and post = ?l] assms
    by (simp add: file_request_body_def)
  moreover have "deserializeUint32 e (file_request_body name offset len) (vsize (?n @ ?o)) 0 =
      Ret (True, vsize (?n @ ?o @ ?l), ucast len)"
    using uint32.dec_wire [where x = "ucast len" and pre = "?n @ ?o" and post = "[]"] assms
    by (simp add: file_request_body_def)
  ultimately show ?thesis
    by (simp add: parseFileRequest_def)
qed

text \<open>
  A byte-range request arrives with its file name; offset and length are exact when they
  are below \<open>2^32\<close> and reduced modulo \<open>2^32\<close> otherwise.
\<close>

theorem file_request_roundtrip:
  assumes "length name < 2 ^ 32 - 12"
  shows "\<exists>body. parseMessage e (createFileRequest e name offset len) t0 p0 =
       Ret (True, FILE_REQUEST, body) \<and>
     parseFileRequest e body n0 o0 l0 =
       Ret (True, name, take_bit 32 offset, take_bit 32 len)"
proof -
  let ?body = "file_request_body name offset len"
  have size: "length ?body < 2 ^ 32"
    using assms by (simp add: file_request_body_def string_wire_def)
  have "ucast (ucast w :: u32) = take_bit 32 w" for w :: u64
    by (rule bit_word_eqI) (auto simp: bit_simps)
  moreover have "parseMessage e (createFileRequest e name offset len) t0 p0 =
      Ret (True, FILE_REQUEST, ?body)"
    using message_accepted [OF vector_ok_message [OF size] size]
    by (simp add: createFileRequest_eq byte_type_def)
  ultimately show ?thesis
    using parseFileRequest_body [of name offset len e n0 o0 l0] assms size
    by (auto simp: vector_ok_def string_legal_def)
qed

theorem file_request_roundtrip_witness:
  "\<exists>body. parseMessage LittleEndian (createFileRequest LittleEndian ''test.txt'' 1024 2048) PING [] =
     Ret (True, FILE_REQUEST, body) \<and>
     parseFileRequest LittleEndian body [] 0 0 = Ret (True, ''test.txt'', 1024, 2048)"
  using file_request_roundtrip [of "''test.txt''" LittleEndian 1024 2048 PING "[]" "[]" 0 0]
  by simp

definition file_chunk_body :: "byte list \<Rightarrow> u64 \<Rightarrow> byte list" where
  "file_chunk_body chunk offset =
     rev (le_bytes (ucast offset)) @ rev (le_bytes (word_of_nat (length chunk))) @ chunk"

lemma createFileChunk_eq:
  "createFileChunk e chunk offset = createMessage e FILE_CHUNK (file_chunk_body chunk offset)"
  by (simp add: createFileChunk_def uint32.enc_appends file_chunk_body_def vsize_def Let_def)

lemma parseFileChunk_body:
  assumes "length chunk < 2 ^ 32"
  shows "parseFileChunk e (file_chunk_body chunk offset) c0 o0 =
     Ret (True, chunk, ucast (ucast offset :: u32))"
proof -
  let ?o = "rev (le_bytes (ucast offset))" and ?n = "word_of_nat (length chunk) :: u32"
  let ?pre = "?o @ rev (le_bytes ?n)"
  let ?body = "file_chunk_body chunk offset"
  have body: "?body = ?pre @ chunk" and ok: "vector_ok (?pre @ chunk @ [])"
    using assms by (simp_all add: file_chunk_body_def vector_ok_def)
  have n: "unat ?n = length chunk"
    using assms by (simp add: unat_of_nat_u32)
  have "deserializeUint32 e ?body 0 0 = Ret (True, vsize ?o, ucast offset)"
    using uint32.dec_wire [where x = "ucast offset" and pre = "[]" and post = "rev (le_bytes ?n) @ chunk"]
      ok by (simp add: body vsize_def)
  moreover have "deserializeUint32 e ?body (vsize ?o) 0 = Ret (True, vsize ?pre, ?n)"
    using uint32.dec_wire [where x = ?n and pre = ?o and post = chunk] ok by (simp add: body)
  moreover have "\<not> vsize ?pre + ucast ?n > vsize ?body"
    using assms by (simp add: body vsize_append word_less_nat_alt unat_word_ariths n
        vsize_def unat_of_nat take_bit_nat_eq_self)
  moreover have "vread ?body (vsize ?pre) (unat ?n) = Some chunk"
    using vread_append [OF ok, of "unat ?n"] by (simp add: body n)
  ultimately show ?thesis
    by (simp add: parseFileChunk_def)
qed

text \<open>
  A file chunk arrives with exactly its bytes; its file offset arrives modulo \<open>2^32\<close>, so
  chunks beyond the first 4 GiB of a file are announced at a wrong position.
\<close>

theorem file_chunk_roundtrip:
  assumes "length chunk < 2 ^ 32 - 8"
  shows "\<exists>body. parseMessage e (createFileChunk e chunk offset) t0 p0 = Ret (True, FILE_CHUNK, body) \<and>
     parseFileChunk e body c0 o0 = Ret (True, chunk, take_bit 32 offset)"
proof -
  let ?body = "file_chunk_body chunk offset"
  have size: "length ?body < 2 ^ 32"
    using assms by (simp add: file_chunk_body_def)
  have "ucast (ucast offset :: u32) = take_bit 32 offset"
    by (rule bit_word_eqI) (auto simp: bit_simps)
  moreover have "parseMessage e (createFileChunk e chunk offset) t0 p0 = Ret (True, FILE_CHUNK, ?body)"
    using message_accepted [OF vector_ok_message [OF size] size]
    by (simp add: createFileChunk_eq byte_type_def)
  ultimately show ?thesis
    using parseFileChunk_body [of chunk e offset c0 o0] assms by auto
qed

theorem file_chunk_roundtrip_witness:
  "\<exists>body. parseMessage BigEndian (createFileChunk BigEndian [1, 2, 3] 0x300000010) PING [] =
     Ret (True, FILE_CHUNK, body) \<and> parseFileChunk BigEndian body [] 0 = Ret (True, [1, 2, 3], 16)"
  using file_chunk_roundtrip [of "[1, 2, 3]" BigEndian "0x300000010" PING "[]" "[]" 0]
  by simp

section \<open>Hostile input\<close>

lemma parsePeerListResponse_safe:
  assumes ok: "vector_ok payload"
  shows "\<exists>flag ps. parsePeerListResponse e payload = Ret (flag, ps) \<and> 4 * length ps \<le> length payload"
proof -
  obtain k off n where 1: "deserializeUint32 e payload 0 0 = Ret (k, off, n)"
      "unat off \<le> length payload"
    using uint32.dec_safe [OF ok, of 0 e] by auto
  obtain k' ps where "parse_loop (\<lambda>buffer offset. deserializeString e buffer offset []) (unat n)
      payload off [] = Ret (k', ps)" and "4 * length ps \<le> length payload"
    using wstring.parse_loop_safe [OF ok 1(2), of e "unat n" "[]"] by auto
  with 1 show ?thesis
    by (cases k) (simp_all add: parsePeerListResponse_def ex_bool_eq)
qed

lemma parseFileListResponse_safe:
  assumes ok: "vector_ok payload"
  shows "\<exists>flag fs. parseFileListResponse e payload = Ret (flag, fs) \<and> 16 * length fs \<le> length payload"
proof -
  obtain k off n where 1: "deserializeUint32 e payload 0 0 = Ret (k, off, n)"
      "unat off \<le> length payload"
    using uint32.dec_safe [OF ok, of 0 e] by auto
  obtain k' fs where "parse_loop (deserializeFile e) (unat n) payload off [] = Ret (k', fs)"
      and "16 * length fs \<le> length payload"
    using wfile.parse_loop_safe [OF ok 1(2), of e "unat n" "[]"] by auto
  with 1 show ?thesis
    by (cases k) (simp_all add: parseFileListResponse_def ex_bool_eq)
qed

lemma parseFileRequest_safe:
  assumes ok: "vector_ok payload"
  shows "\<exists>r. parseFileRequest e payload name offset len = Ret r"
proof -
  obtain k1 o1 n where 1: "deserializeString e payload 0 name = Ret (k1, o1, n)"
      "unat o1 \<le> length payload"
    using deserializeString_in_range [OF ok, of 0 e name] by auto
  obtain k2 o2 v where 2: "deserializeUint32 e payload o1 0 = Ret (k2, o2, v)"
      "unat o2 \<le> length payload"
    using uint32.dec_safe [OF ok 1(2), of e] by auto
  obtain k3 o3 w where 3: "deserializeUint32 e payload o2 0 = Ret (k3, o3, w)"
    using uint32.dec_safe [OF ok 2(2), of e] by auto
  show ?thesis
    using 1 2 3 by (cases k1; cases k2; cases k3) (auto simp: parseFileRequest_def)
qed

lemma parseFileChunk_safe:
  assumes ok: "vector_ok payload"
  shows "\<exists>flag data off. parseFileChunk e payload chunk offset = Ret (flag, data, off) \<and>
    (flag \<longrightarrow> (\<exists>pre post. payload = pre @ data @ post))"
proof -
  obtain k1 o1 v where 1: "deserializeUint32 e payload 0 0 = Ret (k1, o1, v)"
      "unat o1 \<le> length payload"
    using uint32.dec_safe [OF ok, of 0 e] by auto
  obtain k2 o2 n where 2: "deserializeUint32 e payload o1 0 = Ret (k2, o2, n)"
      "unat o2 \<le> length payload"
    using uint32.dec_safe [OF ok 1(2), of e] by auto
  have read: "o2 + ucast n > vsize payload \<or>
      vread payload o2 (unat n) = Some (take (unat n) (drop (unat o2) payload))"
    using cursor_advance(2) [OF ok 2(2), of "unat n"] unat_lt2p_u32 [of n] by (auto simp: vread_def)
  have "payload = take (unat o2) payload @ take (unat n) (drop (unat o2) payload)
      @ drop (unat n) (drop (unat o2) payload)"
    by (simp only: append_take_drop_id)
  then show ?thesis
    using 1 2 read by (cases k1; cases k2; cases "o2 + ucast n > vsize payload")
      (simp_all add: parseFileChunk_def ex_bool_eq, blast+)
qed

lemma parseMessage_safe:
  assumes ok: "vector_ok data"
  shows "\<exists>flag t' p'. parseMessage e data t payload = Ret (flag, t', p') \<and> (flag \<or> t' = t) \<and>
    (flag \<longrightarrow> length data = 17 + length p')"
proof (cases "length data < 17")
  case True
  with ok show ?thesis by (simp add: parseMessage_short ex_bool_eq)
next
  case False
  then obtain h body where data: "data = store_header e h @ body"
    using messageE by (meson not_less)
  then have "parseMessage e data t payload =
     (if \<not> isValid h \<or> length body \<noteq> unat (payload_size h) then Ret (False, t, payload)
      else if body = [] then Ret (True, byte_type (type_byte (message_type h)), [])
      else if calculateCRC32 body \<noteq> checksum h then Ret (False, t, body)
      else Ret (True, byte_type (type_byte (message_type h)), body))"
    using ok by (simp only: parseMessage_stored)
  then show ?thesis
    by (auto simp: data split: if_splits)
qed

text \<open>
  C3. Memory safety against any sender: on every byte sequence, whatever sizes and counts it
  claims, none of the parsers reads outside its buffer (the models return, they are never
  undefined); and a list parser delivers no more entries than the bytes received can hold, so
  that a forged count cannot make it allocate more.
\<close>

theorem parsers_stay_in_bounds:
  assumes "vector_ok data"
  shows "(\<exists>flag t' p'. parseMessage e data t p = Ret (flag, t', p') \<and>
       (flag \<longrightarrow> length data = 17 + length p')) \<and>
     (\<exists>flag ps. parsePeerListResponse e data = Ret (flag, ps) \<and> 4 * length ps \<le> length data) \<and>
     (\<exists>flag fs. parseFileListResponse e data = Ret (flag, fs) \<and> 16 * length fs \<le> length data) \<and>
     (\<exists>r. parseFileRequest e data name offset len = Ret r) \<and>
     (\<exists>flag chunk' off. parseFileChunk e data chunk offset = Ret (flag, chunk', off) \<and>
       (flag \<longrightarrow> (\<exists>pre post. data = pre @ chunk' @ post)))"
  using parseMessage_safe [OF assms, of e t p] parsePeerListResponse_safe [OF assms, of e]
    parseFileListResponse_safe [OF assms, of e] parseFileRequest_safe [OF assms, of e name offset len]
    parseFileChunk_safe [OF assms, of e chunk offset]
  by blast

theorem parsers_stay_in_bounds_witness:
  "\<exists>flag ps. parsePeerListResponse LittleEndian [0xFF, 0xFF, 0xFF, 0xFF, 0, 0, 0, 1, 65] =
     Ret (flag, ps) \<and>
     4 * length ps \<le> length ([0xFF, 0xFF, 0xFF, 0xFF, 0, 0, 0, 1, 65] :: byte list)"
proof -
  have ok: "vector_ok ([0xFF, 0xFF, 0xFF, 0xFF, 0, 0, 0, 1, 65] :: byte list)"
    by (simp add: vector_ok_def)
  show ?thesis
    by (rule parsers_stay_in_bounds [OF ok, of LittleEndian PING "[]" "[]" 0 0 "[]", THEN conjunct2,
        THEN conjunct1])
qed

text \<open>
  C40. The table-driven checksum loop computes the CRC-32 of its input: the same value as the
  shift register for the reflected polynomial \<open>0xEDB88320\<close> clocked bit by bit.
\<close>

theorem crc32_is_bit_serial: "calculateCRC32 data = crc32_ref data"
  by (rule calculateCRC32_eq_ref)

end
