(* ===== verification/ThreadPool.thy ===== *)
theory ThreadPool
  imports Prelude
begin

text \<open>
  \<open>include/ThreadPool.h\<close> and \<open>src/ThreadPool.cpp\<close> as a state machine.

  The state holds the queue, the stop flag and one program counter per worker thread. Every
  section the code runs under \<open>queue_mutex\<close> is one step. Sleeping in the condition variable
  and waking up are explicit, and \<open>notify_one\<close> and \<open>notify_all\<close> are steps of their own after
  the mutex is released, as in the code, so that a lost wake-up would be a reachable state.
  Spurious wake-ups are allowed. A task is a value of type \<open>'t\<close>; what it computes, or that it
  throws, goes to its future (\<open>std::packaged_task\<close>) and does not reach the worker, so running
  it is one step.

  The lists \<open>submitted\<close>, \<open>started\<close> and \<open>finished\<close> record the history and are read by no
  step.
\<close>

section \<open>State\<close>

datatype 't worker =
    Ready      \<comment> \<open>about to take the mutex and evaluate the wait predicate\<close>
  | Asleep     \<comment> \<open>blocked in \<open>condition.wait\<close>\<close>
  | Busy 't    \<comment> \<open>running a task, mutex released\<close>
  | Gone       \<comment> \<open>returned from its loop\<close>

text \<open>How far \<open>shutdown\<close> has come.\<close>

datatype phase = Running | Stop_set | All_notified | Joined

record 't pool =
  workers :: "'t worker list"
  tasks :: "'t list"
  stop :: bool
  wakeups :: nat   \<comment> \<open>calls of \<open>notify_one\<close> still to come\<close>
  shutdown_phase :: phase
  submitted :: "'t list"
  started :: "'t list"
  finished :: "'t list"

section \<open>Operations\<close>

definition new_ThreadPool :: "nat \<Rightarrow> 't pool" where
  "new_ThreadPool threads =
     \<lparr>workers = replicate threads Ready, tasks = [], stop = False, wakeups = 0,
      shutdown_phase = Running, submitted = [], started = [], finished = []\<rparr>"

definition enqueue :: "'t \<Rightarrow> 't pool \<Rightarrow> exn + 't pool" where
  "enqueue t p =
     (if stop p then Inl (Runtime_error ''enqueue on stopped ThreadPool'')
      else Inr (p\<lparr>tasks := tasks p @ [t], wakeups := Suc (wakeups p),
                  submitted := submitted p @ [t]\<rparr>))"

definition queueSize :: "'t pool \<Rightarrow> nat" where
  "queueSize p = length (tasks p)"

definition pool_size :: "'t pool \<Rightarrow> nat" where
  "pool_size p = length (workers p)"

definition set_worker :: "nat \<Rightarrow> 't worker \<Rightarrow> 't pool \<Rightarrow> 't pool" where
  "set_worker i w p = p\<lparr>workers := (workers p)[i := w]\<rparr>"

text \<open>
  One step of worker \<open>i\<close>: under the mutex it waits, leaves, or takes the front task; without
  the mutex it finishes the task. A sleeping or a finished worker takes no step by itself.
\<close>

definition worker_step :: "nat \<Rightarrow> 't pool \<Rightarrow> 't pool option" where
  "worker_step i p =
     (if length (workers p) \<le> i then None
      else case workers p ! i of
        Ready \<Rightarrow>
          (if \<not> (stop p \<or> tasks p \<noteq> []) then Some (set_worker i Asleep p)
           else case tasks p of
             [] \<Rightarrow> Some (set_worker i Gone p)
           | t # rest \<Rightarrow>
               Some (set_worker i (Busy t) (p\<lparr>tasks := rest, started := started p @ [t]\<rparr>)))
      | Busy t \<Rightarrow> Some (set_worker i Ready (p\<lparr>finished := finished p @ [t]\<rparr>))
      | Asleep \<Rightarrow> None
      | Gone \<Rightarrow> None)"

text \<open>
  The three parts of \<open>shutdown\<close>: under the mutex, \<open>notify_all\<close>, and the joins (which wait for
  every worker to return). A later call, such as the destructor's after an explicit \<open>shutdown\<close>,
  finds no worker and a stop flag already set, so only the first call is a step.
\<close>

definition shutdown_set :: "'t pool \<Rightarrow> 't pool option" where
  "shutdown_set p =
     (if shutdown_phase p = Running then Some (p\<lparr>stop := True, shutdown_phase := Stop_set\<rparr>) else None)"

definition wake :: "'t worker \<Rightarrow> 't worker" where
  "wake w = (case w of Asleep \<Rightarrow> Ready | _ \<Rightarrow> w)"

definition shutdown_notify :: "'t pool \<Rightarrow> 't pool option" where
  "shutdown_notify p =
     (if shutdown_phase p = Stop_set
      then Some (p\<lparr>workers := map wake (workers p), shutdown_phase := All_notified\<rparr>) else None)"

definition shutdown_join :: "'t pool \<Rightarrow> 't pool option" where
  "shutdown_join p =
     (if shutdown_phase p = All_notified \<and> (\<forall>w \<in> set (workers p). w = Gone)
      then Some (p\<lparr>workers := [], shutdown_phase := Joined\<rparr>) else None)"

inductive pool_step :: "'t pool \<Rightarrow> 't pool \<Rightarrow> bool" where
  submit: "enqueue t p = Inr p' \<Longrightarrow> pool_step p p'"
| notify_wakes: "wakeups p = Suc n \<Longrightarrow> i < length (workers p) \<Longrightarrow> workers p ! i = Asleep \<Longrightarrow>
    pool_step p (set_worker i Ready (p\<lparr>wakeups := n\<rparr>))"
| notify_lost: "wakeups p = Suc n \<Longrightarrow> Asleep \<notin> set (workers p) \<Longrightarrow> pool_step p (p\<lparr>wakeups := n\<rparr>)"
| spurious: "i < length (workers p) \<Longrightarrow> workers p ! i = Asleep \<Longrightarrow> pool_step p (set_worker i Ready p)"
| work: "worker_step i p = Some p' \<Longrightarrow> pool_step p p'"
| set_stop: "shutdown_set p = Some p' \<Longrightarrow> pool_step p p'"
| notify_all: "shutdown_notify p = Some p' \<Longrightarrow> pool_step p p'"
| join: "shutdown_join p = Some p' \<Longrightarrow> pool_step p p'"

inductive pool_reach :: "nat \<Rightarrow> 't pool \<Rightarrow> bool" for threads where
  created: "pool_reach threads (new_ThreadPool threads)"
| stepped: "pool_reach threads p \<Longrightarrow> pool_step p p' \<Longrightarrow> pool_reach threads p'"

inductive_cases pool_stepE: "pool_step p p'"

text \<open>A worker moves, a notification arrives or \<open>shutdown\<close> goes on: no new task, no
  spurious wake-up.\<close>

inductive pool_progress :: "'t pool \<Rightarrow> 't pool \<Rightarrow> bool" where
  "worker_step i p = Some p' \<Longrightarrow> pool_progress p p'"
| "wakeups p = Suc n \<Longrightarrow> i < length (workers p) \<Longrightarrow> workers p ! i = Asleep \<Longrightarrow>
    pool_progress p (set_worker i Ready (p\<lparr>wakeups := n\<rparr>))"
| "wakeups p = Suc n \<Longrightarrow> Asleep \<notin> set (workers p) \<Longrightarrow> pool_progress p (p\<lparr>wakeups := n\<rparr>)"
| "shutdown_notify p = Some p' \<Longrightarrow> pool_progress p p'"
| "shutdown_join p = Some p' \<Longrightarrow> pool_progress p p'"

section \<open>The tasks the workers hold\<close>

fun held :: "'t worker \<Rightarrow> 't multiset" where
  "held (Busy t) = {#t#}"
| "held _ = {#}"

definition running :: "'t worker list \<Rightarrow> 't multiset" where
  "running ws = sum_list (map held ws)"

lemma running_update:
  "i < length ws \<Longrightarrow> running (ws[i := w]) + held (ws ! i) = running ws + held w"
proof (induction ws arbitrary: i)
  case (Cons v ws)
  then show ?case
    by (cases i) (auto simp: running_def ac_simps)
qed simp

lemma running_replicate [simp]: "running (replicate n Ready) = {#}"
  by (induction n) (auto simp: running_def)

lemma held_wake [simp]: "held (wake w) = held w"
  by (cases w) (auto simp: wake_def)

lemma running_wake [simp]: "running (map wake ws) = running ws"
  by (simp add: running_def comp_def)

lemma running_gone: "\<forall>w \<in> set ws. w = Gone \<Longrightarrow> running ws = {#}"
  by (induction ws) (auto simp: running_def)

lemma set_worker_simps [simp]:
  "workers (set_worker i w p) = (workers p)[i := w]" "tasks (set_worker i w p) = tasks p"
  "stop (set_worker i w p) = stop p" "wakeups (set_worker i w p) = wakeups p"
  "shutdown_phase (set_worker i w p) = shutdown_phase p"
  "submitted (set_worker i w p) = submitted p" "started (set_worker i w p) = started p"
  "finished (set_worker i w p) = finished p"
  by (simp_all add: set_worker_def)

text \<open>The effects of a worker's step, case by case.\<close>

lemma worker_step_cases [consumes 1, case_names sleep leave take finish]:
  assumes "worker_step i p = Some p'"
  obtains (sleep) "i < length (workers p)" "workers p ! i = Ready" "\<not> stop p" "tasks p = []"
      "p' = set_worker i Asleep p"
  | (leave) "i < length (workers p)" "workers p ! i = Ready" "stop p" "tasks p = []"
      "p' = set_worker i Gone p"
  | (take) t rest where "i < length (workers p)" "workers p ! i = Ready" "tasks p = t # rest"
      "p' = set_worker i (Busy t) (p\<lparr>tasks := rest, started := started p @ [t]\<rparr>)"
  | (finish) t where "i < length (workers p)" "workers p ! i = Busy t"
      "p' = set_worker i Ready (p\<lparr>finished := finished p @ [t]\<rparr>)"
  using assms
  by (auto simp: worker_step_def not_le split: if_splits worker.splits list.splits)

lemmas pool_ops = enqueue_def shutdown_set_def shutdown_notify_def shutdown_join_def

section \<open>Conservation: first in, first out, each task once\<close>

definition conserved :: "'t pool \<Rightarrow> bool" where
  "conserved p \<longleftrightarrow> submitted p = started p @ tasks p \<and>
     mset (started p) = mset (finished p) + running (workers p)"

lemma running_replace:
  "i < length ws \<Longrightarrow> held (ws ! i) = {#} \<Longrightarrow> running (ws[i := w]) = running ws + held w"
  using running_update [of i ws w] by simp

lemma conserved_worker_step:
  assumes "worker_step i p = Some p'" and "conserved p"
  shows "conserved p'"
  using assms(1)
proof (cases rule: worker_step_cases)
  case (finish t)
  then have "running ((workers p)[i := Ready]) + {#t#} = running (workers p)"
    using running_update [of i "workers p" Ready] by simp
  with finish assms(2) show ?thesis
    by (simp add: conserved_def)
qed (use assms(2) in \<open>simp_all add: conserved_def running_replace\<close>)

lemma conserved_step: "pool_step p p' \<Longrightarrow> conserved p \<Longrightarrow> conserved p'"
proof (induction rule: pool_step.induct)
  case (work i p p')
  then show ?case by (blast intro: conserved_worker_step)
qed (auto simp: conserved_def running_replace pool_ops running_gone split: if_splits)

lemma conserved_new: "conserved (new_ThreadPool n)"
  by (simp add: conserved_def new_ThreadPool_def)

section \<open>No wake-up is lost\<close>

definition awake :: "'t worker \<Rightarrow> bool" where
  "awake w \<longleftrightarrow> w = Ready \<or> (\<exists>t. w = Busy t)"

text \<open>
  While tasks are queued, a worker is awake or a notification is on its way, unless every
  worker has left; workers leave only when the pool is stopped and drained; and once
  \<open>notify_all\<close> has run nobody sleeps.
\<close>

definition attentive :: "'t pool \<Rightarrow> bool" where
  "attentive p \<longleftrightarrow>
     (tasks p \<noteq> [] \<longrightarrow> workers p \<noteq> [] \<longrightarrow> 0 < wakeups p \<or> (\<exists>w \<in> set (workers p). awake w)) \<and>
     (Gone \<in> set (workers p) \<longrightarrow> stop p \<and> tasks p = []) \<and>
     (shutdown_phase p \<in> {All_notified, Joined} \<longrightarrow> Asleep \<notin> set (workers p)) \<and>
     (stop p \<longleftrightarrow> shutdown_phase p \<noteq> Running)"

lemma set_update_mem: "i < length ws \<Longrightarrow> w \<in> set (ws[i := w])"
  by (simp add: set_update_memI)

lemma set_update_sub: "v \<in> set (ws[i := w]) \<Longrightarrow> v = w \<or> v \<in> set ws"
  using set_update_subset_insert [of ws i w] by auto

lemma awake_simps [simp]: "awake Ready" "awake (Busy t)" "\<not> awake Asleep" "\<not> awake Gone"
  by (simp_all add: awake_def)

lemma awake_wake: "awake w \<Longrightarrow> awake (wake w)"
  by (cases w) (simp_all add: wake_def)

lemma wake_image [simp]: "Asleep \<notin> wake ` W" "Gone \<in> wake ` W \<longleftrightarrow> Gone \<in> W"
  by (force simp: wake_def split: worker.splits)+

lemma attentive_set_worker:
  assumes "attentive p" and "i < length (workers p)" and "awake w"
    and "workers p' = (workers p)[i := w]" and "tasks p' \<noteq> [] \<longrightarrow> tasks p \<noteq> []"
    and "stop p' = stop p" and "shutdown_phase p' = shutdown_phase p"
  shows "attentive p'"
proof -
  have "\<exists>v \<in> set (workers p'). awake v"
    using assms set_update_mem by fastforce
  moreover have "v = w \<or> v \<in> set (workers p)" if "v \<in> set (workers p')" for v
    using that assms(4) by (auto dest: set_update_sub)
  ultimately show ?thesis
    using assms by (fastforce simp: attentive_def)
qed

lemma attentive_worker_step:
  assumes "worker_step i p = Some p'" and "attentive p"
  shows "attentive p'"
  using assms(1)
proof (cases rule: worker_step_cases)
  case sleep
  with assms(2) show ?thesis
    by (auto simp: attentive_def dest!: set_update_sub)
next
  case leave
  with assms(2) show ?thesis
    by (auto simp: attentive_def dest!: set_update_sub)
next
  case (take t rest)
  show ?thesis
    by (rule attentive_set_worker [of p i "Busy t"]) (use assms(2) take in auto)
next
  case (finish t)
  show ?thesis
    by (rule attentive_set_worker [of p i Ready]) (use assms(2) finish in auto)
qed

lemma attentive_step: "pool_step p p' \<Longrightarrow> attentive p \<Longrightarrow> attentive p'"
proof (induction rule: pool_step.induct)
  case (work i p p')
  then show ?case by (blast intro: attentive_worker_step)
next
  case (notify_wakes p n i)
  show ?case
    by (rule attentive_set_worker [of p i Ready]) (use notify_wakes in auto)
next
  case (spurious i p)
  show ?case
    by (rule attentive_set_worker [of p i Ready]) (use spurious in auto)
next
  case (notify_lost p n)
  have "\<exists>w \<in> set (workers p). awake w" if "workers p \<noteq> []" "tasks p \<noteq> []"
  proof -
    from that obtain w where w: "w \<in> set (workers p)"
      by (cases "workers p") auto
    with notify_lost that have "w \<noteq> Asleep" and "w \<noteq> Gone"
      by (auto simp: attentive_def)
    then have "awake w" by (cases w) auto
    with w show ?thesis by blast
  qed
  with notify_lost show ?case
    by (auto simp: attentive_def)
qed (auto simp: attentive_def pool_ops split: if_splits intro: awake_wake)

lemma attentive_new: "attentive (new_ThreadPool n)"
  by (auto simp: attentive_def new_ThreadPool_def)

section \<open>Reachable pools\<close>

lemma pool_reach_invariants: "pool_reach n p \<Longrightarrow> conserved p \<and> attentive p"
  by (induction rule: pool_reach.induct)
    (auto intro: conserved_new attentive_new conserved_step attentive_step)

text \<open>The number of workers only changes when \<open>shutdown\<close> clears the vector.\<close>

lemma pool_reach_workers:
  "pool_reach n p \<Longrightarrow> length (workers p) = (if shutdown_phase p = Joined then 0 else n)"
proof (induction rule: pool_reach.induct)
  case (stepped p p')
  from stepped.hyps(2) show ?case
    using stepped.IH by (cases rule: pool_step.cases)
      (auto simp: pool_ops split: if_splits elim: worker_step_cases)
qed (simp add: new_ThreadPool_def)

text \<open>A pool that has been joined had either no worker or nothing left to do.\<close>

lemma pool_reach_joined:
  "pool_reach n p \<Longrightarrow> shutdown_phase p = Joined \<Longrightarrow> n = 0 \<or> tasks p = []"
proof (induction rule: pool_reach.induct)
  case (stepped p p')
  note inv = pool_reach_invariants [OF stepped.hyps(1)] pool_reach_workers [OF stepped.hyps(1)]
  from stepped.hyps(2) show ?case
  proof (cases rule: pool_step.cases)
    case join
    then have gone: "\<forall>w \<in> set (workers p). w = Gone" and "tasks p' = tasks p"
        and "shutdown_phase p = All_notified"
      by (auto simp: shutdown_join_def split: if_splits)
    moreover have "Gone \<in> set (workers p)" if "n \<noteq> 0"
      using gone inv(2) that calculation(3) by (cases "workers p") auto
    ultimately show ?thesis
      using inv(1) by (auto simp: attentive_def)
  qed (use stepped.IH stepped.prems inv(1) in
      \<open>auto simp: pool_ops attentive_def split: if_splits elim: worker_step_cases\<close>)
qed (simp add: new_ThreadPool_def)

section \<open>Progress\<close>

lemma awake_worker_steps:
  assumes "w \<in> set (workers p)" and "awake w"
  shows "\<exists>p'. pool_progress p p'"
proof -
  obtain i where i: "i < length (workers p)" "workers p ! i = w"
    using assms(1) by (auto simp: in_set_conv_nth)
  then have "\<exists>p'. worker_step i p = Some p'"
    using assms(2) by (auto simp: awake_def worker_step_def split: list.splits)
  then show ?thesis
    by (blast intro: pool_progress.intros)
qed

lemma wakeup_steps: "0 < wakeups p \<Longrightarrow> \<exists>p'. pool_progress p p'"
proof (cases "wakeups p")
  case (Suc n)
  show ?thesis
  proof (cases "Asleep \<in> set (workers p)")
    case True
    then obtain i where "i < length (workers p)" and "workers p ! i = Asleep"
      by (auto simp: in_set_conv_nth)
    with Suc show ?thesis by (blast intro: pool_progress.intros)
  next
    case False
    with Suc show ?thesis by (blast intro: pool_progress.intros)
  qed
qed simp

lemma pool_progress_step: "pool_progress p p' \<Longrightarrow> pool_step p p'"
  by (induction rule: pool_progress.induct) (auto intro: pool_step.intros)

lemma busy_not_idle: "running ws \<noteq> {#} \<Longrightarrow> \<exists>w \<in> set ws. awake w"
proof (induction ws)
  case (Cons w ws)
  then show ?case
    by (cases w) (auto simp: running_def)
qed (simp add: running_def)

text \<open>
  A measure that every step of a stopped pool decreases: a queued task weighs 3, a busy worker
  4, a sleeping one 3, a ready one 2.
\<close>

fun worker_weight :: "'t worker \<Rightarrow> nat" where
  "worker_weight Ready = 2"
| "worker_weight Asleep = 3"
| "worker_weight (Busy t) = 4"
| "worker_weight Gone = 0"

fun phase_weight :: "phase \<Rightarrow> nat" where
  "phase_weight Running = 3"
| "phase_weight Stop_set = 2"
| "phase_weight All_notified = 1"
| "phase_weight Joined = 0"

definition pool_measure :: "'t pool \<Rightarrow> nat" where
  "pool_measure p =
     3 * length (tasks p) + wakeups p + phase_weight (shutdown_phase p)
       + sum_list (map worker_weight (workers p))"

lemma weight_update:
  "i < length ws \<Longrightarrow> sum_list (map worker_weight (ws[i := w])) + worker_weight (ws ! i) =
   sum_list (map worker_weight ws) + worker_weight w"
proof (induction ws arbitrary: i)
  case (Cons v ws)
  then show ?case
    by (cases i) (auto simp: add.assoc)
qed simp

lemma weight_wake: "sum_list (map worker_weight (map wake ws)) \<le> sum_list (map worker_weight ws)"
proof (induction ws)
  case (Cons w ws)
  then show ?case
    by (cases w) (auto simp: wake_def)
qed simp

lemma stopped_step_decreases:
  assumes "pool_step p p'" and "stop p"
  shows "stop p' \<and> pool_measure p' < pool_measure p \<and> submitted p' = submitted p"
  using assms(1)
proof (cases rule: pool_step.cases)
  case (notify_wakes n i)
  with assms(2) show ?thesis
    using weight_update [of i "workers p" Ready] by (simp add: pool_measure_def)
next
  case (spurious i)
  with assms(2) show ?thesis
    using weight_update [of i "workers p" Ready] by (simp add: pool_measure_def)
next
  case (work i)
  then show ?thesis
  proof (cases rule: worker_step_cases)
    case leave
    with assms(2) show ?thesis
      using weight_update [of i "workers p" Gone] by (simp add: pool_measure_def)
  next
    case (take t rest)
    with assms(2) show ?thesis
      using weight_update [of i "workers p" "Busy t"] by (simp add: pool_measure_def)
  next
    case (finish t)
    with assms(2) show ?thesis
      using weight_update [of i "workers p" Ready] by (simp add: pool_measure_def)
  qed (use assms(2) in simp)
next
  case notify_all
  with assms(2) show ?thesis
    using weight_wake [of "workers p"]
    by (auto simp: shutdown_notify_def pool_measure_def split: if_splits)
qed (use assms(2) in \<open>auto simp: pool_ops pool_measure_def split: if_splits\<close>)

lemma stopped_not_stuck:
  assumes "attentive p" and "stop p" and "shutdown_phase p \<noteq> Joined"
  shows "\<exists>p'. pool_progress p p'"
proof (cases "\<exists>w \<in> set (workers p). awake w")
  case True
  then show ?thesis by (blast intro: awake_worker_steps)
next
  case False
  consider "shutdown_phase p = Stop_set" | "shutdown_phase p = All_notified"
    using assms by (cases "shutdown_phase p") (auto simp: attentive_def)
  then show ?thesis
  proof cases
    case 1
    then have "\<exists>p'. shutdown_notify p = Some p'"
      by (simp add: shutdown_notify_def)
    then show ?thesis by (blast intro: pool_progress.intros)
  next
    case 2
    have "w = Gone" if "w \<in> set (workers p)" for w
    proof -
      have "\<not> awake w" and "w \<noteq> Asleep"
        using that False assms(1) 2 by (auto simp: attentive_def)
      then show ?thesis by (cases w) simp_all
    qed
    with 2 have "shutdown_join p = Some (p\<lparr>workers := [], shutdown_phase := Joined\<rparr>)"
      by (auto simp: shutdown_join_def)
    then show ?thesis by (blast intro: pool_progress.intros)
  qed
qed

lemma shutdown_reaches_joined:
  "attentive p \<Longrightarrow> stop p \<Longrightarrow> \<exists>q. pool_progress\<^sup>*\<^sup>* p q \<and> shutdown_phase q = Joined"
proof (induction "pool_measure p" arbitrary: p rule: less_induct)
  case less
  show ?case
  proof (cases "shutdown_phase p = Joined")
    case False
    then obtain p' where p': "pool_progress p p'"
      using stopped_not_stuck less.prems by blast
    then have "stop p'" and "pool_measure p' < pool_measure p" and "attentive p'"
      using stopped_step_decreases attentive_step less.prems pool_progress_step by blast+
    then obtain q where "pool_progress\<^sup>*\<^sup>* p' q" and "shutdown_phase q = Joined"
      using less.hyps by blast
    with p' show ?thesis
      by (blast intro: converse_rtranclp_into_rtranclp)
  qed blast
qed

section \<open>Properties\<close>

text \<open>
  C5. In every reachable state of a pool, tasks have been started in the order in which they
  were submitted, and each submitted task is in exactly one place: finished, running in one
  worker, or queued. No task is lost or run twice.
\<close>

theorem pool_fifo_exactly_once:
  assumes "pool_reach n p"
  shows "submitted p = started p @ tasks p \<and>
     mset (submitted p) = mset (finished p) + running (workers p) + mset (tasks p)"
  using pool_reach_invariants [OF assms] by (auto simp: conserved_def)

definition example_pool :: "nat pool" where
  "example_pool =
     \<lparr>workers = [Busy 7], tasks = [8], stop = False, wakeups = 2, shutdown_phase = Running,
      submitted = [7, 8], started = [7], finished = []\<rparr>"

lemma example_pool_reach: "pool_reach 1 example_pool"
proof -
  let ?p1 = "(new_ThreadPool 1)\<lparr>tasks := [7], wakeups := 1, submitted := [7]\<rparr> :: nat pool"
  let ?p2 = "?p1\<lparr>tasks := [7, 8], wakeups := 2, submitted := [7, 8]\<rparr>"
  have "pool_reach 1 ?p1"
    by (rule stepped [OF created], rule submit [of 7])
      (simp add: enqueue_def new_ThreadPool_def)
  then have "pool_reach 1 ?p2"
    by (rule stepped) (rule submit [of 8], simp add: enqueue_def new_ThreadPool_def)
  then show ?thesis
    by (rule stepped)
      (rule work [of 0], simp add: worker_step_def new_ThreadPool_def example_pool_def set_worker_def)
qed

theorem pool_fifo_exactly_once_witness:
  "submitted example_pool = started example_pool @ tasks example_pool \<and>
   mset [7, 8] = {#} + {#7#} + mset [8::nat]"
  using pool_fifo_exactly_once [OF example_pool_reach]
  by (simp add: example_pool_def running_def)

text \<open>
  C6. No wake-up is lost: a pool with workers in which no thread can go on (no worker can take
  its next step, no notification is under way and \<open>shutdown\<close> is not half-way) has an empty
  queue and no task in execution. So a queued task is always eventually picked up.
\<close>

theorem idle_pool_has_no_work:
  assumes "pool_reach n p" and "0 < n" and "\<not> (\<exists>p'. pool_progress p p')"
  shows "tasks p = [] \<and> running (workers p) = {#}"
proof -
  have inv: "attentive p"
    using pool_reach_invariants [OF assms(1)] by blast
  have no_awake: "\<not> (\<exists>w \<in> set (workers p). awake w)"
      and "wakeups p = 0"
    using assms(3) awake_worker_steps wakeup_steps by blast+
  have joined: "tasks p = []" if "workers p = []"
  proof -
    have "shutdown_phase p = Joined"
      using that pool_reach_workers [OF assms(1)] assms(2) by (simp split: if_splits)
    then show ?thesis
      using pool_reach_joined [OF assms(1)] assms(2) by simp
  qed
  then have "tasks p = []"
    using inv no_awake \<open>wakeups p = 0\<close> unfolding attentive_def by (metis less_irrefl)
  with no_awake show ?thesis
    using busy_not_idle by blast
qed

lemma new_pool_asleep:
  "pool_reach 1 ((new_ThreadPool 1)\<lparr>workers := [Asleep]\<rparr> :: nat pool)"
  by (rule stepped [OF created], rule work [of 0])
    (simp add: worker_step_def new_ThreadPool_def set_worker_def)

theorem idle_pool_has_no_work_witness:
  "tasks ((new_ThreadPool 1)\<lparr>workers := [Asleep]\<rparr> :: nat pool) = [] \<and>
   running (workers ((new_ThreadPool 1)\<lparr>workers := [Asleep]\<rparr> :: nat pool)) = {#}"
proof (rule idle_pool_has_no_work [OF new_pool_asleep])
  show "\<not> (\<exists>p'. pool_progress ((new_ThreadPool 1)\<lparr>workers := [Asleep]\<rparr> :: nat pool) p')"
    by (auto simp: new_ThreadPool_def shutdown_notify_def shutdown_join_def
        elim!: pool_progress.cases worker_step_cases)
qed simp

text \<open>
  C7. Shutdown terminates: once the stop flag is set, every step of the pool (including
  spurious wake-ups) decreases a measure and accepts no new task, and the steps of the workers
  and of \<open>shutdown\<close> alone lead to the state in which all workers are joined.
\<close>

theorem shutdown_terminates:
  assumes "pool_reach n p" and "stop p"
  shows "(\<exists>q. pool_progress\<^sup>*\<^sup>* p q \<and> shutdown_phase q = Joined) \<and>
     (\<forall>p'. pool_step p p' \<longrightarrow>
        stop p' \<and> pool_measure p' < pool_measure p \<and> submitted p' = submitted p)"
  using shutdown_reaches_joined [of p] stopped_step_decreases [of p] assms pool_reach_invariants
  by blast

lemma stopped_example_reach:
  "pool_reach 1 (example_pool\<lparr>stop := True, shutdown_phase := Stop_set\<rparr>)"
  by (rule stepped [OF example_pool_reach], rule set_stop)
    (simp add: shutdown_set_def example_pool_def)

theorem shutdown_terminates_witness:
  "\<exists>q. pool_progress\<^sup>*\<^sup>* (example_pool\<lparr>stop := True, shutdown_phase := Stop_set\<rparr>) q \<and>
    shutdown_phase q = Joined"
  using shutdown_terminates [OF stopped_example_reach] by simp

text \<open>
  C8. When \<open>shutdown\<close> has joined the workers of a pool that had at least one, every task ever
  submitted has been run exactly once: shutting down drains the queue.
\<close>

theorem joined_pool_ran_everything:
  assumes "pool_reach n p" and "0 < n" and "shutdown_phase p = Joined"
  shows "mset (finished p) = mset (submitted p)"
proof -
  have "workers p = []" and "tasks p = []"
    using pool_reach_workers [OF assms(1)] pool_reach_joined [OF assms(1,3)] assms by auto
  then show ?thesis
    using pool_reach_invariants [OF assms(1)] by (simp add: conserved_def running_def)
qed

text \<open>A pool of one worker that is shut down before it gets any task.\<close>

definition joined_example :: "nat pool" where
  "joined_example =
     \<lparr>workers = [], tasks = [], stop = True, wakeups = 0, shutdown_phase = Joined,
      submitted = [], started = [], finished = []\<rparr>"

lemma joined_example_reach: "pool_reach 1 joined_example"
proof -
  let ?p0 = "new_ThreadPool 1 :: nat pool"
  let ?p1 = "?p0\<lparr>stop := True, shutdown_phase := Stop_set\<rparr>"
  let ?p2 = "?p1\<lparr>shutdown_phase := All_notified\<rparr>"
  have "pool_reach 1 ?p1"
    by (rule stepped [OF created], rule set_stop)
      (simp add: shutdown_set_def new_ThreadPool_def)
  then have "pool_reach 1 ?p2"
    by (rule stepped) (rule notify_all, simp add: shutdown_notify_def new_ThreadPool_def wake_def)
  then have "pool_reach 1 (?p2\<lparr>workers := [Gone]\<rparr>)"
    by (rule stepped)
      (rule work [of 0], simp add: worker_step_def new_ThreadPool_def set_worker_def)
  then show ?thesis
    by (rule stepped)
      (rule join, simp add: shutdown_join_def new_ThreadPool_def joined_example_def)
qed

theorem joined_pool_ran_everything_witness:
  "mset (finished joined_example) = mset (submitted joined_example)"
  by (rule joined_pool_ran_everything [OF joined_example_reach]) (simp_all add: joined_example_def)

text \<open>
  A pool created with no worker (\<open>hardware_concurrency\<close>, the constructor's default, may be
  0) accepts tasks, and after \<open>shutdown\<close> they are still in the queue: the hypothesis on the
  number of workers in the properties above is needed. Nothing is ever started in such a pool.
\<close>

theorem empty_pool_runs_nothing:
  assumes "pool_reach 0 p"
  shows "started p = [] \<and> finished p = [] \<and> tasks p = submitted p"
proof -
  have "workers p = []"
    using pool_reach_workers [OF assms] by (simp split: if_splits)
  have "started p = [] \<and> finished p = []"
    using assms
  proof (induction rule: pool_reach.induct)
    case (stepped p p')
    have no_workers: "workers p = []"
      using pool_reach_workers [OF stepped.hyps(1)] by (simp split: if_splits)
    from stepped.hyps(2) show ?case
      using stepped.IH no_workers by (cases rule: pool_step.cases)
        (auto simp: pool_ops split: if_splits elim: worker_step_cases)
  qed (simp add: new_ThreadPool_def)
  then show ?thesis
    using pool_reach_invariants [OF assms] by (simp add: conserved_def)
qed

lemma dropped_task_reach:
  "pool_reach 0 \<lparr>workers = [], tasks = [5 :: nat], stop = True, wakeups = 1, shutdown_phase = Joined,
      submitted = [5], started = [], finished = []\<rparr>"
proof -
  let ?p = "\<lambda>b ph. \<lparr>workers = [], tasks = [5 :: nat], stop = b, wakeups = 1, shutdown_phase = ph,
      submitted = [5], started = [], finished = []\<rparr>"
  have "pool_reach 0 (?p False Running)"
    by (rule stepped [OF created], rule submit [of 5])
      (simp add: enqueue_def new_ThreadPool_def)
  then have "pool_reach 0 (?p True Stop_set)"
    by (rule stepped) (rule set_stop, simp add: shutdown_set_def)
  then have "pool_reach 0 (?p True All_notified)"
    by (rule stepped) (rule notify_all, simp add: shutdown_notify_def)
  then show ?thesis
    by (rule stepped) (rule join, simp add: shutdown_join_def)
qed

theorem empty_pool_runs_nothing_witness:
  "tasks \<lparr>workers = [], tasks = [5], stop = True, wakeups = 1, shutdown_phase = Joined,
      submitted = [5], started = [], finished = []\<rparr> = [5 :: nat]"
  using empty_pool_runs_nothing [OF dropped_task_reach] by simp

text \<open>
  A task is refused exactly when the stop flag is set, with an exception, and the flag is
  set for good: no step of a reachable pool clears it.
\<close>

theorem enqueue_refused_iff_stopped:
  "(enqueue t p = Inl (Runtime_error ''enqueue on stopped ThreadPool'') \<longleftrightarrow> stop p) \<and>
   (stop p \<longrightarrow> (\<forall>p'. pool_step p p' \<longrightarrow> stop p'))"
  using stopped_step_decreases [of p] by (auto simp: enqueue_def)

theorem enqueue_refused_iff_stopped_witness:
  "enqueue 3 (example_pool\<lparr>stop := True\<rparr>) =
   Inl (Runtime_error ''enqueue on stopped ThreadPool'')"
  using enqueue_refused_iff_stopped [of 3 "example_pool\<lparr>stop := True\<rparr>"] by simp

end
