(* ===== verification/Sockets.thy ===== *)
theory Sockets
  imports Prelude
begin

text \<open>
  The POSIX calls on a connected stream socket that the client and the server use, and the
  loops the code writes around them.

  The kernel is an argument of every operation: a connection holds the answers the kernel
  will give. \<open>answers\<close> says, for each call of \<open>send\<close>, whether it takes some bytes (at least
  one, at most what it is offered) or fails; \<open>rx\<close> lists what the calls of \<open>recv\<close> will meet:
  a segment of data, the end of the stream, or an error. All theorems hold for every such
  script, so for every segmentation, every partial transfer and every failure. When the script
  of \<open>rx\<close> is exhausted nothing arrives any more: a call with \<open>MSG_DONTWAIT\<close>, or one whose
  \<open>SO_RCVTIMEO\<close> expires, fails with \<open>EAGAIN\<close>.

  \<open>pending\<close> is the abstract view of the input: the bytes that can still be read. The locale
  \<open>byte_source\<close> is the contract of reading from it.
\<close>

section \<open>The kernel's side of a connection\<close>

datatype errno = EAGAIN | Other_errno

datatype send_event = Accept nat | Refuse errno

datatype rx_event = Data "byte list" | Eof | Err errno

record conn =
  tx :: "byte list"               \<comment> \<open>every byte the kernel has taken\<close>
  answers :: "nat \<Rightarrow> send_event"
  calls :: nat                    \<comment> \<open>calls of \<open>send\<close> so far\<close>
  rx :: "rx_event list"

datatype send_result = Sent nat | Send_failed errno

datatype recv_result = Received "byte list" | Peer_closed | Recv_failed errno

definition sock_send :: "byte list \<Rightarrow> conn \<Rightarrow> send_result \<times> conn" where
  "sock_send xs k =
     (let k1 = k\<lparr>calls := Suc (calls k)\<rparr>
      in case answers k (calls k) of
           Accept m \<Rightarrow>
             (let n = min (Suc m) (length xs)
              in (Sent n, k1\<lparr>tx := tx k @ take n xs\<rparr>))
         | Refuse e \<Rightarrow> (Send_failed e, k1))"

fun sock_recv :: "nat \<Rightarrow> rx_event list \<Rightarrow> recv_result \<times> rx_event list" where
  "sock_recv n [] = (Recv_failed EAGAIN, [])"
| "sock_recv n (Data xs # es) =
     (if xs = [] then sock_recv n es
      else (Received (take n xs), if length xs \<le> n then es else Data (drop n xs) # es))"
| "sock_recv n (Eof # es) = (Peer_closed, Eof # es)"
| "sock_recv n (Err e # es) = (Recv_failed e, es)"

lemma sock_recv_progress:
  "sock_recv n es = (Received bs, es') \<Longrightarrow> n \<noteq> 0 \<Longrightarrow> bs \<noteq> [] \<and> length bs \<le> n"
  by (induction n es rule: sock_recv.induct) (auto split: if_splits)

text \<open>\<open>recv\<close> with \<open>MSG_WAITALL\<close>: it returns fewer bytes than asked for only at the end of the
  stream, on an error or on a timeout.\<close>

function recv_waitall :: "nat \<Rightarrow> rx_event list \<Rightarrow> byte list \<times> rx_event list" where
  "recv_waitall n es =
     (if n = 0 then ([], es)
      else case sock_recv n es of
             (Received bs, es') \<Rightarrow>
               (let (more, es'') = recv_waitall (n - length bs) es' in (bs @ more, es''))
           | (_, es') \<Rightarrow> ([], es'))"
  by pat_completeness auto
termination
  by (relation "measure fst") (auto dest!: sock_recv_progress [OF sym])

declare recv_waitall.simps [simp del]

section \<open>The loops around the calls\<close>

text \<open>The client's loop over \<open>send\<close>: any failure, also \<open>EAGAIN\<close>, ends it.\<close>

function send_all :: "byte list \<Rightarrow> conn \<Rightarrow> bool \<times> conn" where
  "send_all xs k =
     (if xs = [] then (True, k)
      else case sock_send xs k of
             (Sent n, k') \<Rightarrow> (if n = 0 then (False, k') else send_all (drop n xs) k')
           | (Send_failed e, k') \<Rightarrow> (False, k'))"
  by pat_completeness auto
termination
  by (relation "measure (\<lambda>(xs, k). length xs)") auto

declare send_all.simps [simp del]

text \<open>
  The server's loop over \<open>send\<close>: \<open>EAGAIN\<close> is retried for ever, so the loop may not return,
  and then its value is \<open>None\<close>.
\<close>

partial_function (option) send_retry :: "byte list \<Rightarrow> conn \<Rightarrow> (bool \<times> conn) option" where
  "send_retry xs k =
     (if xs = [] then Some (True, k)
      else case sock_send xs k of
             (Sent n, k') \<Rightarrow> send_retry (drop n xs) k'
           | (Send_failed e, k') \<Rightarrow>
               (if e = EAGAIN then send_retry xs k' else Some (False, k')))"

text \<open>The client's loop over \<open>recv\<close>: \<open>acc\<close> is what has been received so far.\<close>

function recv_loop :: "nat \<Rightarrow> byte list \<Rightarrow> rx_event list \<Rightarrow> byte list option \<times> rx_event list" where
  "recv_loop n acc es =
     (if n = 0 then (Some acc, es)
      else case sock_recv n es of
             (Received bs, es') \<Rightarrow> recv_loop (n - length bs) (acc @ bs) es'
           | (_, es') \<Rightarrow> (None, es'))"
  by pat_completeness auto
termination
  by (relation "measure fst") (auto dest!: sock_recv_progress [OF sym])

declare recv_loop.simps [simp del]

section \<open>Reading\<close>

fun pending :: "rx_event list \<Rightarrow> byte list" where
  "pending (Data xs # es) = xs @ pending es"
| "pending _ = []"

fun rx_size :: "rx_event list \<Rightarrow> nat" where
  "rx_size [] = 0"
| "rx_size (Data xs # es) = length xs + rx_size es"
| "rx_size (_ # es) = rx_size es"

lemma pending_map_Data [simp]: "pending (map Data xss @ es) = concat xss @ pending es"
  by (induction xss) auto

lemma pending_map_Data_only [simp]: "pending (map Data xss) = concat xss"
  using pending_map_Data [of xss "[]"] by simp

lemma pending_le_rx_size: "length (pending es) \<le> rx_size es"
  by (induction es rule: pending.induct) auto

locale byte_source =
  fixes avail :: "'s \<Rightarrow> byte list"
    and get :: "nat \<Rightarrow> 's \<Rightarrow> byte list \<times> 's"
  assumes get_enough: "n \<le> length (avail s) \<Longrightarrow>
      fst (get n s) = take n (avail s) \<and> avail (snd (get n s)) = drop n (avail s)"
    and get_short: "length (avail s) < n \<Longrightarrow> fst (get n s) = avail s"
begin

lemma get_append:
  assumes "avail s = xs @ ys" and "length xs = n"
  obtains s' where "get n s = (xs, s')" and "avail s' = ys"
  using assms get_enough [of n s] by (cases "get n s") auto

lemma get_length: "length (fst (get n s)) = min n (length (avail s))"
  using get_enough [of n s] get_short [of s n] by (cases "n \<le> length (avail s)") auto

lemma get_complete_iff: "length (fst (get n s)) = n \<longleftrightarrow> n \<le> length (avail s)"
  by (auto simp: get_length)

end

lemma sock_recv_pending:
  "case sock_recv n es of
     (Received bs, es') \<Rightarrow> pending es = bs @ pending es' \<and> rx_size es = length bs + rx_size es'
   | (_, es') \<Rightarrow> pending es = [] \<and> rx_size es = rx_size es'"
  by (induction n es rule: sock_recv.induct) (auto split: prod.splits recv_result.splits)

lemma sock_recv_size:
  "sock_recv n es = (Received bs, es') \<Longrightarrow> rx_size es = length bs + rx_size es'"
  using sock_recv_pending [where n = n and es = es] by simp

lemma recv_waitall_pending:
  "recv_waitall n es = (bs, es') \<Longrightarrow>
   length bs = min n (length (pending es)) \<and> bs = take n (pending es) \<and>
   rx_size es = length bs + rx_size es' \<and>
   (n \<le> length (pending es) \<longrightarrow> pending es' = drop n (pending es))"
proof (induction n es arbitrary: bs es' rule: recv_waitall.induct)
  case (1 n es)
  show ?case
  proof (cases "n = 0")
    case True
    with 1 show ?thesis by (simp add: recv_waitall.simps)
  next
    case False
    obtain r es1 where r: "sock_recv n es = (r, es1)"
      by (cases "sock_recv n es")
    show ?thesis
    proof (cases r)
      case (Received cs)
      obtain more es2 where rec: "recv_waitall (n - length cs) es1 = (more, es2)"
        by (cases "recv_waitall (n - length cs) es1")
      with False r Received 1(2) have "bs = cs @ more" and "es' = es2"
        by (simp_all add: recv_waitall.simps [of n])
      moreover have "length cs \<le> n"
        using sock_recv_progress r Received False by blast
      ultimately show ?thesis
        using 1(1) [OF False r [symmetric] Received rec] sock_recv_pending [where n = n and es = es] r Received
        by auto
    qed (use False r 1(2) sock_recv_pending [where n = n and es = es] in \<open>auto simp: recv_waitall.simps [of n]\<close>)
  qed
qed

interpretation rx_source: byte_source pending recv_waitall
proof
  fix n s
  show "n \<le> length (pending s) \<Longrightarrow>
      fst (recv_waitall n s) = take n (pending s) \<and>
      pending (snd (recv_waitall n s)) = drop n (pending s)"
    using recv_waitall_pending [of n s] by (cases "recv_waitall n s") simp
  show "length (pending s) < n \<Longrightarrow> fst (recv_waitall n s) = pending s"
    using recv_waitall_pending [of n s] by (cases "recv_waitall n s") simp
qed

lemma rx_size_recv_waitall:
  "recv_waitall n es = (bs, es') \<Longrightarrow> rx_size es = length bs + rx_size es'"
  using recv_waitall_pending by blast

text \<open>The client's loop does what one \<open>MSG_WAITALL\<close> call would do, and reports a shortage.\<close>

lemma recv_loop_waitall:
  "recv_loop n acc es =
   (let (bs, es') = recv_waitall n es in (if length bs = n then Some (acc @ bs) else None, es'))"
proof (induction n acc es rule: recv_loop.induct)
  case (1 n acc es)
  show ?case
  proof (cases "n = 0")
    case True
    then show ?thesis by (simp add: recv_loop.simps recv_waitall.simps)
  next
    case False
    obtain r es1 where r: "sock_recv n es = (r, es1)"
      by (cases "sock_recv n es")
    show ?thesis
    proof (cases r)
      case (Received cs)
      then have "length cs \<le> n"
        using sock_recv_progress r False by blast
      with 1 [OF False r [symmetric] Received] False r Received show ?thesis
        by (auto simp: recv_loop.simps [of n] recv_waitall.simps [of n] split: prod.split)
    qed (use False r in \<open>simp_all add: recv_loop.simps recv_waitall.simps\<close>)
  qed
qed

section \<open>Sending\<close>

lemma sock_send_cases:
  assumes "sock_send xs k = (r, k')"
  obtains (sent) m where "answers k (calls k) = Accept m" and "r = Sent (min (Suc m) (length xs))"
      and "tx k' = tx k @ take (min (Suc m) (length xs)) xs"
      and "answers k' = answers k" and "calls k' = Suc (calls k)" and "rx k' = rx k"
  | (refused) e where "answers k (calls k) = Refuse e" and "r = Send_failed e" and "tx k' = tx k"
      and "answers k' = answers k" and "calls k' = Suc (calls k)" and "rx k' = rx k"
  using assms by (auto simp: sock_send_def Let_def split: send_event.splits)

text \<open>
  Both loops only append a prefix of what they are given to what the kernel has taken, the
  whole of it when they report success, and never read.
\<close>

definition send_effect :: "byte list \<Rightarrow> bool \<times> conn \<Rightarrow> conn \<Rightarrow> bool" where
  "send_effect xs r k \<longleftrightarrow>
     rx (snd r) = rx k \<and> answers (snd r) = answers k \<and> calls k \<le> calls (snd r) \<and>
     (\<exists>n \<le> length xs. tx (snd r) = tx k @ take n xs \<and> (fst r \<longrightarrow> n = length xs))"

lemma send_effect_refl: "send_effect xs (xs = [], k) k"
  by (auto simp: send_effect_def)

lemma send_effect_step:
  assumes "sock_send xs k = (Sent n, k')" and "send_effect (drop n xs) r k'"
  shows "send_effect xs r k"
  using assms(1)
proof (cases rule: sock_send_cases)
  case (sent m)
  then obtain j where j: "j \<le> length (drop n xs)" "tx (snd r) = tx k @ take n xs @ take j (drop n xs)"
      "fst r \<longrightarrow> j = length (drop n xs)"
    using assms(2) by (auto simp: send_effect_def)
  have "n \<le> length xs"
    using sent by simp
  with j have "n + j \<le> length xs \<and> tx (snd r) = tx k @ take (n + j) xs \<and>
      (fst r \<longrightarrow> n + j = length xs)"
    by (auto simp: take_add)
  with sent assms(2) show ?thesis
    unfolding send_effect_def by (metis Suc_leD)
qed simp

lemma send_effect_refused:
  assumes "sock_send xs k = (Send_failed e, k')"
  shows "send_effect ys (False, k') k" and "send_effect xs r k' \<Longrightarrow> send_effect xs r k"
  using assms by (auto simp: send_effect_def elim!: sock_send_cases intro: exI [of _ 0])

lemma send_all_effect: "send_effect xs (send_all xs k) k"
proof (induction xs k rule: send_all.induct)
  case (1 xs k)
  show ?case
  proof (cases "xs = []")
    case True
    then show ?thesis
      using send_effect_refl [of xs k] by (simp add: send_all.simps)
  next
    case False
    obtain r k' where r: "sock_send xs k = (r, k')"
      by (cases "sock_send xs k")
    show ?thesis
    proof (cases r)
      case (Sent n)
      then have "n \<noteq> 0"
        using r False by (auto elim!: sock_send_cases)
      with 1 [OF False r [symmetric] Sent] False r Sent show ?thesis
        by (simp add: send_all.simps [of xs] send_effect_step)
    next
      case (Send_failed e)
      with False r show ?thesis
        by (simp add: send_all.simps [of xs] send_effect_refused)
    qed
  qed
qed

lemma send_retry_effect:
  assumes "send_retry xs k = Some r"
  shows "send_effect xs r k"
  using assms
proof (rule send_retry.raw_induct [of "\<lambda>xs k r. send_effect xs r k", rotated])
  fix f xs k r
  assume ih: "\<And>xs k r. f xs k = Some r \<Longrightarrow> send_effect xs r k"
    and "(if xs = [] then Some (True, k)
      else case sock_send xs k of
             (Sent n, k') \<Rightarrow> f (drop n xs) k'
           | (Send_failed e, k') \<Rightarrow> (if e = EAGAIN then f xs k' else Some (False, k'))) = Some r"
  then show "send_effect xs r k"
    by (auto split: if_splits prod.splits send_result.splits
        intro: send_effect_refl [of "[]", simplified] send_effect_refused send_effect_step [OF _ ih]
          send_effect_refused(2) [OF _ ih])
qed

text \<open>A kernel that never refuses a byte.\<close>

definition willing :: "conn \<Rightarrow> bool" where
  "willing k \<longleftrightarrow> (\<forall>n. \<exists>m. answers k n = Accept m)"

lemma send_all_willing: "willing k \<Longrightarrow> fst (send_all xs k)"
proof (induction xs k rule: send_all.induct)
  case (1 xs k)
  obtain r k' where r: "sock_send xs k = (r, k')"
    by (cases "sock_send xs k")
  from r show ?case
  proof (cases rule: sock_send_cases)
    case (sent m)
    show ?thesis
    proof (cases "xs = []")
      case False
      with sent 1 r show ?thesis
        by (simp add: send_all.simps [of xs] willing_def)
    qed (simp add: send_all.simps)
  next
    case (refused e)
    with 1(2) have False
      unfolding willing_def by (metis send_event.distinct(1))
    then show ?thesis ..
  qed
qed

lemma send_all_ok:
  assumes "fst (send_all xs k)"
  shows "tx (snd (send_all xs k)) = tx k @ xs" and "rx (snd (send_all xs k)) = rx k"
    and "answers (snd (send_all xs k)) = answers k"
  using assms send_all_effect [of xs k] by (auto simp: send_effect_def)

section \<open>When the retrying loop returns\<close>

text \<open>The kernel goes on giving answers other than \<open>EAGAIN\<close>.\<close>

definition responsive :: "conn \<Rightarrow> bool" where
  "responsive k \<longleftrightarrow> (\<forall>n. \<exists>m \<ge> n. answers k m \<noteq> Refuse EAGAIN)"

lemma sock_send_answers: "sock_send xs k = (r, k') \<Longrightarrow> answers k' = answers k"
  by (auto elim!: sock_send_cases)

lemma send_retry_step:
  assumes "answers k (calls k + d) \<noteq> Refuse EAGAIN" and "xs \<noteq> []"
    and smaller: "\<And>n k'. 0 < n \<Longrightarrow> answers k' = answers k \<Longrightarrow> \<exists>r. send_retry (drop n xs) k' = Some r"
  shows "\<exists>r. send_retry xs k = Some r"
  using assms
proof (induction d arbitrary: k)
  case (0 k)
  obtain r k' where r: "sock_send xs k = (r, k')"
    by (cases "sock_send xs k")
  from r show ?case
  proof (cases rule: sock_send_cases)
    case (sent m)
    with 0(3) [of "min (Suc m) (length xs)" k'] 0(2) r show ?thesis
      by (subst send_retry.simps) simp
  next
    case (refused e)
    with 0(1,2) r show ?thesis
      by (subst send_retry.simps) auto
  qed
next
  case (Suc d k)
  obtain r k' where r: "sock_send xs k = (r, k')"
    by (cases "sock_send xs k")
  from r show ?case
  proof (cases rule: sock_send_cases)
    case (sent m)
    with Suc(4) [of "min (Suc m) (length xs)" k'] Suc(3) r show ?thesis
      by (subst send_retry.simps) simp
  next
    case (refused e)
    have "\<exists>r. send_retry xs k' = Some r"
      using Suc.IH [of k'] Suc.prems refused by simp
    with refused Suc(3) r show ?thesis
      by (subst send_retry.simps) auto
  qed
qed

lemma send_retry_responsive: "responsive k \<Longrightarrow> \<exists>r. send_retry xs k = Some r"
proof (induction "length xs" arbitrary: xs k rule: less_induct)
  case less
  show ?case
  proof (cases "xs = []")
    case False
    obtain m where "calls k \<le> m" and "answers k m \<noteq> Refuse EAGAIN"
      using less.prems by (auto simp: responsive_def)
    then have "answers k (calls k + (m - calls k)) \<noteq> Refuse EAGAIN"
      by simp
    then show ?thesis
    proof (rule send_retry_step)
      fix n and k' :: conn
      assume "0 < (n :: nat)" and "answers (k' :: conn) = answers k"
      then show "\<exists>r. send_retry (drop n xs) k' = Some r"
        using less.hyps [of "drop n xs" k'] less.prems False by (simp add: responsive_def)
    qed (rule False)
  qed (simp add: send_retry.simps ex_bool_eq)
qed

text \<open>A kernel that never fails and goes on taking bytes: it may answer \<open>EAGAIN\<close> as often as it likes,
  as long as it takes something again later. A willing kernel is one that never does.\<close>

definition patient :: "conn \<Rightarrow> bool" where
  "patient k \<longleftrightarrow>
     (\<forall>n e. answers k n = Refuse e \<longrightarrow> e = EAGAIN) \<and> (\<forall>n. \<exists>m \<ge> n. answers k m \<noteq> Refuse EAGAIN)"

lemma patient_responsive: "patient k \<Longrightarrow> responsive k"
  by (simp add: patient_def responsive_def)

lemma willing_patient: "willing k \<Longrightarrow> patient k"
  unfolding willing_def patient_def by (metis order_refl send_event.distinct(1))

text \<open>Such a kernel gets everything, once.\<close>

lemma send_retry_patient_ok:
  assumes "send_retry xs k = Some r"
  shows "patient k \<longrightarrow> fst r"
  using assms
proof (rule send_retry.raw_induct [of "\<lambda>xs k r. patient k \<longrightarrow> fst r", rotated])
  fix f xs k r
  assume ih: "\<And>xs k r. f xs k = Some r \<Longrightarrow> patient k \<longrightarrow> fst r"
    and body: "(if xs = [] then Some (True, k)
      else case sock_send xs k of
             (Sent n, k') \<Rightarrow> f (drop n xs) k'
           | (Send_failed e, k') \<Rightarrow> (if e = EAGAIN then f xs k' else Some (False, k'))) = Some r"
  obtain x k' where x: "sock_send xs k = (x, k')"
    by (cases "sock_send xs k")
  have "patient k' = patient k"
    using sock_send_answers [OF x] by (simp add: patient_def)
  moreover have "e = EAGAIN" if "patient k" and "x = Send_failed e" for e
    using x that by (auto simp: patient_def elim!: sock_send_cases)
  ultimately show "patient k \<longrightarrow> fst r"
    using body x ih by (auto split: if_splits send_result.splits)
qed

lemma send_retry_patient:
  assumes "patient k"
  obtains k' where "send_retry xs k = Some (True, k')"
proof -
  obtain ok k' where "send_retry xs k = Some (ok, k')"
    using send_retry_responsive [OF patient_responsive [OF assms], of xs] by auto
  with send_retry_patient_ok [OF this] assms that show ?thesis
    by auto
qed

text \<open>A peer that has stopped reading: from some call on, the kernel never takes a byte.\<close>

definition blocked :: "conn \<Rightarrow> bool" where
  "blocked k \<longleftrightarrow> (\<forall>n \<ge> calls k. answers k n = Refuse EAGAIN)"

lemma send_retry_blocked_aux:
  assumes "send_retry xs k = Some r"
  shows "blocked k \<longrightarrow> xs = []"
  using assms
proof (rule send_retry.raw_induct [of "\<lambda>xs k r. blocked k \<longrightarrow> xs = []", rotated])
  fix f xs k r
  assume ih: "\<And>xs k r. f xs k = Some r \<Longrightarrow> blocked k \<longrightarrow> xs = []"
    and body: "(if xs = [] then Some (True, k)
      else case sock_send xs k of
             (Sent n, k') \<Rightarrow> f (drop n xs) k'
           | (Send_failed e, k') \<Rightarrow> (if e = EAGAIN then f xs k' else Some (False, k'))) = Some r"
  show "blocked k \<longrightarrow> xs = []"
  proof (rule ccontr)
    assume "\<not> (blocked k \<longrightarrow> xs = [])"
    then have b: "blocked k" and "xs \<noteq> []"
      by auto
    then have "sock_send xs k = (Send_failed EAGAIN, k\<lparr>calls := Suc (calls k)\<rparr>)"
      by (simp add: sock_send_def blocked_def)
    then have "f xs (k\<lparr>calls := Suc (calls k)\<rparr>) = Some r"
      using body \<open>xs \<noteq> []\<close> by simp
    moreover have "blocked (k\<lparr>calls := Suc (calls k)\<rparr>)"
      using b by (simp add: blocked_def)
    ultimately show False
      using ih \<open>xs \<noteq> []\<close> by blast
  qed
qed

lemma send_retry_blocked: "blocked k \<Longrightarrow> xs \<noteq> [] \<Longrightarrow> send_retry xs k = None"
  using send_retry_blocked_aux by (cases "send_retry xs k") blast+

text \<open>A fresh connection whose kernel takes everything, with a given input script.\<close>

definition calm :: "rx_event list \<Rightarrow> conn" where
  "calm es = \<lparr>tx = [], answers = (\<lambda>_. Accept 100000), calls = 0, rx = es\<rparr>"

lemma calm_willing [simp]: "willing (calm es)"
  by (simp add: willing_def calm_def)

lemma patient_rx [simp]: "patient (k\<lparr>rx := es\<rparr>) = patient k"
  by (simp add: patient_def)

lemma calm_patient [simp]: "patient (calm es)"
  by (simp add: willing_patient)

lemma calm_fields [simp]: "tx (calm es) = []" "rx (calm es) = es" "calls (calm es) = 0"
  by (simp_all add: calm_def)

end
