(* ===== verification/Client.thy ===== *)
theory Client
  imports Peer Sockets Table Double
begin

text \<open>
  \<open>include/Client.h\<close> and \<open>src/Client.cpp\<close>: the connection state of a client, its framing
  (a length of four bytes in network order before every message), the three requests and the
  download loop.

  The host's byte order is the argument \<open>e\<close>. \<open>::socket\<close> gives the argument \<open>fd\<close>, \<open>::connect\<close>
  is the argument \<open>dial\<close>: the connection the kernel makes to that address and port, or
  nothing. Every method leaves the object in some state also when it throws, so the result is
  the pair of \<open>exn + value\<close> and the new state. The destination of a download is a file of the
  map \<open>disk\<close>; \<open>opens\<close> says where \<open>std::ofstream\<close> can create a file and how much the file can
  hold. The steady clock, in nanoseconds, is the argument \<open>clk\<close> of a download: its value at each
  of the readings the download makes.
\<close>

section \<open>State\<close>

record DownloadProgress =
  dl_filename :: string
  total_size :: u64
  downloaded_size :: u64
  speed_mbps :: double
  start_time :: int
  completed :: bool
  failed :: bool
  error_message :: string

record Client =
  socket_fd :: int
  remote_address :: string
  remote_port :: int
  connected :: bool
  active_downloads :: "DownloadProgress table"
  sock :: conn            \<comment> \<open>the kernel's side of the open socket\<close>
  open_fds :: "int list"  \<comment> \<open>descriptors this object has opened and not closed\<close>

type_synonym disk = "string \<rightharpoonup> byte list"

definition new_Client :: Client where
  "new_Client =
     \<lparr>socket_fd = -1, remote_address = [], remote_port = 0, connected = False,
      active_downloads = [], sock = calm [], open_fds = []\<rparr>"

section \<open>Connecting\<close>

definition createSocket :: "int \<Rightarrow> Client \<Rightarrow> bool \<times> Client" where
  "createSocket fd c =
     (if fd < 0 then (False, c\<lparr>socket_fd := fd\<rparr>)
      else (True, c\<lparr>socket_fd := fd, open_fds := fd # open_fds c\<rparr>))"

definition closeSocket :: "Client \<Rightarrow> Client" where
  "closeSocket c =
     (let c1 = (if 0 \<le> socket_fd c
                then c\<lparr>open_fds := remove1 (socket_fd c) (open_fds c), socket_fd := -1\<rparr> else c)
      in c1\<lparr>connected := False\<rparr>)"

definition disconnect :: "Client \<Rightarrow> Client" where
  "disconnect c = (closeSocket c)\<lparr>remote_address := [], remote_port := 0\<rparr>"

definition client_destroy :: "Client \<Rightarrow> Client" where
  "client_destroy c = disconnect c"

text \<open>\<open>inet_pton\<close> takes four decimal octets without leading zeros.\<close>

fun split_dots :: "string \<Rightarrow> string list" where
  "split_dots [] = [[]]"
| "split_dots (c # s) =
     (if c = CHR ''.'' then [] # split_dots s
      else case split_dots s of [] \<Rightarrow> [[c]] | t # ts \<Rightarrow> (c # t) # ts)"

definition octet :: "string \<Rightarrow> bool" where
  "octet t \<longleftrightarrow> t \<noteq> [] \<and> list_all is_digit t \<and> number t \<le> 255 \<and> (length t = 1 \<or> hd t \<noteq> CHR ''0'')"

definition inet_pton :: "string \<Rightarrow> bool" where
  "inet_pton s \<longleftrightarrow> length (split_dots s) = 4 \<and> list_all octet (split_dots s)"

text \<open>\<open>htons(port)\<close> keeps the lowest 16 bits of the port.\<close>

type_synonym dialer = "string \<Rightarrow> 16 word \<Rightarrow> conn option"

definition client_connect :: "dialer \<Rightarrow> int \<Rightarrow> string \<Rightarrow> int \<Rightarrow> Client \<Rightarrow> bool \<times> Client" where
  "client_connect dial fd address port c =
     (let c0 = (if connected c then disconnect c else c);
          (ok, c1) = createSocket fd c0
      in if \<not> ok then (False, c1)
         else if \<not> inet_pton (c_str address) then (False, closeSocket c1)
         else case dial (c_str address) (word_of_int port) of
                None \<Rightarrow> (False, closeSocket c1)
              | Some k \<Rightarrow>
                  (True, c1\<lparr>remote_address := address, remote_port := port, connected := True,
                            sock := k\<rparr>))"

section \<open>Messages\<close>

definition client_sendMessage :: "endian \<Rightarrow> MessageType \<Rightarrow> byte list \<Rightarrow> Client \<Rightarrow> (exn + unit) \<times> Client" where
  "client_sendMessage e type payload c =
     (if \<not> connected c then (Inl (Runtime_error ''Not connected to any peer''), c)
      else
        let message = type_byte type # payload;
            len = htonl e (word_of_nat (length message));
            (r, k1) = sock_send (mem32 e len) (sock c)
        in if r \<noteq> Sent 4
           then (Inl (Runtime_error ''Failed to send message length''), c\<lparr>sock := k1\<rparr>)
           else
             let (ok, k2) = send_all message k1
             in if ok then (Inr (), c\<lparr>sock := k2\<rparr>)
                else (Inl (Runtime_error ''Failed to send message data''), c\<lparr>sock := k2\<rparr>))"

definition set_rx :: "rx_event list \<Rightarrow> Client \<Rightarrow> Client" where
  "set_rx es c = c\<lparr>sock := (sock c)\<lparr>rx := es\<rparr>\<rparr>"

definition MAX_MESSAGE :: u32 where
  "MAX_MESSAGE = 10 * 1024 * 1024"

definition client_receiveMessage :: "endian \<Rightarrow> Client \<Rightarrow> (exn + byte list) \<times> Client" where
  "client_receiveMessage e c =
     (if \<not> connected c then (Inl (Runtime_error ''Not connected to any peer''), c)
      else
        let (hdr, es1) = recv_waitall 4 (rx (sock c))
        in if length hdr \<noteq> 4
           then (Inl (Runtime_error ''Failed to receive message length''), set_rx es1 c)
           else
             let len = ntohl e (load32 e hdr)
             in if MAX_MESSAGE < len then (Inl (Runtime_error ''Message too large''), set_rx es1 c)
                else
                  case recv_loop (unat len) [] es1 of
                    (Some message, es2) \<Rightarrow> (Inr message, set_rx es2 c)
                  | (None, es2) \<Rightarrow>
                      (Inl (Runtime_error ''Failed to receive message data''), set_rx es2 c))"

section \<open>Requests\<close>

definition requestPeerList :: "endian \<Rightarrow> Client \<Rightarrow> (exn + string list) \<times> Client" where
  "requestPeerList e c =
     (case client_sendMessage e PEER_LIST_REQUEST [] c of
        (Inl err, c1) \<Rightarrow> (Inl err, c1)
      | (Inr _, c1) \<Rightarrow>
          (case client_receiveMessage e c1 of
             (Inl err, c2) \<Rightarrow> (Inl err, c2)
           | (Inr response, c2) \<Rightarrow>
               (if response = [] \<or> hd response \<noteq> type_byte PEER_LIST_RESPONSE
                then (Inl (Runtime_error ''Invalid peer list response''), c2)
                else (Inr (filter (\<lambda>line. line \<noteq> []) (getlines CHR 0x0A (to_string (tl response)))),
                      c2))))"

text \<open>One line of a file list: the three calls of \<open>getline\<close>, joined by \<open>&&\<close>, and the
  conversion whose exception is caught and reported.\<close>

definition parse_file_line :: "string \<Rightarrow> FileInfo option" where
  "parse_file_line line =
     (case getline CHR ''|'' line of
        None \<Rightarrow> None
      | Some (name, s1) \<Rightarrow>
          (case getline CHR ''|'' s1 of
             None \<Rightarrow> None
           | Some (size_str, s2) \<Rightarrow>
               (case getline CHR 0x0A s2 of
                  None \<Rightarrow> None
                | Some (h, s3) \<Rightarrow>
                    (case stoul ''stoull'' size_str of
                       Inl _ \<Rightarrow> None
                     | Inr w \<Rightarrow> Some (mkFileInfo name [] w h 0)))))"

definition requestFileList :: "endian \<Rightarrow> string \<Rightarrow> Client \<Rightarrow> (exn + FileInfo list) \<times> Client" where
  "requestFileList e peer c =
     (case client_sendMessage e FILE_LIST_REQUEST (to_bytes peer) c of
        (Inl err, c1) \<Rightarrow> (Inl err, c1)
      | (Inr _, c1) \<Rightarrow>
          (case client_receiveMessage e c1 of
             (Inl err, c2) \<Rightarrow> (Inl err, c2)
           | (Inr response, c2) \<Rightarrow>
               (if response = [] \<or> hd response \<noteq> type_byte FILE_LIST_RESPONSE
                then (Inl (Runtime_error ''Invalid file list response''), c2)
                else (Inr (List.map_filter parse_file_line
                        (filter (\<lambda>line. line \<noteq> [])
                          (getlines CHR 0x0A (to_string (tl response))))),
                      c2))))"

section \<open>Downloading\<close>

text \<open>What \<open>std::ofstream\<close> can do at a path: not create the file, or create it and then hold all
  that is written or only the first bytes. A failed write leaves the stream bad and the code
  never looks, so whatever is written after it is dropped as well.\<close>

datatype dest_file = Cannot_create | Unbounded | Bounded nat

fun stored :: "dest_file \<Rightarrow> byte list \<Rightarrow> byte list" where
  "stored (Bounded n) bs = take n bs"
| "stored Unbounded bs = bs"
| "stored Cannot_create bs = bs"

lemma stored_Nil [simp]: "stored out [] = []"
  by (cases out) simp_all

lemma stored_stored [simp]: "stored out (stored out xs @ ys) = stored out (xs @ ys)"
  by (cases out) (simp_all add: min_def)

lemma stored_idem [simp]: "stored out (stored out xs) = stored out xs"
  by (cases out) simp_all

definition set_progress :: "string \<Rightarrow> DownloadProgress \<Rightarrow> Client \<Rightarrow> Client" where
  "set_progress name p c = c\<lparr>active_downloads := table_put name p (active_downloads c)\<rparr>"

text \<open>The handler of the exceptions of a download: it marks the progress object and returns
  \<open>false\<close>.\<close>

definition download_failed ::
  "string \<Rightarrow> DownloadProgress \<Rightarrow> exn \<Rightarrow> Client \<Rightarrow> disk \<Rightarrow> bool \<times> Client \<times> disk" where
  "download_failed name p err c d =
     (False, set_progress name (p\<lparr>failed := True, error_message := what err\<rparr>) c, d)"

lemma rx_size_receive:
  "client_receiveMessage e c = (Inr msg, c') \<Longrightarrow> rx_size (rx (sock c')) < rx_size (rx (sock c))"
  by (auto simp: client_receiveMessage_def recv_loop_waitall Let_def set_rx_def
      dest!: rx_size_recv_waitall split: if_splits prod.splits)

text \<open>The local variables of a download; \<open>readings\<close> counts the readings of the clock.\<close>

record dl_vars =
  total_downloaded :: u64
  last_update :: int
  readings :: nat

text \<open>\<open>(total_downloaded / 1024.0 / 1024.0) / total_elapsed.count()\<close>\<close>

definition mbps :: "u64 \<Rightarrow> int \<Rightarrow> double" where
  "mbps downloaded seconds =
     fdiv (fdiv (fdiv (double_of downloaded) 1024) 1024) (fl (of_int seconds))"

text \<open>The case of a chunk of \<open>n\<close> bytes: the counters, and the speed at most once a second.\<close>

definition chunk_received ::
  "(nat \<Rightarrow> int) \<Rightarrow> u64 \<Rightarrow> dl_vars \<Rightarrow> DownloadProgress \<Rightarrow> dl_vars \<times> DownloadProgress" where
  "chunk_received clk n v p =
     (let downloaded = total_downloaded v + n;
          now = clk (readings v);
          v1 = v\<lparr>total_downloaded := downloaded, readings := Suc (readings v)\<rparr>;
          p1 = p\<lparr>downloaded_size := downloaded\<rparr>
      in if (now - last_update v) div 1000000 > 1000 then
           (let seconds = (now - start_time p) div 1000000000
            in (v1\<lparr>last_update := now\<rparr>,
                if seconds > 0 then p1\<lparr>speed_mbps := mbps downloaded seconds\<rparr> else p1))
         else (v1, p1))"

text \<open>The receiving loop over a script of the network, which ends: the peer goes silent or closes. The
  progress object is the entry of the table, rewritten when the code assigns to it. What the
  loop does with messages that never end is \<open>download_messages\<close> below.\<close>

function download_loop ::
  "endian \<Rightarrow> (nat \<Rightarrow> int) \<Rightarrow> dest_file \<Rightarrow> string \<Rightarrow> string \<Rightarrow> dl_vars \<Rightarrow> DownloadProgress \<Rightarrow> Client \<Rightarrow>
   disk \<Rightarrow> bool \<times> Client \<times> disk" where
  "download_loop e clk out name dest v p c d =
     (case client_receiveMessage e c of
        (Inl err, c1) \<Rightarrow> download_failed name p err c1 d
      | (Inr [], c1) \<Rightarrow> (False, c1, d)
      | (Inr (b # data), c1) \<Rightarrow>
          (case byte_type b of
             FILE_CHUNK \<Rightarrow>
               (let (v', p') = chunk_received clk (vsize data) v p
                in download_loop e clk out name dest v' p' (set_progress name p' c1)
                     (d(dest \<mapsto> stored out (the (d dest) @ data))))
           | FILE_COMPLETE \<Rightarrow>
               (True,
                set_progress name (p\<lparr>completed := True, total_size := total_downloaded v\<rparr>) c1, d)
           | ERROR_MESSAGE \<Rightarrow>
               (let msg = to_string data
                in download_failed name (p\<lparr>failed := True, error_message := msg\<rparr>)
                     (Runtime_error (''Server error: '' @ msg)) c1 d)
           | _ \<Rightarrow> download_loop e clk out name dest v p c1 d))"
  by pat_completeness auto
termination
  by (relation "measure (\<lambda>(e, clk, out, name, dest, v, p, c, d). rx_size (rx (sock c)))")
    (auto dest!: rx_size_receive [OF sym] simp: set_progress_def)

declare download_loop.simps [simp del]

text \<open>\<open>std::make_shared\<close> sets every field to zero before the code assigns its own.\<close>

definition new_progress :: "int \<Rightarrow> string \<Rightarrow> DownloadProgress" where
  "new_progress now name =
     \<lparr>dl_filename = name, total_size = 0, downloaded_size = 0, speed_mbps = 0, start_time = now,
      completed = False, failed = False, error_message = []\<rparr>"

definition dl_start :: "(nat \<Rightarrow> int) \<Rightarrow> dl_vars" where
  "dl_start clk = \<lparr>total_downloaded = 0, last_update = clk 1, readings = 2\<rparr>"

definition downloadFile ::
  "endian \<Rightarrow> (nat \<Rightarrow> int) \<Rightarrow> (string \<Rightarrow> dest_file) \<Rightarrow> string \<Rightarrow> string \<Rightarrow> Client \<Rightarrow> disk \<Rightarrow>
   bool \<times> Client \<times> disk" where
  "downloadFile e clk opens name dest c d =
     (let p = new_progress (clk 0) name;
          c0 = set_progress name p c
      in case client_sendMessage e FILE_REQUEST (to_bytes name) c0 of
           (Inl err, c1) \<Rightarrow> download_failed name p err c1 d
         | (Inr _, c1) \<Rightarrow>
             (if opens dest = Cannot_create
              then download_failed name p
                     (Runtime_error (''Cannot create destination file: '' @ dest)) c1 d
              else download_loop e clk (opens dest) name dest
                     (dl_start clk) p c1
                     (d(dest \<mapsto> []))))"

text \<open>The same loop over whatever its calls of \<open>receiveMessage\<close> do: \<open>ms n\<close> is the outcome of the \<open>n\<close>-th,
  an exception, a message, or \<open>None\<close> for a call that never returns. The result is \<open>None\<close> when the
  loop does not end.\<close>

partial_function (option) download_messages ::
  "(nat \<Rightarrow> (exn + byte list) option) \<Rightarrow> (nat \<Rightarrow> int) \<Rightarrow> dest_file \<Rightarrow> string \<Rightarrow> string \<Rightarrow> nat \<Rightarrow> dl_vars \<Rightarrow>
   DownloadProgress \<Rightarrow> disk \<Rightarrow> (bool \<times> DownloadProgress \<times> disk) option" where
  "download_messages ms clk out name dest n v p d =
     (case ms n of
        None \<Rightarrow> None
      | Some (Inl err) \<Rightarrow> Some (False, p\<lparr>failed := True, error_message := what err\<rparr>, d)
      | Some (Inr []) \<Rightarrow> Some (False, p, d)
      | Some (Inr (b # data)) \<Rightarrow>
          (if byte_type b = FILE_CHUNK then
             download_messages ms clk out name dest (Suc n)
               (fst (chunk_received clk (vsize data) v p)) (snd (chunk_received clk (vsize data) v p))
               (d(dest \<mapsto> stored out (the (d dest) @ data)))
           else if byte_type b = FILE_COMPLETE then
             Some (True, p\<lparr>completed := True, total_size := total_downloaded v\<rparr>, d)
           else if byte_type b = ERROR_MESSAGE then
             Some (False, p\<lparr>failed := True,
               error_message := what (Runtime_error (''Server error: '' @ to_string data))\<rparr>, d)
           else download_messages ms clk out name dest (Suc n) v p d))"

text \<open>\<open>downloadFile\<close> over the outcomes of its receives; the client as it is after the request.\<close>

definition download_stream ::
  "endian \<Rightarrow> (nat \<Rightarrow> (exn + byte list) option) \<Rightarrow> (nat \<Rightarrow> int) \<Rightarrow> (string \<Rightarrow> dest_file) \<Rightarrow> string \<Rightarrow> string \<Rightarrow>
   Client \<Rightarrow> disk \<Rightarrow> (bool \<times> Client \<times> disk) option" where
  "download_stream e ms clk opens name dest c d =
     (let p = new_progress (clk 0) name;
          c0 = set_progress name p c
      in case client_sendMessage e FILE_REQUEST (to_bytes name) c0 of
           (Inl err, c1) \<Rightarrow> Some (download_failed name p err c1 d)
         | (Inr _, c1) \<Rightarrow>
             (if opens dest = Cannot_create
              then Some (download_failed name p
                     (Runtime_error (''Cannot create destination file: '' @ dest)) c1 d)
              else
                case download_messages ms clk (opens dest) name dest 0 (dl_start clk) p (d(dest \<mapsto> [])) of
                  None \<Rightarrow> None
                | Some (result, q, d') \<Rightarrow> Some (result, set_progress name q c1, d')))"

text \<open>A fresh client is connected, used and destroyed; the object itself is not touched.\<close>

definition downloadFileFromPeer ::
  "endian \<Rightarrow> (nat \<Rightarrow> int) \<Rightarrow> (string \<Rightarrow> dest_file) \<Rightarrow> dialer \<Rightarrow> int \<Rightarrow> string \<Rightarrow> string \<Rightarrow> int \<Rightarrow> string \<Rightarrow>
   Client \<Rightarrow> disk \<Rightarrow> bool \<times> Client \<times> disk" where
  "downloadFileFromPeer e clk opens dial fd name address port dest c d =
     (case client_connect dial fd address port new_Client of
        (False, peer_client) \<Rightarrow> (False, c, d)
      | (True, peer_client) \<Rightarrow>
          (let (result, peer_client', d') = downloadFile e clk opens name dest peer_client d
           in (result, c, d')))"

definition getDownloadProgress :: "string \<Rightarrow> Client \<Rightarrow> DownloadProgress option" where
  "getDownloadProgress name c = table_find name (active_downloads c)"

definition getAllDownloads :: "Client \<Rightarrow> DownloadProgress list" where
  "getAllDownloads c = table_values (active_downloads c)"

definition sendPing :: "endian \<Rightarrow> Client \<Rightarrow> (exn + unit) \<times> Client" where
  "sendPing e c = client_sendMessage e PING [] c"

definition sendPong :: "endian \<Rightarrow> Client \<Rightarrow> bool \<times> Client" where
  "sendPong e c =
     (case client_sendMessage e PONG [] c of
        (Inl err, c1) \<Rightarrow> (False, c1)
      | (Inr _, c1) \<Rightarrow> (True, c1))"

section \<open>Well-formed clients\<close>

definition client_wf :: "Client \<Rightarrow> bool" where
  "client_wf c \<longleftrightarrow>
     (connected c \<longleftrightarrow> 0 \<le> socket_fd c) \<and>
     open_fds c = (if connected c then [socket_fd c] else []) \<and>
     (\<not> connected c \<longrightarrow> remote_address c = [] \<and> remote_port c = 0) \<and>
     table_ok (active_downloads c)"

lemma client_wf_new: "client_wf new_Client"
  by (simp add: client_wf_def new_Client_def)

lemma client_wf_disconnect: "client_wf c \<Longrightarrow> client_wf (disconnect c)"
  by (auto simp: client_wf_def disconnect_def closeSocket_def Let_def)

lemma disconnect_not_connected [simp]: "\<not> connected (disconnect c)"
  by (simp add: disconnect_def closeSocket_def Let_def)

lemma client_wf_connect:
  assumes "client_wf c"
  shows "client_wf (snd (client_connect dial fd address port c))"
proof -
  define c0 where "c0 = (if connected c then disconnect c else c)"
  have "client_wf c0" and "\<not> connected c0"
    using assms client_wf_disconnect by (auto simp: c0_def)
  then show ?thesis
    unfolding client_connect_def c0_def [symmetric]
    by (auto simp: client_wf_def createSocket_def closeSocket_def Let_def split: option.split)
qed

text \<open>The kernel's side of the socket and the table of downloads change freely.\<close>

lemma client_wf_sock [simp]: "client_wf (c\<lparr>sock := k\<rparr>) = client_wf c"
  by (simp add: client_wf_def)

lemma client_wf_set_rx [simp]: "client_wf (set_rx es c) = client_wf c"
  by (simp add: set_rx_def)

lemma client_wf_set_progress [simp]: "client_wf c \<Longrightarrow> client_wf (set_progress name p c)"
  by (simp add: client_wf_def set_progress_def tbl.ok_put)

lemma client_wf_send: "client_wf c \<Longrightarrow> client_wf (snd (client_sendMessage e t payload c))"
  by (simp add: client_sendMessage_def Let_def split: prod.split)

lemma client_wf_receive: "client_wf c \<Longrightarrow> client_wf (snd (client_receiveMessage e c))"
  by (simp add: client_receiveMessage_def Let_def split: prod.split option.split)

lemma client_wf_receive_eq: "client_receiveMessage e c = (r, c') \<Longrightarrow> client_wf c \<Longrightarrow> client_wf c'"
  using client_wf_receive [of c e] by simp

lemma client_wf_send_eq: "client_sendMessage e t payload c = (r, c') \<Longrightarrow> client_wf c \<Longrightarrow> client_wf c'"
  using client_wf_send [of c e t payload] by simp

text \<open>One turn of the download loop, case by case.\<close>

lemma download_loop_cases [case_names error silent chunk complete refused other]:
  obtains (error) err c1 where "client_receiveMessage e c = (Inl err, c1)"
      and "download_loop e clk out name dest v p c d = download_failed name p err c1 d"
  | (silent) c1 where "client_receiveMessage e c = (Inr [], c1)"
      and "download_loop e clk out name dest v p c d = (False, c1, d)"
  | (chunk) data c1 where
      "client_receiveMessage e c = (Inr (type_byte FILE_CHUNK # data), c1)"
      and "download_loop e clk out name dest v p c d =
        download_loop e clk out name dest (fst (chunk_received clk (vsize data) v p))
          (snd (chunk_received clk (vsize data) v p))
          (set_progress name (snd (chunk_received clk (vsize data) v p)) c1)
          (d(dest \<mapsto> stored out (the (d dest) @ data)))"
  | (complete) data c1 where
      "client_receiveMessage e c = (Inr (type_byte FILE_COMPLETE # data), c1)"
      and "download_loop e clk out name dest v p c d =
        (True, set_progress name (p\<lparr>completed := True, total_size := total_downloaded v\<rparr>) c1, d)"
  | (refused) data c1 where
      "client_receiveMessage e c = (Inr (type_byte ERROR_MESSAGE # data), c1)"
      and "download_loop e clk out name dest v p c d =
        download_failed name (p\<lparr>failed := True, error_message := to_string data\<rparr>)
          (Runtime_error (''Server error: '' @ to_string data)) c1 d"
  | (other) b data c1 where "client_receiveMessage e c = (Inr (b # data), c1)"
      and "byte_type b \<notin> {FILE_CHUNK, FILE_COMPLETE, ERROR_MESSAGE}"
      and "download_loop e clk out name dest v p c d = download_loop e clk out name dest v p c1 d"
proof -
  obtain r c1 where r: "client_receiveMessage e c = (r, c1)"
    by (cases "client_receiveMessage e c")
  consider err where "r = Inl err" | "r = Inr []" | b data where "r = Inr (b # data)"
    by (metis old.sum.exhaust list.exhaust)
  then show ?thesis
  proof cases
    case (3 b data)
    have b: "type_byte (byte_type b) = b"
      by simp
    show ?thesis
    proof (cases "byte_type b")
      case FILE_CHUNK
      with 3 r b chunk show ?thesis
        by (simp add: download_loop.simps [of e _ _ _ _ _ _ c] split_def Let_def)
    next
      case FILE_COMPLETE
      with 3 r b complete show ?thesis by (simp add: download_loop.simps [of e _ _ _ _ _ _ c])
    next
      case ERROR_MESSAGE
      with 3 r b refused show ?thesis by (simp add: download_loop.simps [of e _ _ _ _ _ _ c] Let_def)
    qed (use 3 r other in \<open>simp_all add: download_loop.simps [of e _ _ _ _ _ _ c]\<close>)
  qed (use r error silent in \<open>simp_all add: download_loop.simps [of e _ _ _ _ _ _ c]\<close>)
qed

lemma rx_size_set_progress [simp]: "sock (set_progress name p c) = sock c"
  by (simp add: set_progress_def)

lemma client_wf_download_loop:
  "client_wf c \<Longrightarrow> client_wf (fst (snd (download_loop e clk out name dest v p c d)))"
proof (induction "rx_size (rx (sock c))" arbitrary: v p c d rule: less_induct)
  case less
  note received = client_wf_receive_eq [OF _ less.prems] rx_size_receive
  show ?case
  proof (rule download_loop_cases [of e c clk out name dest v p d])
    fix data c1
    assume r: "client_receiveMessage e c = (Inr (type_byte FILE_CHUNK # data), c1)"
      and "download_loop e clk out name dest v p c d =
        download_loop e clk out name dest (fst (chunk_received clk (vsize data) v p))
          (snd (chunk_received clk (vsize data) v p))
          (set_progress name (snd (chunk_received clk (vsize data) v p)) c1)
          (d(dest \<mapsto> stored out (the (d dest) @ data)))"
    with received [OF r] show ?thesis
      using less.hyps by simp
  next
    fix b data c1
    assume r: "client_receiveMessage e c = (Inr (b # data), c1)"
      and "download_loop e clk out name dest v p c d = download_loop e clk out name dest v p c1 d"
    with received [OF r] show ?thesis
      using less.hyps by simp
  qed (use received in \<open>auto simp: download_failed_def\<close>)
qed

lemma client_wf_download:
  "client_wf c \<Longrightarrow> client_wf (fst (snd (downloadFile e clk opens name dest c d)))"
  by (auto simp: downloadFile_def Let_def download_failed_def
      intro!: client_wf_download_loop dest: client_wf_send_eq split: prod.split sum.split)

lemma client_wf_requestPeerList: "client_wf c \<Longrightarrow> client_wf (snd (requestPeerList e c))"
  by (auto simp: requestPeerList_def dest: client_wf_send_eq client_wf_receive_eq
      split: prod.split sum.split)

lemma client_wf_requestFileList: "client_wf c \<Longrightarrow> client_wf (snd (requestFileList e peer c))"
  by (auto simp: requestFileList_def dest: client_wf_send_eq client_wf_receive_eq
      split: prod.split sum.split)

text \<open>The states of a client that has been used through its public methods.\<close>

inductive client_reach :: "Client \<Rightarrow> bool" where
  new: "client_reach new_Client"
| connects: "client_reach c \<Longrightarrow> client_reach (snd (client_connect dial fd address port c))"
| disconnects: "client_reach c \<Longrightarrow> client_reach (disconnect c)"
| peers: "client_reach c \<Longrightarrow> client_reach (snd (requestPeerList e c))"
| files: "client_reach c \<Longrightarrow> client_reach (snd (requestFileList e peer c))"
| download: "client_reach c \<Longrightarrow>
    client_reach (fst (snd (downloadFile e clk opens name dest c d)))"
| ping: "client_reach c \<Longrightarrow> client_reach (snd (sendPing e c))"
| pong: "client_reach c \<Longrightarrow> client_reach (snd (sendPong e c))"

lemma client_reach_wf: "client_reach c \<Longrightarrow> client_wf c"
  by (induction rule: client_reach.induct)
    (auto simp: sendPing_def sendPong_def
      intro: client_wf_new client_wf_connect client_wf_disconnect client_wf_requestPeerList
        client_wf_requestFileList client_wf_download client_wf_send client_wf_send_eq
      split: prod.split sum.split)

section \<open>Frames\<close>

definition frame :: "MessageType \<Rightarrow> byte list \<Rightarrow> byte list" where
  "frame t payload =
     rev (le_bytes (word_of_nat (Suc (length payload)))) @ type_byte t # payload"

text \<open>What a frame is, read off the bytes of the stream alone.\<close>

definition parse_frame :: "byte list \<Rightarrow> exn + byte list \<times> byte list" where
  "parse_frame bs =
     (if length bs < 4 then Inl (Runtime_error ''Failed to receive message length'')
      else let n = unat (le_word (rev (take 4 bs)))
        in if 10485760 < n then Inl (Runtime_error ''Message too large'')
           else if length bs - 4 < n
           then Inl (Runtime_error ''Failed to receive message data'')
           else Inr (take n (drop 4 bs), drop (4 + n) bs))"

lemma MAX_MESSAGE_less: "MAX_MESSAGE < w \<longleftrightarrow> 10485760 < unat w"
  by (simp add: MAX_MESSAGE_def word_less_nat_alt)

lemma receive_parses_frame:
  assumes "connected c"
  shows "case parse_frame (pending (rx (sock c))) of
      Inl err \<Rightarrow> \<exists>es. client_receiveMessage e c = (Inl err, set_rx es c)
    | Inr (message, rest) \<Rightarrow>
        \<exists>es. client_receiveMessage e c = (Inr message, set_rx es c) \<and> pending es = rest"
proof -
  let ?s = "rx (sock c)"
  obtain hdr es1 where hdr: "recv_waitall 4 ?s = (hdr, es1)"
    by (cases "recv_waitall 4 ?s")
  show ?thesis
  proof (cases "length (pending ?s) < 4")
    case True
    then have "length hdr \<noteq> 4"
      using rx_source.get_length [of 4 ?s] hdr by simp
    with True assms hdr show ?thesis
      by (auto simp: parse_frame_def client_receiveMessage_def)
  next
    case False
    then have h: "hdr = take 4 (pending ?s)" and es1: "pending es1 = drop 4 (pending ?s)"
      using rx_source.get_enough [of 4 ?s] hdr by auto
    with False have len: "length hdr = 4"
      by simp
    let ?n = "le_word (rev hdr)"
    obtain bs es2 where bs: "recv_waitall (unat ?n) es1 = (bs, es2)"
      by (cases "recv_waitall (unat ?n) es1")
    then have "length bs = unat ?n \<longleftrightarrow> unat ?n \<le> length (pending es1)"
      using rx_source.get_complete_iff [of "unat ?n" es1] by simp
    moreover have "unat ?n \<le> length (pending es1) \<Longrightarrow>
        bs = take (unat ?n) (pending es1) \<and> pending es2 = drop (unat ?n) (pending es1)"
      using rx_source.get_enough [of "unat ?n" es1] bs by simp
    ultimately show ?thesis
      using False assms hdr len bs
      by (auto simp: parse_frame_def client_receiveMessage_def ntohl_load32 MAX_MESSAGE_less
          recv_loop_waitall h [symmetric] es1 add.commute Let_def)
  qed
qed

lemma parse_frame_frame:
  assumes "Suc (length payload) \<le> 10485760"
  shows "parse_frame (frame t payload @ rest) = Inr (type_byte t # payload, rest)"
proof -
  have "unat (word_of_nat (Suc (length payload)) :: u32) = Suc (length payload)"
    using assms by (simp add: unat_of_nat take_bit_nat_eq_self del: of_nat_Suc)
  then show ?thesis
    using assms by (simp add: parse_frame_def frame_def Let_def del: of_nat_Suc)
qed

lemma receive_frame:
  assumes "connected c" and "pending (rx (sock c)) = frame t payload @ rest"
    and "Suc (length payload) \<le> 10485760"
  obtains es where "client_receiveMessage e c = (Inr (type_byte t # payload), set_rx es c)"
    and "pending es = rest"
  using receive_parses_frame [OF assms(1), of e] assms(2) parse_frame_frame [OF assms(3)] by auto

lemma send_writes_frame:
  assumes "connected c" and "client_sendMessage e t payload c = (r, c')"
  shows "\<exists>n \<le> length (frame t payload).
      tx (sock c') = tx (sock c) @ take n (frame t payload) \<and>
      (r = Inr () \<longrightarrow> n = length (frame t payload)) \<and>
      rx (sock c') = rx (sock c) \<and> c'\<lparr>sock := sock c\<rparr> = c"
proof -
  let ?hdr = "rev (le_bytes (word_of_nat (Suc (length payload))))"
  let ?body = "type_byte t # payload"
  obtain s k1 where s: "sock_send ?hdr (sock c) = (s, k1)"
    by (cases "sock_send ?hdr (sock c)")
  obtain ok k2 where k2: "send_all ?body k1 = (ok, k2)"
    by (cases "send_all ?body k1")
  have hdr: "mem32 e (htonl e (word_of_nat (length ?body))) = ?hdr"
    by (simp add: mem32_htonl)
  from s show ?thesis
  proof (cases rule: sock_send_cases)
    case (refused e')
    with assms s show ?thesis
      unfolding client_sendMessage_def Let_def hdr by (auto intro: exI [of _ 0])
  next
    case (sent m)
    show ?thesis
    proof (cases "s = Sent 4")
      case False
      with assms s sent show ?thesis
        unfolding client_sendMessage_def Let_def hdr
        by (auto simp: frame_def min_def simp del: of_nat_Suc split: if_splits
            intro!: exI [of _ "Suc m"])
    next
      case True
      with sent have "tx k1 = tx (sock c) @ ?hdr"
        by auto
      moreover obtain n where "n \<le> length ?body" "tx k2 = tx k1 @ take n ?body"
          "ok \<longrightarrow> n = length ?body" "rx k2 = rx k1"
        using send_all_effect [of ?body k1] k2 by (auto simp: send_effect_def)
      ultimately show ?thesis
        using True assms s sent k2 unfolding client_sendMessage_def Let_def hdr
        by (auto simp: frame_def simp del: of_nat_Suc split: if_splits intro!: exI [of _ "4 + n"])
    qed
  qed
qed

section \<open>Downloads\<close>

definition frames :: "(MessageType \<times> byte list) list \<Rightarrow> byte list" where
  "frames ms = concat (map (\<lambda>(t, payload). frame t payload) ms)"

definition chunk_data :: "(MessageType \<times> byte list) list \<Rightarrow> byte list" where
  "chunk_data ms = concat (map snd (filter (\<lambda>m. fst m = FILE_CHUNK) ms))"

text \<open>Messages that do not end a download and respect the size limit.\<close>

definition in_flight :: "(MessageType \<times> byte list) list \<Rightarrow> bool" where
  "in_flight ms \<longleftrightarrow>
     (\<forall>(t, payload) \<in> set ms. proper_type t \<and> t \<noteq> FILE_COMPLETE \<and> t \<noteq> ERROR_MESSAGE \<and>
        Suc (length payload) \<le> 10485760)"

lemma frames_simps [simp]: "frames [] = []" "frames ((t, x) # ms) = frame t x @ frames ms"
  by (simp_all add: frames_def)

lemma table_find_set_progress [simp]:
  "table_find name (active_downloads (set_progress name p c)) = Some p"
  by (simp add: set_progress_def tbl.find_put)

lemma set_rx_fields [simp]:
  "connected (set_rx es c) = connected c" "active_downloads (set_rx es c) = active_downloads c"
  "rx (sock (set_rx es c)) = es"
  by (simp_all add: set_rx_def)

lemma connected_set_progress [simp]: "connected (set_progress name p c) = connected c"
  by (simp add: set_progress_def)

text \<open>The state of the loop after part of the stream has been consumed.\<close>

definition downloading ::
  "string \<Rightarrow> DownloadProgress \<Rightarrow> byte list \<Rightarrow> Client \<Rightarrow> bool" where
  "downloading name p rest c \<longleftrightarrow>
     connected c \<and> pending (rx (sock c)) = rest \<and> table_find name (active_downloads c) = Some p"

lemma download_receive:
  assumes "downloading name p (frame t payload @ rest) c" and "Suc (length payload) \<le> 10485760"
  obtains c1 where "client_receiveMessage e c = (Inr (type_byte t # payload), c1)"
    and "downloading name p rest c1"
proof -
  obtain es where "client_receiveMessage e c = (Inr (type_byte t # payload), set_rx es c)"
      and "pending es = rest"
    using receive_frame [of c t payload rest e] assms by (auto simp: downloading_def)
  with that assms(1) show ?thesis
    by (simp add: downloading_def)
qed

text \<open>What a chunk leaves of the progress object.\<close>

definition progressed :: "DownloadProgress \<Rightarrow> DownloadProgress \<Rightarrow> bool" where
  "progressed p q \<longleftrightarrow> q = p\<lparr>downloaded_size := downloaded_size q, speed_mbps := speed_mbps q\<rparr>"

lemma progressed_refl [simp]: "progressed p p"
  by (simp add: progressed_def)

lemma progressed_trans [trans]: "progressed p q \<Longrightarrow> progressed q r \<Longrightarrow> progressed p r"
  unfolding progressed_def by (metis DownloadProgress.update_convs(3,4) DownloadProgress.surjective)

lemma progressed_fields:
  assumes "progressed p q"
  shows "dl_filename q = dl_filename p" "total_size q = total_size p" "start_time q = start_time p"
    "completed q = completed p" "failed q = failed p" "error_message q = error_message p"
  by (subst assms [unfolded progressed_def], simp)+

lemma chunk_received_fields:
  "total_downloaded (fst (chunk_received clk n v p)) = total_downloaded v + n"
  "downloaded_size (snd (chunk_received clk n v p)) = total_downloaded v + n"
  "progressed p (snd (chunk_received clk n v p))"
  by (simp_all add: chunk_received_def progressed_def Let_def)

lemma download_loop_in_flight:
  assumes "in_flight ms" and "downloading name p (frames ms @ rest) c"
    and "d dest = Some old" and "downloaded_size p = total_downloaded v" and "stored out old = old"
  shows "\<exists>c' v' p'. total_downloaded v' = total_downloaded v + vsize (chunk_data ms) \<and>
    downloaded_size p' = total_downloaded v' \<and> progressed p p' \<and>
    download_loop e clk out name dest v p c d =
      download_loop e clk out name dest v' p' c' (d(dest \<mapsto> stored out (old @ chunk_data ms))) \<and>
    downloading name p' rest c'"
  using assms
proof (induction ms arbitrary: c p v d old)
  case Nil
  then have "d(dest \<mapsto> old) = d"
    by auto
  with Nil show ?case
    by (intro exI [of _ c] exI [of _ v] exI [of _ p]) (simp add: chunk_data_def vsize_def)
next
  case (Cons m ms)
  obtain t payload where m: "m = (t, payload)"
    by (cases m)
  have small: "Suc (length payload) \<le> 10485760" and t: "proper_type t" "t \<noteq> FILE_COMPLETE"
      "t \<noteq> ERROR_MESSAGE" and ms: "in_flight ms"
    using Cons.prems(1) by (auto simp: m in_flight_def)
  obtain c1 where r: "client_receiveMessage e c = (Inr (type_byte t # payload), c1)"
      and c1: "downloading name p (frames ms @ rest) c1"
    using download_receive [of name p t payload "frames ms @ rest" c e] small Cons.prems(2)
    by (auto simp: m)
  show ?case
  proof (cases "t = FILE_CHUNK")
    case True
    obtain v1 p1 where q: "chunk_received clk (vsize payload) v p = (v1, p1)"
      by (cases "chunk_received clk (vsize payload) v p")
    note f = chunk_received_fields [where clk = clk and n = "vsize payload" and v = v and p = p, unfolded q,
      simplified]
    have "downloading name p1 (frames ms @ rest) (set_progress name p1 c1)"
      using c1 by (simp add: downloading_def)
    from Cons.IH [OF ms this, of "d(dest \<mapsto> stored out (old @ payload))" "stored out (old @ payload)" v1]
    obtain c' v' p' where "total_downloaded v' = total_downloaded v1 + vsize (chunk_data ms)"
        "downloaded_size p' = total_downloaded v'" "progressed p1 p'" "downloading name p' rest c'"
        "download_loop e clk out name dest v1 p1 (set_progress name p1 c1)
           (d(dest \<mapsto> stored out (old @ payload))) =
         download_loop e clk out name dest v' p' c'
           (d(dest \<mapsto> stored out (old @ payload @ chunk_data ms)))"
      using f by (auto simp del: fun_upd_apply simp add: fun_upd_same)
    then show ?thesis
      using True r Cons.prems(3) f progressed_trans [OF f(3)]
      by (intro exI [of _ c'] exI [of _ v'] exI [of _ p'])
        (simp add: m chunk_data_def vsize_append add.assoc download_loop.simps [of e _ _ _ _ _ _ c]
          byte_type_def q del: fun_upd_apply add: fun_upd_same)
  next
    case False
    with r t have "download_loop e clk out name dest v p c d = download_loop e clk out name dest v p c1 d"
      using byte_type_type_byte [OF t(1)]
      by (subst download_loop.simps) (simp split: MessageType.split)
    with Cons.IH [where d = d and old = old, OF ms c1 Cons.prems(3-5)] False show ?thesis
      by (simp add: m chunk_data_def)
  qed
qed

lemma download_from_start:
  assumes "in_flight ms" and "downloading name (new_progress now name) (frames ms @ rest) c"
  shows "\<exists>c' v q. total_downloaded v = vsize (chunk_data ms) \<and>
    downloaded_size q = total_downloaded v \<and> progressed (new_progress now name) q \<and>
    download_loop e clk out name dest (dl_start clk) (new_progress now name) c (d(dest \<mapsto> [])) =
      download_loop e clk out name dest v q c' (d(dest \<mapsto> stored out (chunk_data ms))) \<and>
    downloading name q rest c'"
  using download_loop_in_flight [OF assms, of "d(dest \<mapsto> [])" dest "[]" "dl_start clk" out e clk]
  by (simp add: new_progress_def dl_start_def)

text \<open>The beginning of a download whose request can be sent and whose file can be created.\<close>

lemma client_send_set_progress [simp]:
  "fst (client_sendMessage e t x (set_progress n p c)) = fst (client_sendMessage e t x c)"
  by (simp add: client_sendMessage_def Let_def split: prod.split)

lemma downloadFile_starts:
  assumes "connected c" and "fst (client_sendMessage e FILE_REQUEST (to_bytes name) c) = Inr ()"
    and "opens dest \<noteq> Cannot_create"
  obtains c1 where "downloadFile e clk opens name dest c d =
      download_loop e clk (opens dest) name dest (dl_start clk) (new_progress (clk 0) name) c1
        (d(dest \<mapsto> []))"
    and "downloading name (new_progress (clk 0) name) (pending (rx (sock c))) c1"
proof -
  let ?c0 = "set_progress name (new_progress (clk 0) name) c"
  obtain c1 where r: "client_sendMessage e FILE_REQUEST (to_bytes name) ?c0 = (Inr (), c1)"
    using assms(2) client_send_set_progress [of e FILE_REQUEST "to_bytes name" name _ c]
    by (metis prod.collapse)
  then have rx: "rx (sock c1) = rx (sock c)" and c1: "c1\<lparr>sock := sock ?c0\<rparr> = ?c0"
    using send_writes_frame [OF _ r] assms(1) by auto
  have "active_downloads c1 = active_downloads ?c0" and "connected c1"
    using arg_cong [OF c1, of active_downloads] arg_cong [OF c1, of connected] assms(1)
    by simp_all
  with rx r assms(3) that show ?thesis
    by (simp add: downloadFile_def Let_def downloading_def)
qed

lemma downloading_progress: "downloading name p rest c \<Longrightarrow> getDownloadProgress name c = Some p"
  by (simp add: downloading_def getDownloadProgress_def)

text \<open>A request is sent whole over a connection whose kernel takes the length in one call.\<close>

lemma client_send_ok:
  assumes "connected c" and "willing (sock c)"
    and "answers (sock c) (calls (sock c)) = Accept m" and "3 \<le> m"
  shows "fst (client_sendMessage e t payload c) = Inr ()"
proof -
  let ?hdr = "mem32 e (htonl e (word_of_nat (length (type_byte t # payload))))"
  obtain s k1 where s: "sock_send ?hdr (sock c) = (s, k1)"
    by (cases "sock_send ?hdr (sock c)")
  with assms have "s = Sent 4" and "willing k1"
    by (auto simp: willing_def elim!: sock_send_cases)
  with s assms(1) send_all_willing [of k1 "type_byte t # payload"] show ?thesis
    by (auto simp: client_sendMessage_def Let_def split: prod.split)
qed

text \<open>A download whose frames all arrive.\<close>

lemma download_in_full:
  assumes "connected c" and "opens dest \<noteq> Cannot_create" and "in_flight ms"
    and "fst (client_sendMessage e FILE_REQUEST (to_bytes name) c) = Inr ()"
    and "pending (rx (sock c)) = frames ms @ frame FILE_COMPLETE [] @ rest"
  shows "\<exists>c' q. downloadFile e clk opens name dest c d =
      (True, c', d(dest \<mapsto> stored (opens dest) (chunk_data ms))) \<and>
    getDownloadProgress name c' = Some q \<and>
    q = (new_progress (clk 0) name)\<lparr>completed := True, total_size := vsize (chunk_data ms),
      downloaded_size := vsize (chunk_data ms), speed_mbps := speed_mbps q\<rparr> \<and>
    pending (rx (sock c')) = rest"
proof -
  let ?p = "new_progress (clk 0) name"
  obtain c1 where start: "downloadFile e clk opens name dest c d =
      download_loop e clk (opens dest) name dest (dl_start clk) ?p c1 (d(dest \<mapsto> []))"
    and c1: "downloading name ?p (frames ms @ frame FILE_COMPLETE [] @ rest) c1"
    using downloadFile_starts assms(1,2,4,5) by metis
  obtain c2 v q where "total_downloaded v = vsize (chunk_data ms)"
    and "downloaded_size q = total_downloaded v" and "progressed ?p q"
    and loop: "download_loop e clk (opens dest) name dest (dl_start clk) ?p c1 (d(dest \<mapsto> [])) =
      download_loop e clk (opens dest) name dest v q c2
        (d(dest \<mapsto> stored (opens dest) (chunk_data ms)))"
    and c2: "downloading name q (frame FILE_COMPLETE [] @ rest) c2"
    using download_from_start [OF assms(3) c1] by metis
  then have q: "q = ?p\<lparr>downloaded_size := vsize (chunk_data ms), speed_mbps := speed_mbps q\<rparr>"
      "total_downloaded v = vsize (chunk_data ms)"
    by (simp_all add: progressed_def)
  obtain c3 where "client_receiveMessage e c2 = (Inr [type_byte FILE_COMPLETE], c3)"
      and "downloading name q rest c3"
    using download_receive [OF c2, of e] by auto
  with q(2) show ?thesis
    unfolding start loop
    by (subst q(1), subst q(1)) (simp add: download_loop.simps [of e _ _ _ _ _ _ c2] byte_type_def
        getDownloadProgress_def downloading_def)
qed

text \<open>A connected client for the examples.\<close>

definition client_on :: "rx_event list \<Rightarrow> Client" where
  "client_on es =
     new_Client\<lparr>socket_fd := 5, remote_address := ''127.0.0.1'', remote_port := 8888,
       connected := True, sock := calm es, open_fds := [5]\<rparr>"

lemma client_on_fields [simp]:
  "connected (client_on es)" "rx (sock (client_on es)) = es" "tx (sock (client_on es)) = []"
  "willing (sock (client_on es))" "willing (sock (set_progress name p (client_on es)))"
  by (simp_all add: client_on_def)

lemma client_on_send [simp]:
  "fst (client_sendMessage e t payload (client_on es)) = Inr ()"
  "fst (client_sendMessage e t payload (set_progress name p (client_on es))) = Inr ()"
  by (rule client_send_ok [where m = 100000],
      simp_all add: client_on_def calm_def willing_def new_Client_def)+

lemma client_on_connect [simp]:
  "client_connect (\<lambda>_ _. Some (calm es)) 5 ''127.0.0.1'' 8888 new_Client = (True, client_on es)"
proof -
  have "inet_pton (c_str ''127.0.0.1'')"
    by (simp add: inet_pton_def c_str_def octet_def number_def is_digit_def digit_value_def)
  moreover have "c_str ''127.0.0.1'' = ''127.0.0.1''"
    by (simp add: c_str_def)
  ultimately show ?thesis
    by (simp add: client_connect_def createSocket_def new_Client_def client_on_def)
qed

lemma client_on_reach: "client_reach (client_on es)"
  by (metis client_on_connect client_reach.intros(1,2) snd_conv)

section \<open>Properties\<close>

text \<open>
  C12. A client that has been used through its public methods, in any order and against any
  network, never leaks a descriptor: it holds exactly one open descriptor when it is
  connected and none otherwise, and a client that is not connected has no remote address.
\<close>

theorem client_no_descriptor_leak:
  assumes "client_reach c"
  shows "open_fds c = (if connected c then [socket_fd c] else []) \<and>
    (connected c \<longleftrightarrow> 0 \<le> socket_fd c) \<and>
    (\<not> connected c \<longrightarrow> remote_address c = [] \<and> remote_port c = 0)"
  using client_reach_wf [OF assms] by (simp add: client_wf_def)

theorem client_no_descriptor_leak_witness:
  "open_fds (snd (client_connect (\<lambda>_ _. Some (calm [])) (-1) ''127.0.0.1'' 9 new_Client)) = []"
  using client_no_descriptor_leak [OF connects [OF new], of "\<lambda>_ _. Some (calm [])" "-1" "''127.0.0.1''" 9]
  by (simp add: client_connect_def createSocket_def new_Client_def)

text \<open>
  \<open>sendMessage\<close> writes one frame (length, type, payload) or throws; in both cases what
  the kernel has taken is a prefix of that frame, it is the whole frame when the call
  returns, and nothing else of the object changes. This holds for every way in which the
  kernel takes the bytes in pieces or fails.
\<close>

theorem client_sends_frames:
  assumes "connected c" and "client_sendMessage e t payload c = (r, c')"
  shows "\<exists>n \<le> length (frame t payload).
      tx (sock c') = tx (sock c) @ take n (frame t payload) \<and>
      (r = Inr () \<longrightarrow> n = length (frame t payload)) \<and>
      rx (sock c') = rx (sock c) \<and> c'\<lparr>sock := sock c\<rparr> = c"
  using assms by (rule send_writes_frame)

theorem client_sends_frames_witness:
  "tx (sock (snd (client_sendMessage LittleEndian FILE_REQUEST [97, 98] (client_on [])))) =
   [0, 0, 0, 3, 5, 97, 98]"
proof -
  obtain r c' where r: "client_sendMessage LittleEndian FILE_REQUEST [97, 98] (client_on []) = (r, c')"
    by (cases "client_sendMessage LittleEndian FILE_REQUEST [97, 98] (client_on [])")
  then have "r = Inr ()"
    using client_on_send(1) [of LittleEndian FILE_REQUEST "[97, 98]" "[]"] by simp
  with client_sends_frames [OF _ r] r show ?thesis
    by (auto simp: frame_def le_bytes_def)
qed

text \<open>
  C10. \<open>receiveMessage\<close> depends only on the bytes of the stream, not on how they are split
  into segments nor on the byte order of the host: it returns the first frame and leaves
  the rest, or throws the exception for a missing length, a length over 10 MiB, or a frame
  that is cut short.
\<close>

theorem client_receive_refines_parse_frame:
  assumes "connected c"
  shows "case parse_frame (pending (rx (sock c))) of
      Inl err \<Rightarrow> \<exists>es. client_receiveMessage e c = (Inl err, set_rx es c)
    | Inr (message, rest) \<Rightarrow>
        \<exists>es. client_receiveMessage e c = (Inr message, set_rx es c) \<and> pending es = rest"
  using assms by (rule receive_parses_frame)

theorem client_receive_refines_parse_frame_witness:
  "\<exists>es. client_receiveMessage BigEndian
      (client_on [Data [0, 0], Data [], Data [0, 2, 10], Data [7, 0, 0], Eof]) =
    (Inr [10, 7], set_rx es (client_on [Data [0, 0], Data [], Data [0, 2, 10], Data [7, 0, 0], Eof])) \<and>
    pending es = [0, 0]"
  using client_receive_refines_parse_frame
      [of "client_on [Data [0, 0], Data [], Data [0, 2, 10], Data [7, 0, 0], Eof]" BigEndian]
  by (simp add: parse_frame_def Let_def)

text \<open>
  Two ends that both use this framing understand each other: whatever frames are on the
  wire, \<open>receiveMessage\<close> returns the next message, type byte first, provided type and payload
  together do not exceed 10 MiB.
\<close>

theorem client_framing_roundtrip:
  assumes "connected c" and "pending (rx (sock c)) = frame t payload @ rest"
    and "Suc (length payload) \<le> 10 * 1024 * 1024"
  shows "\<exists>es. client_receiveMessage e c = (Inr (type_byte t # payload), set_rx es c) \<and>
    pending es = rest"
proof -
  have "Suc (length payload) \<le> 10485760"
    using assms(3) by simp
  with assms(1,2) show ?thesis
    by (metis receive_frame)
qed

theorem client_framing_roundtrip_witness:
  "\<exists>es. client_receiveMessage LittleEndian (client_on [Data (frame PONG []), Data [1]]) =
    (Inr [10], set_rx es (client_on [Data (frame PONG []), Data [1]])) \<and> pending es = [1]"
  using client_framing_roundtrip [of "client_on [Data (frame PONG []), Data [1]]" PONG "[]" "[1]" LittleEndian]
  by simp

text \<open>
  C9. A download succeeds when the server's frames arrive: the destination file then holds
  the concatenation of the chunks in order (messages of other types are skipped), no other
  file is touched, the progress object is complete with the right sizes, and the bytes after
  the final frame stay unread. When the file cannot hold all of it, the same is reported and
  the file has the first part only.
\<close>

theorem download_gets_the_chunks:
  assumes "connected c" and "opens dest \<noteq> Cannot_create" and "in_flight ms"
    and "fst (client_sendMessage e FILE_REQUEST (to_bytes name) c) = Inr ()"
    and "pending (rx (sock c)) = frames ms @ frame FILE_COMPLETE [] @ rest"
  shows "\<exists>c' q. downloadFile e clk opens name dest c d =
      (True, c', d(dest \<mapsto> stored (opens dest) (chunk_data ms))) \<and>
    getDownloadProgress name c' = Some q \<and>
    q = (new_progress (clk 0) name)\<lparr>completed := True, total_size := vsize (chunk_data ms),
      downloaded_size := vsize (chunk_data ms), speed_mbps := speed_mbps q\<rparr> \<and>
    pending (rx (sock c')) = rest"
  using assms by (rule download_in_full)

theorem download_gets_the_chunks_witness:
  "(\<exists>c'. downloadFile LittleEndian (\<lambda>_. 0) (\<lambda>_. Unbounded) ''f'' ''/d/f''
      (client_on [Data (frame FILE_CHUNK [1, 2] @ frame PING []), Data (frame FILE_CHUNK [3]),
        Data (frame FILE_COMPLETE [])]) Map.empty = (True, c', [''/d/f'' \<mapsto> [1, 2, 3]])) \<and>
   (\<exists>c'. downloadFile LittleEndian (\<lambda>_. 0) (\<lambda>_. Bounded 2) ''f'' ''/d/f''
      (client_on [Data (frame FILE_CHUNK [1, 2] @ frame PING []), Data (frame FILE_CHUNK [3]),
        Data (frame FILE_COMPLETE [])]) Map.empty = (True, c', [''/d/f'' \<mapsto> [1, 2]]))"
  using download_gets_the_chunks
      [of "client_on [Data (frame FILE_CHUNK [1, 2] @ frame PING []), Data (frame FILE_CHUNK [3]),
          Data (frame FILE_COMPLETE [])]" "\<lambda>_. Unbounded" "''/d/f''"
        "[(FILE_CHUNK, [1, 2]), (PING, []), (FILE_CHUNK, [3])]" LittleEndian "''f''" "[]" "\<lambda>_. 0" Map.empty]
    download_gets_the_chunks
      [of "client_on [Data (frame FILE_CHUNK [1, 2] @ frame PING []), Data (frame FILE_CHUNK [3]),
          Data (frame FILE_COMPLETE [])]" "\<lambda>_. Bounded 2" "''/d/f''"
        "[(FILE_CHUNK, [1, 2]), (PING, []), (FILE_CHUNK, [3])]" LittleEndian "''f''" "[]" "\<lambda>_. 0" Map.empty]
  by (auto simp: in_flight_def chunk_data_def)

text \<open>
  When the server reports an error after some chunks, the download returns \<open>false\<close> and the
  progress object carries the server's text up to its first NUL; the chunks written so far stay in the
  destination file.
\<close>

theorem download_reports_server_error:
  assumes "connected c" and "opens dest \<noteq> Cannot_create" and "in_flight ms"
    and "fst (client_sendMessage e FILE_REQUEST (to_bytes name) c) = Inr ()"
    and "pending (rx (sock c)) = frames ms @ frame ERROR_MESSAGE (to_bytes msg) @ rest"
    and "Suc (length msg) \<le> 10485760"
  shows "\<exists>c' p. downloadFile e clk opens name dest c d = (False, c', d(dest \<mapsto> stored (opens dest) (chunk_data ms))) \<and>
    getDownloadProgress name c' = Some p \<and> failed p \<and> \<not> completed p \<and>
    error_message p = ''Server error: '' @ c_str msg"
proof -
  let ?p = "new_progress (clk 0) name"
  obtain c1 where start: "downloadFile e clk opens name dest c d =
      download_loop e clk (opens dest) name dest (dl_start clk) ?p c1 (d(dest \<mapsto> []))"
    and c1: "downloading name ?p (frames ms @ frame ERROR_MESSAGE (to_bytes msg) @ rest) c1"
    using downloadFile_starts assms(1,2,4,5) by metis
  obtain c2 v q where "progressed ?p q"
    and loop: "download_loop e clk (opens dest) name dest (dl_start clk) ?p c1 (d(dest \<mapsto> [])) =
      download_loop e clk (opens dest) name dest v q c2
        (d(dest \<mapsto> stored (opens dest) (chunk_data ms)))"
    and c2: "downloading name q (frame ERROR_MESSAGE (to_bytes msg) @ rest) c2"
    using download_from_start [OF assms(3) c1] by metis
  then have "\<not> completed q"
    by (simp add: progressed_fields new_progress_def)
  moreover obtain c3 where "client_receiveMessage e c2 =
      (Inr (type_byte ERROR_MESSAGE # to_bytes msg), c3)"
    using download_receive [OF c2, of e] assms(6) by auto
  ultimately show ?thesis
    unfolding start loop
    by (simp add: download_loop.simps [of e _ _ _ _ _ _ c2] byte_type_def getDownloadProgress_def
        download_failed_def c_str_def Let_def comp_def)
qed

theorem download_reports_server_error_witness:
  "\<exists>c' p. downloadFile LittleEndian (\<lambda>_. 0) (\<lambda>_. Unbounded) ''f'' ''/d/f''
      (client_on [Data (frame FILE_CHUNK [1, 2]), Data (frame ERROR_MESSAGE (to_bytes ''gone''))])
      Map.empty = (False, c', [''/d/f'' \<mapsto> [1, 2]]) \<and>
    getDownloadProgress ''f'' c' = Some p \<and> failed p \<and> error_message p = ''Server error: gone''"
  using download_reports_server_error
      [of "client_on [Data (frame FILE_CHUNK [1, 2]), Data (frame ERROR_MESSAGE (to_bytes ''gone''))]"
        "\<lambda>_. Unbounded" "''/d/f''" "[(FILE_CHUNK, [1, 2])]" LittleEndian "''f''" "''gone''" "[]" "\<lambda>_. 0" Map.empty]
  by (auto simp: in_flight_def chunk_data_def)

lemma client_send_downloads:
  "client_sendMessage e t payload c = (x, c1) \<Longrightarrow> active_downloads c1 = active_downloads c"
  by (auto simp: client_sendMessage_def Let_def split: if_splits prod.splits)

lemma download_loop_outcome:
  assumes "\<not> completed p" and "\<not> failed p" and "table_find name (active_downloads c) = Some p"
    and "download_loop e clk out name dest v p c d = (r, c', d')"
  shows "\<exists>q. getDownloadProgress name c' = Some q \<and> completed q = r \<and> \<not> (completed q \<and> failed q) \<and>
    (\<forall>f. f \<noteq> dest \<longrightarrow> d' f = d f)"
  using assms
proof (induction "rx_size (rx (sock c))" arbitrary: v p c d rule: less_induct)
  case less
  have keep: "active_downloads c1 = active_downloads c"
      if "client_receiveMessage e c = (x, c1)" for x c1
    using that by (auto simp: client_receiveMessage_def Let_def split: if_splits prod.splits option.splits)
  show ?case
  proof (rule download_loop_cases [of e c clk out name dest v p d])
    fix data :: "byte list" and c1
    let ?q = "chunk_received clk (vsize data) v p"
    assume r: "client_receiveMessage e c = (Inr (type_byte FILE_CHUNK # data), c1)"
      and "download_loop e clk out name dest v p c d =
        download_loop e clk out name dest (fst ?q) (snd ?q) (set_progress name (snd ?q) c1)
          (d(dest \<mapsto> stored out (the (d dest) @ data)))"
    with less.hyps [where c = "set_progress name (snd ?q) c1" and p = "snd ?q" and v = "fst ?q"
        and d = "d(dest \<mapsto> stored out (the (d dest) @ data))"]
      less.prems rx_size_receive [OF r] progressed_fields [OF chunk_received_fields(3)]
    show ?thesis by auto
  next
    fix b data c1
    assume r: "client_receiveMessage e c = (Inr (b # data), c1)"
      and "download_loop e clk out name dest v p c d = download_loop e clk out name dest v p c1 d"
    with less.hyps [where c = c1 and p = p and v = v and d = d] less.prems rx_size_receive [OF r] keep [OF r]
    show ?thesis by auto
  qed (use less.prems keep in
      \<open>auto simp: download_failed_def getDownloadProgress_def\<close>)
qed

text \<open>What the receives of a script amount to: \<open>download_messages\<close> on them is \<open>download_loop\<close> on the
  script.\<close>

definition received :: "endian \<Rightarrow> Client \<Rightarrow> nat \<Rightarrow> (exn + byte list) option" where
  "received e c n = Some (fst (client_receiveMessage e (((\<lambda>c. snd (client_receiveMessage e c)) ^^ n) c)))"

definition same_socket :: "Client \<Rightarrow> Client \<Rightarrow> bool" where
  "same_socket a b \<longleftrightarrow> sock a = sock b \<and> connected a = connected b"

lemma receive_same_socket:
  assumes "same_socket a b"
  shows "fst (client_receiveMessage e a) = fst (client_receiveMessage e b)"
    and "same_socket (snd (client_receiveMessage e a)) (snd (client_receiveMessage e b))"
  using assms by (simp_all add: same_socket_def client_receiveMessage_def set_rx_def Let_def
      split: prod.split option.split)

lemma download_loop_messages:
  assumes "same_socket c (((\<lambda>c. snd (client_receiveMessage e c)) ^^ n) base)"
    and "table_find name (active_downloads c) = Some p"
    and "download_loop e clk out name dest v p c d = (r, c', d')"
  shows "\<exists>q. download_messages (received e base) clk out name dest n v p d = Some (r, q, d') \<and>
    getDownloadProgress name c' = Some q"
  using assms
proof (induction "rx_size (rx (sock c))" arbitrary: n v p c d rule: less_induct)
  case less
  have keep: "active_downloads c1 = active_downloads c"
      if "client_receiveMessage e c = (x, c1)" for x c1
    using that by (auto simp: client_receiveMessage_def Let_def split: if_splits prod.splits option.splits)
  have n: "received e base n = Some x"
      "same_socket c1 (((\<lambda>c. snd (client_receiveMessage e c)) ^^ Suc n) base)"
      if "client_receiveMessage e c = (x, c1)" for x c1
    using receive_same_socket [OF less.prems(1), of e] that by (simp_all add: received_def)
  show ?case
  proof (rule download_loop_cases [of e c clk out name dest v p d])
    fix data :: "byte list" and c1
    let ?q = "chunk_received clk (vsize data) v p"
    assume r: "client_receiveMessage e c = (Inr (type_byte FILE_CHUNK # data), c1)"
      and "download_loop e clk out name dest v p c d =
        download_loop e clk out name dest (fst ?q) (snd ?q) (set_progress name (snd ?q) c1)
          (d(dest \<mapsto> stored out (the (d dest) @ data)))"
    with less.hyps [where c = "set_progress name (snd ?q) c1" and n = "Suc n" and p = "snd ?q" and v = "fst ?q"
        and d = "d(dest \<mapsto> stored out (the (d dest) @ data))"]
      less.prems rx_size_receive [OF r] n [OF r]
    show ?thesis
      by (subst download_messages.simps) (simp add: same_socket_def byte_type_def)
  next
    fix b data c1
    assume r: "client_receiveMessage e c = (Inr (b # data), c1)"
      and "byte_type b \<notin> {FILE_CHUNK, FILE_COMPLETE, ERROR_MESSAGE}"
      and "download_loop e clk out name dest v p c d = download_loop e clk out name dest v p c1 d"
    with less.hyps [where c = c1 and n = "Suc n" and p = p and v = v and d = d] less.prems
      rx_size_receive [OF r] keep [OF r] n [OF r]
    show ?thesis
      by (subst download_messages.simps) simp
  qed (use less.prems keep n in \<open>auto simp: download_messages.simps [of "received e base" _ _ _ _ n]
        download_failed_def getDownloadProgress_def byte_type_def\<close>)
qed

text \<open>The messages that keep the loop going, and where it ends.\<close>

fun keeps_going :: "exn + byte list \<Rightarrow> bool" where
  "keeps_going (Inr (b # data)) = (byte_type b \<notin> {FILE_COMPLETE, ERROR_MESSAGE})"
| "keeps_going m = False"

definition ends_at :: "(nat \<Rightarrow> (exn + byte list) option) \<Rightarrow> nat \<Rightarrow> nat \<Rightarrow> bool" where
  "ends_at ms i n \<longleftrightarrow> i \<le> n \<and> (\<exists>m. ms n = Some m \<and> \<not> keeps_going m) \<and>
     (\<forall>j. i \<le> j \<and> j < n \<longrightarrow> (\<exists>m. ms j = Some m \<and> keeps_going m))"

lemma ends_at_Suc: "ends_at ms (Suc i) n \<Longrightarrow> ms i = Some m \<Longrightarrow> keeps_going m \<Longrightarrow> ends_at ms i n"
  by (auto simp: ends_at_def Suc_le_eq) (metis nat_less_le)

lemma download_messages_ends:
  "ends_at ms i n \<Longrightarrow> \<exists>r. download_messages ms clk out name dest i v p d = Some r"
proof (induction "n - i" arbitrary: i v p d)
  case 0
  then obtain m where "ms i = Some m" and "\<not> keeps_going m"
    by (auto simp: ends_at_def)
  then show ?case
    by (subst download_messages.simps) (cases m rule: keeps_going.cases; auto)
next
  case (Suc k)
  then obtain m where m: "ms i = Some m" "keeps_going m" and next_at: "ends_at ms (Suc i) n"
    by (auto simp: ends_at_def Suc_le_eq)
  have "\<exists>r. download_messages ms clk out name dest (Suc i) v' p' d' = Some r" for v' p' d'
    using Suc.hyps next_at by (intro Suc.hyps(1)) auto
  with m show ?case
    by (subst download_messages.simps) (cases m rule: keeps_going.cases; auto)
qed

definition outcome_ok ::
  "DownloadProgress \<Rightarrow> string \<Rightarrow> disk \<Rightarrow> bool \<times> DownloadProgress \<times> disk \<Rightarrow> bool" where
  "outcome_ok p dest d res =
     (case res of (r, q, d') \<Rightarrow>
        (\<not> completed p \<and> \<not> failed p \<longrightarrow> completed q = r \<and> \<not> (completed q \<and> failed q)) \<and>
        (\<forall>f. f \<noteq> dest \<longrightarrow> d' f = d f))"

lemma download_messages_outcome:
  assumes "download_messages ms clk out name dest i v p d = Some res"
  shows "(\<exists>n. ends_at ms i n) \<and> outcome_ok p dest d res"
  using assms
proof (rule download_messages.raw_induct
    [of "\<lambda>ms clk out name dest i v p d res. (\<exists>n. ends_at ms i n) \<and> outcome_ok p dest d res", rotated])
  fix f ms clk out name dest i v p d res
  assume ih: "\<And>ms clk out name dest i v p d res. f ms clk out name dest i v p d = Some res \<Longrightarrow>
      (\<exists>n. ends_at ms i n) \<and> outcome_ok p dest d res"
    and r: "(case ms i of
        None \<Rightarrow> None
      | Some (Inl err) \<Rightarrow> Some (False, p\<lparr>failed := True, error_message := what err\<rparr>, d)
      | Some (Inr []) \<Rightarrow> Some (False, p, d)
      | Some (Inr (b # data)) \<Rightarrow>
          (if byte_type b = FILE_CHUNK then
             f ms clk out name dest (Suc i)
               (fst (chunk_received clk (vsize data) v p)) (snd (chunk_received clk (vsize data) v p))
               (d(dest \<mapsto> stored out (the (d dest) @ data)))
           else if byte_type b = FILE_COMPLETE then
             Some (True, p\<lparr>completed := True, total_size := total_downloaded v\<rparr>, d)
           else if byte_type b = ERROR_MESSAGE then
             Some (False, p\<lparr>failed := True,
               error_message := what (Runtime_error (''Server error: '' @ to_string data))\<rparr>, d)
           else f ms clk out name dest (Suc i) v p d)) = Some res"
  obtain m where m: "ms i = Some m"
    using r by (cases "ms i") auto
  have last: "ends_at ms i i" if "\<not> keeps_going m"
    using m that by (auto simp: ends_at_def)
  show "(\<exists>n. ends_at ms i n) \<and> outcome_ok p dest d res"
  proof (cases "keeps_going m")
    case False
    with m r last show ?thesis
      by (cases m rule: keeps_going.cases) (auto simp: outcome_ok_def split: if_splits)
  next
    case True
    then obtain b data where b: "m = Inr (b # data)" "byte_type b \<noteq> FILE_COMPLETE" "byte_type b \<noteq> ERROR_MESSAGE"
      by (cases m rule: keeps_going.cases) auto
    show ?thesis
    proof (cases "byte_type b = FILE_CHUNK")
      case chunk: True
      let ?q = "chunk_received clk (vsize data) v p"
      from m b chunk r ih have "(\<exists>n. ends_at ms (Suc i) n) \<and>
          outcome_ok (snd ?q) dest (d(dest \<mapsto> stored out (the (d dest) @ data))) res"
        by simp
      with m True show ?thesis
        using ends_at_Suc progressed_fields(4,5) [OF chunk_received_fields(3)]
        by (fastforce simp: outcome_ok_def)
    next
      case other: False
      from m b other r ih have "(\<exists>n. ends_at ms (Suc i) n) \<and> outcome_ok p dest d res"
        by simp
      with m True show ?thesis
        using ends_at_Suc by blast
    qed
  qed
qed

text \<open>
  C11. When a download ends, and what it leaves. It does not return exactly when the request was
  sent, the destination could be created, and no receive ever ends the loop: each one that
  returns brings a chunk or a message of another type that is neither the end nor an error, for
  ever or until one never returns. A download that returns leaves a progress object for the
  name: it is complete exactly when the result is \<open>true\<close>, it is never complete and failed at
  once, and no file but the destination changes. On the receives of a finite script it returns
  what \<open>downloadFile\<close> returns, with the same progress object and files.
\<close>

theorem download_outcome:
  assumes "client_sendMessage e FILE_REQUEST (to_bytes name) (set_progress name (new_progress (clk 0) name) c) =
    (sent, c1)"
  shows "(download_stream e ms clk opens name dest c d = None \<longleftrightarrow>
      sent = Inr () \<and> opens dest \<noteq> Cannot_create \<and> (\<forall>n. \<not> ends_at ms 0 n)) \<and>
    (\<forall>r c' d'. download_stream e ms clk opens name dest c d = Some (r, c', d') \<longrightarrow>
      (\<exists>p. getDownloadProgress name c' = Some p \<and> completed p = r \<and> \<not> (completed p \<and> failed p)) \<and>
      (\<forall>f. f \<noteq> dest \<longrightarrow> d' f = d f)) \<and>
    (\<exists>r c2 c3 d'. downloadFile e clk opens name dest c d = (r, c2, d') \<and>
      download_stream e (received e c1) clk opens name dest c d = Some (r, c3, d') \<and>
      getDownloadProgress name c2 = getDownloadProgress name c3)"
proof -
  let ?p = "new_progress (clk 0) name"
  let ?run = "\<lambda>ms. download_messages ms clk (opens dest) name dest 0 (dl_start clk) ?p (d(dest \<mapsto> []))"
  have p: "\<not> completed ?p" "\<not> failed ?p" "table_find name (active_downloads c1) = Some ?p"
    using client_send_downloads [OF assms] by (simp_all add: new_progress_def)
  show ?thesis
  proof (cases "sent = Inr () \<and> opens dest \<noteq> Cannot_create")
    case True
    then have stream: "download_stream e ms clk opens name dest c d =
        (case ?run ms of None \<Rightarrow> None | Some (r, q, d') \<Rightarrow> Some (r, set_progress name q c1, d'))" for ms
      using assms by (simp add: download_stream_def Let_def)
    have whole: "downloadFile e clk opens name dest c d =
        download_loop e clk (opens dest) name dest (dl_start clk) ?p c1 (d(dest \<mapsto> []))"
      using True assms by (simp add: downloadFile_def Let_def)
    have "?run ms = None \<longleftrightarrow> (\<forall>n. \<not> ends_at ms 0 n)"
      using download_messages_ends download_messages_outcome by (metis not_Some_eq)
    moreover have "completed q = r \<and> \<not> (completed q \<and> failed q) \<and> (\<forall>f. f \<noteq> dest \<longrightarrow> d' f = d f)"
      if "?run ms = Some (r, q, d')" for r q d'
      using download_messages_outcome [OF that] p(1,2) by (auto simp: outcome_ok_def)
    moreover obtain r c2 d' where loop:
        "download_loop e clk (opens dest) name dest (dl_start clk) ?p c1 (d(dest \<mapsto> [])) = (r, c2, d')"
      by (cases "download_loop e clk (opens dest) name dest (dl_start clk) ?p c1 (d(dest \<mapsto> []))")
    moreover obtain q where "?run (received e c1) = Some (r, q, d')" and "getDownloadProgress name c2 = Some q"
      using download_loop_messages [OF _ p(3) loop, of 0 c1] by (auto simp: same_socket_def)
    ultimately show ?thesis
      using True by (auto simp: stream whole getDownloadProgress_def split: option.splits)
  next
    case False
    then obtain err where "download_stream e ms clk opens name dest c d = Some (download_failed name ?p err c1 d)"
        and "downloadFile e clk opens name dest c d = download_failed name ?p err c1 d"
        and "download_stream e (received e c1) clk opens name dest c d = Some (download_failed name ?p err c1 d)"
      using assms by (cases sent) (auto simp: download_stream_def downloadFile_def Let_def)
    with False p show ?thesis
      by (auto simp: download_failed_def getDownloadProgress_def)
  qed
qed

text \<open>Endless \<open>PING\<close>s keep a download running; the same download returns when its connection ends.\<close>

theorem download_outcome_witness:
  "download_stream LittleEndian (\<lambda>_. Some (Inr [type_byte PING])) (\<lambda>_. 0) (\<lambda>_. Unbounded) ''f'' ''/d/f''
      (client_on []) Map.empty = None \<and>
   (\<exists>c'. download_stream LittleEndian (\<lambda>_. Some (Inl (Runtime_error ''Failed to receive message length'')))
      (\<lambda>_. 0) (\<lambda>_. Unbounded) ''f'' ''/d/f'' (client_on []) Map.empty = Some (False, c', [''/d/f'' \<mapsto> []]))"
proof -
  obtain c1 where send: "client_sendMessage LittleEndian FILE_REQUEST (to_bytes ''f'')
      (set_progress ''f'' (new_progress 0 ''f'') (client_on [])) = (Inr (), c1)"
    using client_on_send(2) by (metis prod.collapse)
  have "\<not> ends_at (\<lambda>_. Some (Inr [type_byte PING])) 0 n" for n
    by (simp add: ends_at_def byte_type_def)
  moreover have "ends_at (\<lambda>_. Some (Inl err)) 0 0" for err
    by (simp add: ends_at_def)
  ultimately show ?thesis
    using download_outcome [where e = LittleEndian and clk = "\<lambda>_. 0" and name = "''f''" and c = "client_on []",
        OF send, of "\<lambda>_. Some (Inr [type_byte PING])" "\<lambda>_. Unbounded" "''/d/f''" Map.empty] send
    by (auto simp: download_stream_def download_messages.simps [of "\<lambda>_. Some (Inl _)"] Let_def)
qed

section \<open>Progress objects\<close>

text \<open>The total is written only at the end of a download, and then it is what has arrived.\<close>

definition progress_ok :: "DownloadProgress \<Rightarrow> bool" where
  "progress_ok p \<longleftrightarrow>
     total_size p = (if completed p then downloaded_size p else 0) \<and> 0 \<le> speed_mbps p"

definition downloads_ok :: "Client \<Rightarrow> bool" where
  "downloads_ok c \<longleftrightarrow> (\<forall>k p. table_find k (active_downloads c) = Some p \<longrightarrow> progress_ok p)"

lemma mbps_nonneg: "0 < seconds \<Longrightarrow> 0 \<le> mbps n seconds"
  unfolding mbps_def fdiv_def
  by (intro fl_nonneg divide_nonneg_nonneg) (simp_all add: double_of_nonneg)

lemma speed_chunk_received:
  "0 \<le> speed_mbps p \<Longrightarrow> 0 \<le> speed_mbps (snd (chunk_received clk n v p))"
  by (simp add: chunk_received_def Let_def mbps_nonneg)

lemma progress_ok_chunk:
  "progress_ok p \<Longrightarrow> \<not> completed p \<Longrightarrow> progress_ok (snd (chunk_received clk n v p))"
  using speed_chunk_received [of p clk n v] progressed_fields [OF chunk_received_fields(3)]
  by (simp add: progress_ok_def)

lemma downloads_ok_same: "active_downloads c' = active_downloads c \<Longrightarrow> downloads_ok c' = downloads_ok c"
  by (simp add: downloads_ok_def)

lemma downloads_ok_set [simp]:
  "downloads_ok c \<Longrightarrow> progress_ok p \<Longrightarrow> downloads_ok (set_progress name p c)"
  by (simp add: downloads_ok_def set_progress_def tbl.find_put)

lemma progress_ok_failed [simp]: "progress_ok (p\<lparr>failed := b, error_message := m\<rparr>) = progress_ok p"
  by (simp add: progress_ok_def)

lemma client_receive_downloads:
  "client_receiveMessage e c = (x, c1) \<Longrightarrow> active_downloads c1 = active_downloads c"
  by (auto simp: client_receiveMessage_def Let_def split: if_splits prod.splits option.splits)

lemma downloads_ok_loop:
  assumes "downloads_ok c" and "progress_ok p" and "\<not> completed p"
    and "downloaded_size p = total_downloaded v"
  shows "downloads_ok (fst (snd (download_loop e clk out name dest v p c d)))"
  using assms
proof (induction "rx_size (rx (sock c))" arbitrary: v p c d rule: less_induct)
  case less
  have keep: "downloads_ok c1" if "client_receiveMessage e c = (x, c1)" for x c1
    using client_receive_downloads [OF that] less.prems(1) downloads_ok_same by blast
  show ?case
  proof (rule download_loop_cases [of e c clk out name dest v p d])
    fix data :: "byte list" and c1
    let ?q = "chunk_received clk (vsize data) v p"
    assume r: "client_receiveMessage e c = (Inr (type_byte FILE_CHUNK # data), c1)"
      and "download_loop e clk out name dest v p c d =
        download_loop e clk out name dest (fst ?q) (snd ?q) (set_progress name (snd ?q) c1)
          (d(dest \<mapsto> stored out (the (d dest) @ data)))"
    with less.hyps [where c = "set_progress name (snd ?q) c1" and p = "snd ?q" and v = "fst ?q"]
      less.prems rx_size_receive [OF r] progressed_fields [OF chunk_received_fields(3)] keep [OF r]
    show ?thesis
      by (simp add: progress_ok_chunk chunk_received_fields)
  next
    fix data c1
    assume r: "client_receiveMessage e c = (Inr (type_byte FILE_COMPLETE # data), c1)"
      and "download_loop e clk out name dest v p c d =
        (True, set_progress name (p\<lparr>completed := True, total_size := total_downloaded v\<rparr>) c1, d)"
    with keep [OF r] less.prems show ?thesis
      by (simp add: progress_ok_def)
  next
    fix b data c1
    assume r: "client_receiveMessage e c = (Inr (b # data), c1)"
      and "download_loop e clk out name dest v p c d = download_loop e clk out name dest v p c1 d"
    with less.hyps [where c = c1 and p = p and v = v] less.prems rx_size_receive [OF r] keep [OF r]
    show ?thesis by simp
  qed (use keep less.prems(2) in \<open>simp_all add: download_failed_def\<close>)
qed

lemma downloads_ok_download:
  assumes "downloads_ok c"
  shows "downloads_ok (fst (snd (downloadFile e clk opens name dest c d)))"
proof -
  let ?p = "new_progress (clk 0) name"
  obtain x c1 where send: "client_sendMessage e FILE_REQUEST (to_bytes name) (set_progress name ?p c) = (x, c1)"
    by (cases "client_sendMessage e FILE_REQUEST (to_bytes name) (set_progress name ?p c)")
  have p: "progress_ok ?p" "\<not> completed ?p" "downloaded_size ?p = total_downloaded (dl_start clk)"
    by (simp_all add: progress_ok_def new_progress_def dl_start_def)
  then have c1: "downloads_ok c1"
    using client_send_downloads [OF send] assms downloads_ok_same downloads_ok_set by metis
  then show ?thesis
    using send downloads_ok_loop [OF c1 p, of e clk "opens dest" name dest "d(dest \<mapsto> [])"] p(1)
    by (auto simp: downloadFile_def Let_def download_failed_def split: sum.split)
qed

lemma downloads_connect [simp]:
  "active_downloads (snd (client_connect dial fd address port c)) = active_downloads c"
  by (simp add: client_connect_def createSocket_def closeSocket_def disconnect_def Let_def
      split: option.split)

lemma downloads_disconnect [simp]: "active_downloads (disconnect c) = active_downloads c"
  by (simp add: disconnect_def closeSocket_def Let_def)

lemma downloads_requests [simp]:
  "active_downloads (snd (requestPeerList e c)) = active_downloads c"
  "active_downloads (snd (requestFileList e peer c)) = active_downloads c"
  "active_downloads (snd (sendPing e c)) = active_downloads c"
  "active_downloads (snd (sendPong e c)) = active_downloads c"
  by (auto simp: requestPeerList_def requestFileList_def sendPing_def sendPong_def
      dest!: client_send_downloads client_receive_downloads split: prod.split sum.split)
    (metis client_send_downloads prod.collapse)

lemma client_reach_downloads_ok: "client_reach c \<Longrightarrow> downloads_ok c"
proof (induction rule: client_reach.induct)
  case new
  then show ?case
    by (simp add: downloads_ok_def new_Client_def)
qed (use downloads_ok_same downloads_ok_download in \<open>simp_all add: downloads_ok_def\<close>)

lemma client_reach_progress:
  assumes "client_reach c" and "p \<in> set (getAllDownloads c)"
  shows "progress_ok p"
  using assms client_reach_downloads_ok [OF assms(1)] client_reach_wf [OF assms(1)]
  by (auto simp: downloads_ok_def client_wf_def getAllDownloads_def tbl.vals_find)

text \<open>What other threads see while a download runs: the loop, one turn at a time.\<close>

type_synonym dl_state = "dl_vars \<times> DownloadProgress \<times> Client \<times> disk"

inductive download_turn ::
  "endian \<Rightarrow> (nat \<Rightarrow> int) \<Rightarrow> dest_file \<Rightarrow> string \<Rightarrow> string \<Rightarrow> dl_state \<Rightarrow> dl_state \<Rightarrow> bool"
  for e clk out name dest where
  chunk: "client_receiveMessage e c = (Inr (type_byte FILE_CHUNK # data), c1) \<Longrightarrow>
    chunk_received clk (vsize data) v p = (v', p') \<Longrightarrow>
    download_turn e clk out name dest (v, p, c, d)
      (v', p', set_progress name p' c1, d(dest \<mapsto> stored out (the (d dest) @ data)))"
| other: "client_receiveMessage e c = (Inr (b # data), c1) \<Longrightarrow>
    byte_type b \<notin> {FILE_CHUNK, FILE_COMPLETE, ERROR_MESSAGE} \<Longrightarrow>
    download_turn e clk out name dest (v, p, c, d) (v, p, c1, d)"

inductive_cases download_turnE: "download_turn e clk out name dest (v, p, c, d) t"

lemma download_turn_loop:
  "download_turn e clk out name dest (v, p, c, d) (v', p', c', d') \<Longrightarrow>
   download_loop e clk out name dest v p c d = download_loop e clk out name dest v' p' c' d'"
  by (subst download_loop.simps)
    (auto simp: byte_type_def elim!: download_turnE split: MessageType.split)

definition turn_ok :: "dl_state \<Rightarrow> bool" where
  "turn_ok s \<longleftrightarrow>
     (case s of (v, p, c, d) \<Rightarrow>
        client_wf c \<and> downloads_ok c \<and> progress_ok p \<and> \<not> completed p)"

lemma turn_ok_step: "download_turn e clk out name dest s t \<Longrightarrow> turn_ok s \<Longrightarrow> turn_ok t"
proof (induction rule: download_turn.induct)
  case (chunk c data c1 v p v' p' d)
  then have "progress_ok p'" and "\<not> completed p'"
    using progress_ok_chunk [of p clk "vsize data" v]
      progressed_fields(4) [OF chunk_received_fields(3), of clk "vsize data" v p]
    by (simp_all add: turn_ok_def)
  with chunk show ?case
    using downloads_ok_same [OF client_receive_downloads [OF chunk.hyps(1)]]
      client_wf_receive_eq [OF chunk.hyps(1)]
    by (simp add: turn_ok_def)
next
  case (other c b data c1 v p d)
  then show ?case
    using downloads_ok_same [OF client_receive_downloads [OF other.hyps(1)]]
      client_wf_receive_eq [OF other.hyps(1)]
    by (simp add: turn_ok_def)
qed

lemma turn_ok_steps: "(download_turn e clk out name dest)\<^sup>*\<^sup>* s t \<Longrightarrow> turn_ok s \<Longrightarrow> turn_ok t"
  by (induction rule: rtranclp_induct) (auto intro: turn_ok_step)

inductive client_seen :: "Client \<Rightarrow> bool" where
  between: "client_reach c \<Longrightarrow> client_seen c"
| during: "client_reach c \<Longrightarrow>
    client_sendMessage e FILE_REQUEST (to_bytes name)
      (set_progress name (new_progress (clk 0) name) c) = (Inr (), c0) \<Longrightarrow>
    (download_turn e clk out name dest)\<^sup>*\<^sup>*
      (dl_start clk, new_progress (clk 0) name, c0, d(dest \<mapsto> [])) (v, p, c1, d1) \<Longrightarrow>
    client_seen c1"

lemma client_seen_progress:
  assumes "client_seen c" and "p \<in> set (getAllDownloads c)"
  shows "progress_ok p"
  using assms
proof (induction rule: client_seen.induct)
  case (between c)
  then show ?case
    by (rule client_reach_progress)
next
  case (during c e name clk c0 out dest d v q c1 d1)
  let ?p = "new_progress (clk 0) name"
  have p: "progress_ok ?p" "\<not> completed ?p"
    by (simp_all add: progress_ok_def new_progress_def)
  have "client_wf (set_progress name ?p c)" and "downloads_ok (set_progress name ?p c)"
    using client_reach_wf client_reach_downloads_ok during.hyps(1) p(1) by simp_all
  then have "turn_ok (dl_start clk, ?p, c0, d(dest \<mapsto> []))"
    using client_wf_send_eq [OF during.hyps(2)] p
      downloads_ok_same [OF client_send_downloads [OF during.hyps(2)]]
    by (simp add: turn_ok_def)
  from turn_ok_steps [OF during.hyps(3) this] during.prems show ?case
    by (auto simp: turn_ok_def downloads_ok_def client_wf_def getAllDownloads_def tbl.vals_find)
qed

text \<open>A frame of length 0 ends a download with \<open>false\<close> and no failure recorded.\<close>

lemma empty_message_leaves_progress_open:
  assumes "connected c" and "opens dest \<noteq> Cannot_create"
    and "fst (client_sendMessage e FILE_REQUEST (to_bytes name) c) = Inr ()"
    and "pending (rx (sock c)) = [0, 0, 0, 0] @ rest"
  shows "\<exists>c'. downloadFile e clk opens name dest c d = (False, c', d(dest \<mapsto> [])) \<and>
    getDownloadProgress name c' = Some (new_progress (clk 0) name)"
proof -
  obtain c1 where start: "downloadFile e clk opens name dest c d =
      download_loop e clk (opens dest) name dest (dl_start clk) (new_progress (clk 0) name) c1
        (d(dest \<mapsto> []))"
    and c1: "downloading name (new_progress (clk 0) name) ([0, 0, 0, 0] @ rest) c1"
    using downloadFile_starts assms by metis
  have "parse_frame ([0, 0, 0, 0] @ rest) = Inr ([], rest)"
    by (simp add: parse_frame_def)
  then obtain es where "client_receiveMessage e c1 = (Inr [], set_rx es c1)"
    using receive_parses_frame [of c1 e] c1 by (auto simp: downloading_def)
  then show ?thesis
    unfolding start using c1
    by (simp add: download_loop.simps [of e _ _ _ _ _ _ c1] getDownloadProgress_def downloading_def)
qed

text \<open>A download from a given peer leaves the downloads of the client that was asked as they
  were, in success and in failure.\<close>

lemma peer_download_not_tracked:
  "downloadFileFromPeer e clk opens dial fd name address port dest c d = (r, c', d') \<Longrightarrow> c' = c"
  by (auto simp: downloadFileFromPeer_def split: prod.splits bool.splits)

end
