(* ===== verification/PeerManager.thy ===== *)
theory PeerManager
  imports Client
begin

text \<open>
  \<open>include/PeerManager.h\<close> and \<open>src/PeerManager.cpp\<close>: the table of known peers, the removal of
  stale ones, the probing of active ones and the bootstrap.

  The table holds \<open>std::shared_ptr<Peer>\<close>: peers are objects that callers share with the
  manager. They live in \<open>heap\<close>, a pointer is the index of its object, and every method that
  reads or writes a peer goes through the pointer. Clocks are arguments, in the nanoseconds of
  \<open>system_clock\<close>; connecting is the argument \<open>dial\<close>, as in \<open>Client\<close>.

  Methods that hold \<open>peers_mutex\<close> for their whole body are one step of \<open>pm_step\<close>;
  \<open>updatePeerFileList\<close>, which holds it for reading only, is also the sequence of its calls on the
  peer, one step each (\<open>update_is_peer_steps\<close>). Probing holds no lock, so the heartbeat is broken into its snapshot and one step per probed peer, and any
  other method may run in between. What all this amounts to is a map from identifiers to peers,
  \<open>known_peers\<close>.
\<close>

section \<open>State\<close>

record PeerManager =
  peers :: "nat table"
  heap :: "Peer list"
  bootstrap_nodes :: "(string \<times> int) list"
  pm_running :: bool
  probing :: "nat list"   \<comment> \<open>peers the heartbeat has still to probe\<close>

definition new_PeerManager :: PeerManager where
  "new_PeerManager =
     \<lparr>peers = [], heap = [], bootstrap_nodes = [], pm_running = False, probing = []\<rparr>"

definition deref :: "PeerManager \<Rightarrow> nat \<Rightarrow> Peer" where
  "deref m r = heap m ! r"

definition modify :: "nat \<Rightarrow> (Peer \<Rightarrow> Peer) \<Rightarrow> PeerManager \<Rightarrow> PeerManager" where
  "modify r f m = m\<lparr>heap := (heap m)[r := f (deref m r)]\<rparr>"

text \<open>\<open>std::make_shared<Peer>(p)\<close>.\<close>

definition make_shared :: "Peer \<Rightarrow> PeerManager \<Rightarrow> nat \<times> PeerManager" where
  "make_shared p m = (length (heap m), m\<lparr>heap := heap m @ [p]\<rparr>)"

section \<open>Operations\<close>

definition pm_start :: "PeerManager \<Rightarrow> PeerManager" where
  "pm_start m = (if pm_running m then m else m\<lparr>pm_running := True\<rparr>)"

text \<open>\<open>stop\<close> clears the flag and then waits for the heartbeat, whose remaining probes of the
  round are steps of their own below.\<close>

definition pm_stop :: "PeerManager \<Rightarrow> PeerManager" where
  "pm_stop m = (if \<not> pm_running m then m else m\<lparr>pm_running := False\<rparr>)"

definition pm_destroy :: "PeerManager \<Rightarrow> PeerManager" where
  "pm_destroy m = pm_stop m"

interpretation pm_service: service pm_running pm_stop
  by unfold_locales (simp_all add: pm_stop_def)

definition addPeer :: "nat option \<Rightarrow> PeerManager \<Rightarrow> PeerManager" where
  "addPeer peer m =
     (case peer of
        None \<Rightarrow> m
      | Some r \<Rightarrow> m\<lparr>peers := table_put (peer_id (deref m r)) r (peers m)\<rparr>)"

definition removePeer :: "string \<Rightarrow> PeerManager \<Rightarrow> PeerManager" where
  "removePeer i m =
     (case table_find i (peers m) of
        None \<Rightarrow> m
      | Some r \<Rightarrow> m\<lparr>peers := table_erase i (peers m)\<rparr>)"

definition getPeer :: "string \<Rightarrow> PeerManager \<Rightarrow> nat option" where
  "getPeer i m = table_find i (peers m)"

definition getAllPeers :: "PeerManager \<Rightarrow> nat list" where
  "getAllPeers m = table_values (peers m)"

definition getActivePeers :: "PeerManager \<Rightarrow> nat list" where
  "getActivePeers m = filter (\<lambda>r. is_active (deref m r)) (table_values (peers m))"

definition addBootstrapNode :: "string \<Rightarrow> int \<Rightarrow> PeerManager \<Rightarrow> PeerManager" where
  "addBootstrapNode address port m = m\<lparr>bootstrap_nodes := bootstrap_nodes m @ [(address, port)]\<rparr>"

definition findPeersWithFile :: "string \<Rightarrow> PeerManager \<Rightarrow> nat list" where
  "findPeersWithFile name m =
     filter (\<lambda>r. is_active (deref m r) \<and> hasFile (deref m r) name) (table_values (peers m))"

definition updatePeerFileList :: "int \<Rightarrow> string \<Rightarrow> FileInfo list \<Rightarrow> PeerManager \<Rightarrow> PeerManager" where
  "updatePeerFileList now i files m =
     (case table_find i (peers m) of
        None \<Rightarrow> m
      | Some r \<Rightarrow>
          (let existing = map filename (getFiles (deref m r))
           in modify r (\<lambda>p. updateLastSeen now (foldl addFile (foldl removeFile p existing) files)) m))"

text \<open>Five minutes.\<close>

definition stale_threshold :: int where
  "stale_threshold = 5 * 60 * 1000000000"

definition removeStalePeers :: "int \<Rightarrow> PeerManager \<Rightarrow> PeerManager" where
  "removeStalePeers now m =
     m\<lparr>peers := filter (\<lambda>(i, r). \<not> now - getLastSeen (deref m r) > stale_threshold) (peers m)\<rparr>"

text \<open>The body of the probing loop: connect, ping, close; any failure deactivates the peer.\<close>

definition probe_peer :: "endian \<Rightarrow> dialer \<Rightarrow> int \<Rightarrow> int \<Rightarrow> nat \<Rightarrow> PeerManager \<Rightarrow> PeerManager" where
  "probe_peer e dial fd now r m =
     (case client_connect dial fd (ip_address (deref m r)) (peer_port (deref m r)) new_Client of
        (False, c) \<Rightarrow> modify r (setActive now False) m
      | (True, c) \<Rightarrow>
          (case sendPing e c of
             (Inl err, c') \<Rightarrow> modify r (setActive now False) m
           | (Inr _, c') \<Rightarrow> modify r (updateLastSeen now) m))"

text \<open>The whole of \<open>broadcastPeerDiscovery\<close> without interference; the environment of each probe
  (the network, the descriptor, the clock) is given per peer.\<close>

definition broadcastPeerDiscovery ::
  "endian \<Rightarrow> (nat \<Rightarrow> dialer \<times> int \<times> int) \<Rightarrow> PeerManager \<Rightarrow> PeerManager" where
  "broadcastPeerDiscovery e env m =
     foldl (\<lambda>m r. case env r of (dial, fd, now) \<Rightarrow> probe_peer e dial fd now r m) m (getActivePeers m)"

text \<open>The inner loop of the bootstrap: one line of the answer.\<close>

definition bootstrap_line :: "int \<Rightarrow> int \<Rightarrow> PeerManager \<Rightarrow> string \<Rightarrow> PeerManager" where
  "bootstrap_line t_new t_active m line =
     (case deserialize t_new t_active line of
        Inl err \<Rightarrow> m
      | Inr p \<Rightarrow> (let (r, m') = make_shared p m in addPeer (Some r) m'))"

text \<open>The clock is read anew for each line: \<open>ts k\<close> is what the constructor and \<open>setActive\<close> read for
  line \<open>k\<close>. Each node has its own connection.\<close>

definition bootstrap_node ::
  "endian \<Rightarrow> dialer \<Rightarrow> int \<Rightarrow> (nat \<Rightarrow> int \<times> int) \<Rightarrow> string \<times> int \<Rightarrow> PeerManager \<Rightarrow> PeerManager" where
  "bootstrap_node e dial fd ts node m =
     (case client_connect dial fd (fst node) (snd node) new_Client of
        (False, c) \<Rightarrow> m
      | (True, c) \<Rightarrow>
          (case requestPeerList e c of
             (Inl err, c') \<Rightarrow> m
           | (Inr lines, c') \<Rightarrow>
               foldl (\<lambda>m (k, line). bootstrap_line (fst (ts k)) (snd (ts k)) m line) m
                 (enumerate 0 lines)))"

definition connectToBootstrapNodes ::
  "endian \<Rightarrow> (nat \<Rightarrow> dialer \<times> int \<times> (nat \<Rightarrow> int \<times> int)) \<Rightarrow> PeerManager \<Rightarrow> PeerManager" where
  "connectToBootstrapNodes e env m =
     foldl (\<lambda>m (k, node). case env k of (dial, fd, ts) \<Rightarrow> bootstrap_node e dial fd ts node m) m
       (enumerate 0 (bootstrap_nodes m))"

definition getActivePeerCount :: "PeerManager \<Rightarrow> nat" where
  "getActivePeerCount m = length (filter (\<lambda>(i, r). is_active (deref m r)) (peers m))"

definition getTotalPeerCount :: "PeerManager \<Rightarrow> nat" where
  "getTotalPeerCount m = length (peers m)"

section \<open>Steps\<close>

text \<open>One round of \<open>heartbeatLoop\<close> is \<open>stale\<close>, \<open>snapshot\<close> and a \<open>probe\<close> for each peer of the
  snapshot; the bootstrap thread, which is never joined, adds peers at any time; and whoever
  holds a pointer may call the peer's own methods (\<open>share\<close>).\<close>

inductive pm_step :: "PeerManager \<Rightarrow> PeerManager \<Rightarrow> bool" where
  create: "pm_step m (snd (make_shared p m))"
| share: "r < length (heap m) \<Longrightarrow> pm_step m (modify r (\<lambda>p. peer_apply p op) m)"
| add: "r < length (heap m) \<Longrightarrow> pm_step m (addPeer (Some r) m)"
| remove: "pm_step m (removePeer i m)"
| update: "pm_step m (updatePeerFileList now i files m)"
| node: "pm_step m (addBootstrapNode address port m)"
| start: "pm_step m (pm_start m)"
| stop: "pm_step m (pm_stop m)"
| bootstrap: "pm_step m (bootstrap_line t_new t_active m line)"
| stale: "pm_running m \<Longrightarrow> probing m = [] \<Longrightarrow> pm_step m (removeStalePeers now m)"
| snapshot: "pm_running m \<Longrightarrow> probing m = [] \<Longrightarrow> pm_step m (m\<lparr>probing := getActivePeers m\<rparr>)"
| probe: "probing m = r # rs \<Longrightarrow> pm_step m ((probe_peer e dial fd now r m)\<lparr>probing := rs\<rparr>)"

inductive pm_reach :: "PeerManager \<Rightarrow> bool" where
  created: "pm_reach new_PeerManager"
| stepped: "pm_reach m \<Longrightarrow> pm_step m m' \<Longrightarrow> pm_reach m'"

text \<open>\<open>updatePeerFileList\<close> holds the lock of the table for reading only, so other readers and whoever
  holds the pointer run between its calls on the peer. Those calls are steps of the kind
  \<open>share\<close>, and the step \<open>update\<close> is one schedule of them.\<close>

definition update_ops :: "string list \<Rightarrow> int \<Rightarrow> FileInfo list \<Rightarrow> peer_op list" where
  "update_ops existing now files = map Remove existing @ map Add files @ [Touch now]"

lemma modify_modify:
  "r < length (heap m) \<Longrightarrow> modify r g (modify r f m) = modify r (\<lambda>p. g (f p)) m"
  by (simp add: modify_def deref_def)

lemma peer_steps:
  assumes "r < length (heap m)"
  shows "pm_step\<^sup>*\<^sup>* m (modify r (\<lambda>p. foldl peer_apply p ops) m)"
proof (induction ops rule: rev_induct)
  case Nil
  have "modify r (\<lambda>p. p) m = m"
    using assms by (simp add: modify_def deref_def)
  then show ?case by simp
next
  case (snoc op ops)
  let ?m = "modify r (\<lambda>p. foldl peer_apply p ops) m"
  have "pm_step ?m (modify r (\<lambda>p. peer_apply p op) ?m)"
    using assms by (intro pm_step.share) (simp add: modify_def)
  with snoc show ?case
    using assms by (simp add: modify_modify)
qed

lemma update_is_peer_steps:
  assumes "getPeer i m = Some r" and "r < length (heap m)"
  shows "updatePeerFileList now i files m =
      modify r (\<lambda>p. foldl peer_apply p
        (update_ops (map filename (getFiles (deref m r))) now files)) m"
    and "pm_step\<^sup>*\<^sup>* m (updatePeerFileList now i files m)"
proof -
  have "foldl peer_apply p (map Remove ns) = foldl removeFile p ns"
      and "foldl peer_apply p (map Add fs) = foldl addFile p fs" for p ns fs
    by (induction ns arbitrary: p) (simp_all, induction fs arbitrary: p, simp_all)
  then show "updatePeerFileList now i files m =
      modify r (\<lambda>p. foldl peer_apply p
        (update_ops (map filename (getFiles (deref m r))) now files)) m"
    using assms(1) by (simp add: updatePeerFileList_def getPeer_def update_ops_def Let_def del: map_map)
  then show "pm_step\<^sup>*\<^sup>* m (updatePeerFileList now i files m)"
    using peer_steps [OF assms(2)] by simp
qed

text \<open>The bootstrap thread is such a sequence too: a step for each line of each answer.\<close>

lemma foldl_steps:
  assumes "\<And>m x. pm_step\<^sup>*\<^sup>* m (f m x)"
  shows "pm_step\<^sup>*\<^sup>* m (foldl f m xs)"
proof (induction xs arbitrary: m)
  case (Cons x xs)
  then show ?case
    using assms rtranclp_trans by (metis foldl_Cons)
qed simp

lemma bootstrap_is_steps: "pm_step\<^sup>*\<^sup>* m (connectToBootstrapNodes e env m)"
proof -
  have "pm_step\<^sup>*\<^sup>* m (bootstrap_node e dial fd ts node m)" for dial fd ts node m
    by (auto simp: bootstrap_node_def intro!: foldl_steps intro: pm_step.bootstrap
        split: prod.split bool.split sum.split)
  then show ?thesis
    unfolding connectToBootstrapNodes_def by (intro foldl_steps) (simp split: prod.split)
qed

text \<open>Two updates that both read the old list before either has written leave files of both.\<close>

lemma overlapping_updates_mix:
  assumes "existing = map filename (getFiles p)" and "f \<in> set files1"
    and "filename f \<notin> set existing"
  shows "hasFile (foldl peer_apply (foldl peer_apply p (update_ops existing now1 files1))
      (update_ops existing now2 files2)) (filename f)"
proof -
  have keep: "hasFile (foldl peer_apply q (map Remove ns)) n \<longleftrightarrow> hasFile q n"
    if "n \<notin> set ns" for q ns n
    using that by (induction ns arbitrary: q) (auto simp: hasFile_def peer_files.find_remove)
  have add: "hasFile (foldl peer_apply q (map Add fs)) n \<longleftrightarrow> hasFile q n \<or> n \<in> filename ` set fs"
    for q fs n
    by (induction fs arbitrary: q) (auto simp: hasFile_def peer_files.find_add)
  have touch: "hasFile (updateLastSeen t q) n = hasFile q n" for t q n
    by (simp add: hasFile_def)
  show ?thesis
    using assms(2,3) by (simp add: update_ops_def keep add touch)
qed

section \<open>Well-formed managers\<close>

text \<open>Every entry points to an object, and the key is that object's identifier.\<close>

definition pm_wf :: "PeerManager \<Rightarrow> bool" where
  "pm_wf m \<longleftrightarrow>
     table_ok (peers m) \<and>
     (\<forall>(i, r) \<in> set (peers m). r < length (heap m) \<and> peer_id (deref m r) = i) \<and>
     (\<forall>r \<in> set (probing m). r < length (heap m))"

lemma pm_wf_find:
  "pm_wf m \<Longrightarrow> table_find i (peers m) = Some r \<Longrightarrow> r < length (heap m) \<and> peer_id (deref m r) = i"
  by (auto simp: pm_wf_def dest!: table_find_in)

lemma deref_modify:
  "r < length (heap m) \<Longrightarrow> deref (modify r f m) s = (if s = r then f (deref m r) else deref m s)"
  by (simp add: modify_def deref_def)

lemma modify_fields [simp]:
  "peers (modify r f m) = peers m" "length (heap (modify r f m)) = length (heap m)"
  "probing (modify r f m) = probing m" "bootstrap_nodes (modify r f m) = bootstrap_nodes m"
  "pm_running (modify r f m) = pm_running m"
  by (simp_all add: modify_def)

lemma pm_wf_modify:
  assumes "pm_wf m" and "r < length (heap m)" and "\<And>p. peer_id (f p) = peer_id p"
  shows "pm_wf (modify r f m)"
  using assms by (fastforce simp: pm_wf_def deref_modify)

lemma foldl_removeFile_id [simp]: "peer_id (foldl removeFile p names) = peer_id p"
  by (induction names arbitrary: p) simp_all

lemma foldl_addFile_id [simp]: "peer_id (foldl addFile p fs) = peer_id p"
  by (induction fs arbitrary: p) simp_all

lemma deref_make_shared:
  "make_shared p m = (r, m') \<Longrightarrow>
   r = length (heap m) \<and> deref m' r = p \<and> (\<forall>s < length (heap m). deref m' s = deref m s) \<and>
   length (heap m') = Suc (length (heap m)) \<and> peers m' = peers m \<and> probing m' = probing m"
  by (auto simp: make_shared_def deref_def nth_append)

lemma pm_wf_make_shared: "pm_wf m \<Longrightarrow> pm_wf (snd (make_shared p m))"
  using deref_make_shared [of p m "length (heap m)" "snd (make_shared p m)"]
  by (fastforce simp: pm_wf_def make_shared_def)

lemma set_table_put:
  "table_ok t \<Longrightarrow> (j, s) \<in> set (table_put i r t) \<longleftrightarrow> (if j = i then s = r else (j, s) \<in> set t)"
  by (metis table_find_iff tbl.find_put tbl.ok_put option.inject)

lemma pm_wf_addPeer: "pm_wf m \<Longrightarrow> r < length (heap m) \<Longrightarrow> pm_wf (addPeer (Some r) m)"
  by (auto simp: pm_wf_def addPeer_def deref_def set_table_put tbl.ok_put split: if_splits)

lemma pm_wf_filter: "pm_wf m \<Longrightarrow> pm_wf (m\<lparr>peers := filter P (peers m)\<rparr>)"
  by (auto simp: pm_wf_def deref_def table_ok_def distinct_map_filter)

lemma pm_wf_removePeer: "pm_wf m \<Longrightarrow> pm_wf (removePeer i m)"
  by (simp add: removePeer_def table_erase_def pm_wf_filter split: option.split)

lemma pm_wf_probe:
  "pm_wf m \<Longrightarrow> r < length (heap m) \<Longrightarrow> pm_wf (probe_peer e dial fd now r m)"
  by (simp add: probe_peer_def pm_wf_modify split: prod.split bool.split sum.split)

lemma pm_wf_bootstrap_line: "pm_wf m \<Longrightarrow> pm_wf (bootstrap_line t_new t_active m line)"
  using pm_wf_make_shared
  by (auto simp: bootstrap_line_def make_shared_def pm_wf_addPeer split: sum.split)

lemma pm_wf_frame [simp]:
  "pm_wf (m\<lparr>bootstrap_nodes := ns\<rparr>) = pm_wf m" "pm_wf (m\<lparr>pm_running := b\<rparr>) = pm_wf m"
  by (simp_all add: pm_wf_def deref_def)

lemma peer_apply_id [simp]: "peer_id (peer_apply p op) = peer_id p"
  by (cases op) simp_all

lemma pm_wf_active: "pm_wf m \<Longrightarrow> r \<in> set (getActivePeers m) \<Longrightarrow> r < length (heap m)"
  by (auto simp: pm_wf_def getActivePeers_def table_values_def)

lemma pm_step_wf: "pm_step m m' \<Longrightarrow> pm_wf m \<Longrightarrow> pm_wf m'"
proof (induction rule: pm_step.induct)
  case (update m now i files)
  then show ?case
    by (auto simp: updatePeerFileList_def Let_def intro!: pm_wf_modify dest: pm_wf_find
        split: option.split)
next
  case (snapshot m)
  then show ?case
    using pm_wf_active [OF snapshot(3)] by (auto simp: pm_wf_def deref_def)
next
  case (probe m r rs e dial fd now)
  then have "r < length (heap m)" and rs: "\<forall>s \<in> set rs. s < length (heap m)"
    by (auto simp: pm_wf_def)
  then have "pm_wf (probe_peer e dial fd now r m)"
    using probe by (simp add: pm_wf_probe)
  moreover have "length (heap (probe_peer e dial fd now r m)) = length (heap m)"
    by (simp add: probe_peer_def split: prod.split bool.split sum.split)
  ultimately show ?case
    using rs by (simp add: pm_wf_def deref_def)
qed (auto simp: pm_wf_make_shared pm_wf_addPeer pm_wf_removePeer pm_wf_bootstrap_line
    pm_wf_filter pm_wf_modify removeStalePeers_def addBootstrapNode_def pm_start_def pm_stop_def)

lemma pm_reach_wf: "pm_reach m \<Longrightarrow> pm_wf m"
proof (induction rule: pm_reach.induct)
  case created
  show ?case
    by (simp add: pm_wf_def new_PeerManager_def)
qed (rule pm_step_wf)

section \<open>Lookups\<close>

lemma getPeer_addPeer:
  "getPeer i (addPeer (Some r) m) = (if i = peer_id (deref m r) then Some r else getPeer i m)"
  by (simp add: getPeer_def addPeer_def tbl.find_put)

lemma getPeer_removePeer: "getPeer i (removePeer j m) = (if i = j then None else getPeer i m)"
  by (simp add: getPeer_def removePeer_def tbl.find_erase split: option.split)

lemma getAllPeers_iff:
  "pm_wf m \<Longrightarrow> r \<in> set (getAllPeers m) \<longleftrightarrow> getPeer (peer_id (deref m r)) m = Some r"
  using pm_wf_find [of m _ r]
  by (auto simp: getAllPeers_def getPeer_def pm_wf_def tbl.vals_find)

lemma getPeer_make_shared [simp]: "getPeer i (snd (make_shared p m)) = getPeer i m"
  by (simp add: getPeer_def make_shared_def)

section \<open>Stale peers\<close>

lemma getPeer_removeStale:
  assumes "pm_wf m"
  shows "getPeer i (removeStalePeers now m) =
    (case getPeer i m of
       None \<Rightarrow> None
     | Some r \<Rightarrow> if now - last_seen (deref m r) > stale_threshold then None else Some r)"
  using assms
  by (auto simp: pm_wf_def removeStalePeers_def getPeer_def getLastSeen_def table_find_filter
      split: option.split)

section \<open>Probing\<close>

text \<open>The answer of the network to one probe, and what becomes of the peer.\<close>

definition probe_succeeds :: "endian \<Rightarrow> dialer \<Rightarrow> int \<Rightarrow> Peer \<Rightarrow> bool" where
  "probe_succeeds e dial fd p \<longleftrightarrow>
     (case client_connect dial fd (ip_address p) (peer_port p) new_Client of
        (ok, c) \<Rightarrow> ok \<and> fst (sendPing e c) = Inr ())"

definition probed :: "endian \<Rightarrow> dialer \<times> int \<times> int \<Rightarrow> Peer \<Rightarrow> Peer" where
  "probed e env p =
     (case env of (dial, fd, now) \<Rightarrow>
        if probe_succeeds e dial fd p then updateLastSeen now p else setActive now False p)"

lemma probe_peer_eq: "probe_peer e dial fd now r m = modify r (probed e (dial, fd, now)) m"
proof -
  obtain ok c where c: "client_connect dial fd (ip_address (deref m r)) (peer_port (deref m r))
      new_Client = (ok, c)"
    by (cases "client_connect dial fd (ip_address (deref m r)) (peer_port (deref m r)) new_Client")
  obtain x c' where "sendPing e c = (x, c')"
    by (cases "sendPing e c")
  with c show ?thesis
    by (cases ok; cases x) (simp_all add: probe_peer_def probe_succeeds_def probed_def modify_def)
qed

lemma probes_effect:
  assumes "distinct rs" and "\<forall>r \<in> set rs. r < length (heap m)"
  shows "let m' = foldl (\<lambda>m r. case env r of (dial, fd, now) \<Rightarrow> probe_peer e dial fd now r m) m rs
    in peers m' = peers m \<and> length (heap m') = length (heap m) \<and>
      (\<forall>s. deref m' s = (if s \<in> set rs then probed e (env s) (deref m s) else deref m s))"
  using assms
proof (induction rs arbitrary: m)
  case (Cons r rs)
  obtain dial fd now where env: "env r = (dial, fd, now)"
    by (cases "env r")
  let ?m = "modify r (probed e (env r)) m"
  have r: "r < length (heap m)" and "r \<notin> set rs"
    using Cons.prems by auto
  have "\<forall>s \<in> set rs. s < length (heap ?m)"
    using Cons.prems by simp
  with Cons.IH [of ?m] Cons.prems(1) show ?case
    using env \<open>r \<notin> set rs\<close> deref_modify [OF r] by (simp add: Let_def probe_peer_eq)
qed simp

lemma distinct_values: "pm_wf m \<Longrightarrow> distinct (getAllPeers m)"
proof -
  assume wf: "pm_wf m"
  have key: "fst x = peer_id (deref m (snd x))" if "x \<in> set (peers m)" for x
    using wf that by (cases x) (auto simp: pm_wf_def)
  have "inj_on snd (set (peers m))"
    by (rule inj_onI) (simp add: key prod_eq_iff)
  then show ?thesis
    using wf by (auto simp: getAllPeers_def table_values_def pm_wf_def table_ok_def distinct_map)
qed

section \<open>The directory\<close>

text \<open>What a peer manager stands for: the peers it knows, by identifier. The objects behind the
  pointers are part of it, the order of the table and the objects outside it are not.\<close>

definition known_peers :: "PeerManager \<Rightarrow> string \<rightharpoonup> Peer" where
  "known_peers m i = map_option (deref m) (getPeer i m)"

lemma known_addPeer: "known_peers (addPeer (Some r) m) = (known_peers m)(peer_id (deref m r) \<mapsto> deref m r)"
  by (rule ext) (simp add: known_peers_def getPeer_addPeer, simp add: addPeer_def deref_def [abs_def])

lemma known_removePeer: "known_peers (removePeer i m) = (known_peers m)(i := None)"
  by (rule ext)
    (simp add: known_peers_def getPeer_removePeer, simp add: removePeer_def deref_def [abs_def] split: option.split)

lemma known_modify:
  assumes "pm_wf m" and "getPeer i m = Some r"
  shows "known_peers (modify r f m) = (known_peers m)(i \<mapsto> f (deref m r))"
proof
  fix j
  have r: "r < length (heap m)" "peer_id (deref m r) = i"
    using pm_wf_find [OF assms(1)] assms(2) by (auto simp: getPeer_def)
  have "s \<noteq> r" if "getPeer j m = Some s" and "j \<noteq> i" for s
    using pm_wf_find [OF assms(1)] that r(2) by (auto simp: getPeer_def)
  moreover have "getPeer j (modify r f m) = getPeer j m"
    by (simp add: getPeer_def)
  ultimately show "known_peers (modify r f m) j = ((known_peers m)(i \<mapsto> f (deref m r))) j"
    using assms(2) r(1) by (cases "getPeer j m") (auto simp: known_peers_def deref_modify)
qed

lemma known_modify_outside:
  assumes "pm_wf m" and "r \<notin> set (getAllPeers m)"
  shows "known_peers (modify r f m) = known_peers m"
proof
  fix j
  show "known_peers (modify r f m) j = known_peers m j"
  proof (cases "getPeer j m")
    case (Some s)
    then have "peer_id (deref m s) = j"
      using pm_wf_find [OF assms(1)] by (simp add: getPeer_def)
    with Some have "s \<in> set (getAllPeers m)"
      using getAllPeers_iff [OF assms(1), of s] by simp
    with Some assms(2) show ?thesis
      by (cases "s = r") (simp_all add: known_peers_def getPeer_def modify_def deref_def)
  qed (simp add: known_peers_def getPeer_def)
qed

lemma removeFile_foldl:
  "foldl removeFile p ns = p\<lparr>shared_files := filter (\<lambda>f. filename f \<notin> set ns) (shared_files p)\<rparr>"
  by (induction ns arbitrary: p) (simp_all add: removeFile_def conj_commute)

lemma known_update:
  assumes "pm_wf m"
  shows "known_peers (updatePeerFileList now i files m) =
    (case known_peers m i of
       None \<Rightarrow> known_peers m
     | Some p \<Rightarrow> (known_peers m)(i \<mapsto> p\<lparr>shared_files := foldl put_file [] files, last_seen := now\<rparr>))"
proof (cases "getPeer i m")
  case None
  then show ?thesis
    by (simp add: known_peers_def updatePeerFileList_def getPeer_def)
next
  case (Some r)
  let ?p = "deref m r"
  have "updatePeerFileList now i files m = modify r (\<lambda>p. updateLastSeen now
      (foldl addFile (foldl removeFile p (map filename (getFiles ?p))) files)) m"
    using Some by (simp add: updatePeerFileList_def getPeer_def Let_def)
  with known_modify [OF assms Some] Some show ?thesis
    by (simp add: addFile_foldl removeFile_foldl updateLastSeen_def getFiles_def known_peers_def)
qed

lemma known_removeStale:
  assumes "pm_wf m"
  shows "known_peers (removeStalePeers now m) i =
    (case known_peers m i of
       None \<Rightarrow> None
     | Some p \<Rightarrow> if now - last_seen p > stale_threshold then None else Some p)"
proof -
  have "deref (removeStalePeers now m) = deref m"
    by (rule ext) (simp add: deref_def removeStalePeers_def)
  then show ?thesis
    using getPeer_removeStale [OF assms, of i now] by (simp add: known_peers_def split: option.split)
qed

lemma known_bootstrap_line:
  assumes "pm_wf m"
  shows "known_peers (bootstrap_line t_new t_active m line) =
    (case deserialize t_new t_active line of
       Inl err \<Rightarrow> known_peers m
     | Inr p \<Rightarrow> (known_peers m)(peer_id p \<mapsto> p))"
proof (cases "deserialize t_new t_active line")
  case (Inr p)
  let ?m = "snd (make_shared p m)"
  have new: "deref ?m (length (heap m)) = p"
    and old: "s < length (heap m) \<Longrightarrow> deref ?m s = deref m s" for s
    by (simp_all add: make_shared_def deref_def nth_append)
  have "known_peers ?m i = known_peers m i" for i
    using pm_wf_find [OF assms, of i] old by (cases "getPeer i m") (auto simp: known_peers_def getPeer_def make_shared_def)
  then have "known_peers ?m = known_peers m" ..
  moreover have "bootstrap_line t_new t_active m line = addPeer (Some (length (heap m))) ?m"
    using Inr by (simp add: bootstrap_line_def make_shared_def)
  ultimately show ?thesis
    using Inr by (simp add: known_addPeer new)
qed (simp add: bootstrap_line_def)

lemma known_are:
  assumes "pm_wf m"
  shows "deref m ` set (getAllPeers m) = ran (known_peers m)"
    and "inj_on (deref m) (set (getAllPeers m))"
proof -
  have known: "r \<in> set (getAllPeers m) \<longleftrightarrow> (\<exists>i. getPeer i m = Some r)" for r
    using getAllPeers_iff [OF assms, of r] pm_wf_find [OF assms, of _ r] by (auto simp: getPeer_def)
  then show "deref m ` set (getAllPeers m) = ran (known_peers m)"
    by (auto simp: ran_def known_peers_def image_iff) (metis known)
  show "inj_on (deref m) (set (getAllPeers m))"
    using getAllPeers_iff [OF assms] by (intro inj_onI) (metis option.inject)
qed

section \<open>Properties\<close>

text \<open>
  C30. In every reachable state, whatever the interleaving of callers, heartbeat and bootstrap
  and whatever holders of a pointer do to the shared objects: the table has one entry per
  identifier, each entry leads to an existing peer with that identifier, and so
  \<open>getAllPeers\<close> returns every known peer exactly once.
\<close>

theorem peer_table_consistent:
  assumes "pm_reach m"
  shows "distinct (getAllPeers m) \<and>
    (\<forall>i r. getPeer i m = Some r \<longrightarrow> r < length (heap m) \<and> peer_id (deref m r) = i) \<and>
    (\<forall>r. r \<in> set (getAllPeers m) \<longleftrightarrow> getPeer (peer_id (deref m r)) m = Some r)"
  using pm_reach_wf [OF assms] distinct_values getAllPeers_iff pm_wf_find
  unfolding getPeer_def by metis

definition two_peers :: PeerManager where
  "two_peers =
     (let p = new_Peer 0 ''p1'' ''10.0.0.1'' 8888; q = new_Peer 0 ''p2'' ''10.0.0.2'' 8888
      in new_PeerManager\<lparr>peers := [(''p1'', 0), (''p2'', 1)], heap := [p, q]\<rparr>)"

lemma two_peers_reach: "pm_reach two_peers"
proof -
  let ?p = "new_Peer 0 ''p1'' ''10.0.0.1'' 8888" and ?q = "new_Peer 0 ''p2'' ''10.0.0.2'' 8888"
  let ?m1 = "snd (make_shared ?p new_PeerManager)"
  let ?m2 = "addPeer (Some 0) ?m1"
  let ?m3 = "snd (make_shared ?q ?m2)"
  have "pm_reach ?m1"
    by (rule pm_reach.stepped [OF pm_reach.created pm_step.create])
  then have "pm_reach ?m2"
    by (rule pm_reach.stepped) (rule pm_step.add, simp add: make_shared_def new_PeerManager_def)
  then have "pm_reach ?m3"
    by (rule pm_reach.stepped) (rule pm_step.create)
  then have "pm_reach (addPeer (Some 1) ?m3)"
    by (rule pm_reach.stepped)
      (rule pm_step.add, simp add: make_shared_def new_PeerManager_def addPeer_def)
  moreover have "addPeer (Some 1) ?m3 = two_peers"
    by (simp add: two_peers_def make_shared_def addPeer_def deref_def new_PeerManager_def new_Peer_def
        updateLastSeen_def table_put_def Let_def)
  ultimately show ?thesis by simp
qed

theorem peer_table_consistent_witness:
  "distinct (getAllPeers two_peers) \<and> getAllPeers two_peers = [0, 1]"
  using peer_table_consistent [OF two_peers_reach]
  by (simp add: two_peers_def getAllPeers_def table_values_def Let_def)

text \<open>
  C31. The manager implements a map from identifiers to peers. In every reachable state:
  \<open>addPeer\<close> and \<open>removePeer\<close> set and clear an entry, a line of a bootstrap answer adds the peer it
  describes or nothing, \<open>updatePeerFileList\<close> replaces the files of a known peer,
  \<open>removeStalePeers\<close> drops exactly the peers last seen more than five minutes ago, a probe marks
  the probed peer as seen or inactive, and the lists and counts are those of the map, each peer
  once.
\<close>

theorem peer_manager_implements_directory:
  assumes "pm_reach m"
  shows "known_peers (addPeer (Some r) m) = (known_peers m)(peer_id (deref m r) \<mapsto> deref m r) \<and>
    known_peers (removePeer i m) = (known_peers m)(i := None) \<and>
    known_peers (bootstrap_line t_new t_active m line) =
      (case deserialize t_new t_active line of
         Inl err \<Rightarrow> known_peers m
       | Inr p \<Rightarrow> (known_peers m)(peer_id p \<mapsto> p)) \<and>
    known_peers (updatePeerFileList now i files m) =
      (case known_peers m i of
         None \<Rightarrow> known_peers m
       | Some p \<Rightarrow> (known_peers m)(i \<mapsto> p\<lparr>shared_files := foldl put_file [] files, last_seen := now\<rparr>)) \<and>
    known_peers (removeStalePeers now m) =
      (\<lambda>i. case known_peers m i of
         None \<Rightarrow> None
       | Some p \<Rightarrow> if now - last_seen p > 300000000000 then None else Some p) \<and>
    known_peers (probe_peer e dial fd now r m) =
      (if r \<in> set (getAllPeers m)
       then (known_peers m)(peer_id (deref m r) \<mapsto>
         (if probe_succeeds e dial fd (deref m r) then updateLastSeen now (deref m r)
          else setActive now False (deref m r)))
       else known_peers m) \<and>
    distinct (map (deref m) (getAllPeers m)) \<and>
    deref m ` set (getAllPeers m) = ran (known_peers m) \<and>
    deref m ` set (getActivePeers m) = {p \<in> ran (known_peers m). is_active p} \<and>
    deref m ` set (findPeersWithFile name m) =
      {p \<in> ran (known_peers m). is_active p \<and> name \<in> filename ` set (shared_files p)} \<and>
    getTotalPeerCount m = card (dom (known_peers m)) \<and>
    getActivePeerCount m = length (getActivePeers m)"
proof -
  have wf: "pm_wf m"
    using assms by (rule pm_reach_wf)
  have "known_peers (removeStalePeers now m) =
      (\<lambda>i. case known_peers m i of
         None \<Rightarrow> None
       | Some p \<Rightarrow> if now - last_seen p > 300000000000 then None else Some p)"
    by (rule ext) (simp add: known_removeStale [OF wf] stale_threshold_def split: option.split)
  have "known_peers (probe_peer e dial fd now r m) =
      (if r \<in> set (getAllPeers m)
       then (known_peers m)(peer_id (deref m r) \<mapsto>
         (if probe_succeeds e dial fd (deref m r) then updateLastSeen now (deref m r)
          else setActive now False (deref m r)))
       else known_peers m)"
    using known_modify [OF wf] known_modify_outside [OF wf] getAllPeers_iff [OF wf, of r]
    by (simp add: probe_peer_eq probed_def)
  have "distinct (map (deref m) (getAllPeers m))"
    using distinct_values [OF wf] known_are(2) [OF wf] by (simp add: distinct_map)
  have "deref m ` set (getActivePeers m) = {p \<in> ran (known_peers m). is_active p}"
    unfolding known_are(1) [OF wf, symmetric] by (auto simp: getActivePeers_def getAllPeers_def)
  have "deref m ` set (findPeersWithFile name m) =
      {p \<in> ran (known_peers m). is_active p \<and> name \<in> filename ` set (shared_files p)}"
    unfolding known_are(1) [OF wf, symmetric]
    by (auto simp: findPeersWithFile_def getAllPeers_def peer_files.has_iff)
  have "getTotalPeerCount m = card (dom (known_peers m))"
  proof -
    have "dom (known_peers m) = dom (\<lambda>i. table_find i (peers m))"
      by (auto simp: known_peers_def getPeer_def)
    then show ?thesis
      using tbl.vals_card [of "peers m"] wf by (simp add: pm_wf_def getTotalPeerCount_def table_values_def)
  qed
  have "getActivePeerCount m = length (getActivePeers m)"
    by (simp add: getActivePeerCount_def getActivePeers_def table_values_def filter_map comp_def split_def)
  show ?thesis
    by (intro conjI)
      (fact | rule known_addPeer known_removePeer known_bootstrap_line [OF wf]
        known_update [OF wf] known_are(1) [OF wf])+
qed

text \<open>A manager of two peers of which one is stale, and one has a new list of files.\<close>

theorem peer_manager_implements_directory_witness:
  "known_peers (removeStalePeers 300000000001 two_peers) = Map.empty \<and>
   (\<exists>p. known_peers (updatePeerFileList 4 ''p1'' [file_a, file_b] two_peers) ''p1'' = Some p \<and>
     shared_files p = [file_a, file_b] \<and> last_seen p = 4) \<and>
   getTotalPeerCount two_peers = 2"
proof -
  have two: "known_peers two_peers =
      [''p1'' \<mapsto> new_Peer 0 ''p1'' ''10.0.0.1'' 8888, ''p2'' \<mapsto> new_Peer 0 ''p2'' ''10.0.0.2'' 8888]"
    by (auto simp: known_peers_def getPeer_def two_peers_def table_find_def deref_def Let_def fun_eq_iff)
  note all = peer_manager_implements_directory [OF two_peers_reach]
  show ?thesis
    using all [where now = 300000000001] all [where now = 4 and i = "''p1''" and files = "[file_a, file_b]"]
    unfolding two by (auto simp: new_Peer_def updateLastSeen_def fun_eq_iff)
qed

text \<open>
  A round of probes keeps the table, marks each active peer that answers as seen at that
  time and each one that does not as inactive, and leaves inactive peers alone: a peer that
  has once failed a probe is never probed, and never becomes active, again by the heartbeat.
\<close>

theorem probes_only_deactivate:
  assumes "pm_reach m" and "m' = broadcastPeerDiscovery e env m"
  shows "peers m' = peers m \<and>
    (\<forall>r. deref m' r =
      (if r \<in> set (getAllPeers m) \<and> is_active (deref m r)
       then (case env r of (dial, fd, now) \<Rightarrow>
         if probe_succeeds e dial fd (deref m r) then updateLastSeen now (deref m r)
         else setActive now False (deref m r))
       else deref m r)) \<and>
    (\<forall>r. is_active (deref m' r) \<longrightarrow> is_active (deref m r))"
proof -
  have wf: "pm_wf m"
    using assms(1) by (rule pm_reach_wf)
  have "distinct (getActivePeers m)"
    using distinct_values [OF wf] by (simp add: getActivePeers_def getAllPeers_def)
  then have effect: "peers m' = peers m"
      "\<And>r. deref m' r = (if r \<in> set (getActivePeers m) then probed e (env r) (deref m r) else deref m r)"
    using probes_effect [where rs = "getActivePeers m" and m = m and env = env and e = e] pm_wf_active [OF wf] assms(2)
    by (auto simp: broadcastPeerDiscovery_def Let_def)
  moreover have "r \<in> set (getActivePeers m) \<longleftrightarrow> r \<in> set (getAllPeers m) \<and> is_active (deref m r)" for r
    by (auto simp: getActivePeers_def getAllPeers_def)
  ultimately show ?thesis
    by (auto simp: probed_def split: prod.splits if_splits)
qed

theorem probes_only_deactivate_witness:
  "\<not> is_active (deref (broadcastPeerDiscovery LittleEndian (\<lambda>_. (\<lambda>_ _. None, 5, 9)) two_peers) 0)"
  using probes_only_deactivate [OF two_peers_reach refl, of LittleEndian "\<lambda>_. (\<lambda>_ _. None, 5, 9)"]
  by (simp add: two_peers_def getAllPeers_def table_values_def deref_def new_Peer_def
      updateLastSeen_def probe_succeeds_def client_connect_def setActive_def Let_def new_Client_def
      createSocket_def split: prod.split)

text \<open>
  After \<open>updatePeerFileList\<close> on a known peer with a list of different names, the files of
  that peer are exactly the new list, no other peer changes, and \<open>findPeersWithFile\<close> returns
  the active peers that have a file of the name.
\<close>

theorem update_then_find:
  assumes "pm_reach m" and "getPeer i m = Some r" and "distinct (map filename files)"
    and "m' = updatePeerFileList now i files m"
  shows "shared_files (deref m' r) = files \<and> last_seen (deref m' r) = now \<and>
    (\<forall>s. s \<noteq> r \<longrightarrow> deref m' s = deref m s) \<and>
    (r \<in> set (findPeersWithFile name m') \<longleftrightarrow>
      is_active (deref m r) \<and> (\<exists>f \<in> set files. filename f = name))"
proof -
  have wf: "pm_wf m" and r: "r < length (heap m)" "peer_id (deref m r) = i"
    using pm_reach_wf [OF assms(1)] pm_wf_find assms(2) by (auto simp: getPeer_def)
  let ?p = "updateLastSeen now
      (foldl addFile (foldl removeFile (deref m r) (map filename (getFiles (deref m r)))) files)"
  have m': "m' = modify r (\<lambda>p. updateLastSeen now
      (foldl addFile (foldl removeFile p (map filename (getFiles (deref m r)))) files)) m"
    using assms(2,4) by (simp add: updatePeerFileList_def getPeer_def Let_def)
  have files: "shared_files ?p = files"
    using peer_files.files_replace [of "deref m r" files] foldl_put_file_distinct [of "[]" files]
      assms(3) by (simp add: getFiles_def)
  have active: "is_active (foldl addFile (foldl removeFile p ns) fs) = is_active p" for p ns fs
  proof -
    have "is_active (foldl removeFile p ns) = is_active p"
      by (induction ns arbitrary: p) simp_all
    moreover have "is_active (foldl addFile q fs) = is_active q" for q
      by (induction fs arbitrary: q) simp_all
    ultimately show ?thesis by simp
  qed
  have "r \<in> set (table_values (peers m))"
    using getAllPeers_iff [OF wf, of r] assms(2) r(2) by (simp add: getAllPeers_def)
  then show ?thesis
    using r files by (auto simp: m' deref_modify findPeersWithFile_def active peer_files.has_iff
        updateLastSeen_def)
qed

theorem update_then_find_witness:
  "0 \<in> set (findPeersWithFile ''a.txt'' (updatePeerFileList 4 ''p1'' [file_a, file_b] two_peers))"
proof -
  have "getPeer ''p1'' two_peers = Some 0" and "is_active (deref two_peers 0)"
    by (simp_all add: two_peers_def getPeer_def table_find_def deref_def new_Peer_def
        updateLastSeen_def Let_def)
  then show ?thesis
    using update_then_find [OF two_peers_reach, of "''p1''" 0 "[file_a, file_b]" _ 4 "''a.txt''"]
    by simp
qed

end
