(* ===== verification/FileManager.thy ===== *)
theory FileManager
  imports Peer
begin

text \<open>
  \<open>include/FileManager.h\<close> and \<open>src/FileManager.cpp\<close>: the list of shared files and the scan that
  builds it.

  The file system and OpenSSL are arguments. An \<open>fs_view\<close> is what one scan meets:
  the sequence of entries the recursive iterator delivers under a directory, ended normally or
  by a \<open>filesystem_error\<close>; the contents of the files that \<open>std::ifstream\<close> can open; their
  sizes, or the error. The three functions of OpenSSL are those of a hash context of type \<open>'x\<close>.
  A modification time is what the clock arithmetic of the scan makes of the file's time, taken
  as part of the entry.
\<close>

section \<open>State and environment\<close>

record FileManager =
  shared_directory :: string
  local_files :: "FileInfo list"

record entry =
  path :: string
  is_regular :: "exn + bool"
  mtime :: "exn + 64 word"

record fs_view =
  listing :: "string \<Rightarrow> entry list \<times> exn option"
  contents :: "string \<Rightarrow> byte list option"
  size_of :: "string \<Rightarrow> exn + u64"
  create_directories :: "string \<Rightarrow> exn + unit"

record 'x sha256 =
  SHA256_Init :: 'x
  SHA256_Update :: "'x \<Rightarrow> byte list \<Rightarrow> 'x"
  SHA256_Final :: "'x \<Rightarrow> byte list"

section \<open>Hashing\<close>

text \<open>The blocks that \<open>file.read(buffer, n)\<close> followed by \<open>file.gcount()\<close> delivers.\<close>

function blocks :: "nat \<Rightarrow> 'a list \<Rightarrow> 'a list list" where
  "blocks n xs = (if n = 0 \<or> xs = [] then [] else take n xs # blocks n (drop n xs))"
  by pat_completeness auto
termination
  by (relation "measure (\<lambda>(n, xs). length xs)") auto

declare blocks.simps [simp del]

text \<open>\<open>std::hex\<close> with \<open>setw(2)\<close> and \<open>setfill('0')\<close>.\<close>

definition hex_digit :: "nat \<Rightarrow> char" where
  "hex_digit n = (if n < 10 then char_of (48 + n) else char_of (87 + n))"

definition hex_byte :: "byte \<Rightarrow> string" where
  "hex_byte b = [hex_digit (unat b div 16), hex_digit (unat b mod 16)]"

definition calculateFileHash :: "'x sha256 \<Rightarrow> fs_view \<Rightarrow> string \<Rightarrow> exn + string" where
  "calculateFileHash sha fs file =
     (case contents fs file of
        None \<Rightarrow> Inl (Runtime_error (''Cannot open file for hashing: '' @ file))
      | Some bytes \<Rightarrow>
          (let ctx = foldl (SHA256_Update sha) (SHA256_Init sha) (blocks BUFFER_SIZE bytes)
           in Inr (concat (map hex_byte (SHA256_Final sha ctx)))))"

section \<open>Scanning\<close>

text \<open>\<open>path::filename\<close> and \<open>path::extension\<close>: the part after the last slash; and its suffix
  from the last dot, unless that dot is its first character.\<close>

definition path_filename :: "string \<Rightarrow> string" where
  "path_filename p = rev (takeWhile (\<lambda>c. c \<noteq> CHR ''/'') (rev p))"

definition path_extension :: "string \<Rightarrow> string" where
  "path_extension p =
     (let f = path_filename p;
          suffix = rev (takeWhile (\<lambda>c. c \<noteq> CHR ''.'') (rev f));
          k = length f - length suffix
      in if k \<le> 1 \<or> f = ''..'' then [] else CHR ''.'' # suffix)"

definition skip_extensions :: "string list" where
  "skip_extensions = [''.tmp'', ''.log'', ''.lock'', ''.pid'']"

definition isValidFile :: "string \<Rightarrow> bool" where
  "isValidFile p =
     (if path_filename p \<noteq> [] \<and> hd (path_filename p) = CHR ''.'' then False
      else path_extension p \<notin> set skip_extensions)"

text \<open>The body of the scanning loop for one entry: the record to append, or none.\<close>

definition scan_entry :: "'x sha256 \<Rightarrow> fs_view \<Rightarrow> entry \<Rightarrow> exn + FileInfo option" where
  "scan_entry sha fs en =
     (case is_regular en of
        Inl err \<Rightarrow> Inl err
      | Inr regular \<Rightarrow>
          (if \<not> (regular \<and> isValidFile (path en)) then Inr None
           else case size_of fs (path en) of
                  Inl err \<Rightarrow> Inl err
                | Inr sz \<Rightarrow>
                    (case mtime en of
                       Inl err \<Rightarrow> Inl err
                     | Inr mod_time \<Rightarrow>
                         (case calculateFileHash sha fs (path en) of
                            Inl err \<Rightarrow> Inl err
                          | Inr h \<Rightarrow>
                              Inr (Some (mkFileInfo (path_filename (path en)) (path en) sz h mod_time))))))"

text \<open>The loop: the files found before the iterator or an entry throws stay in the list.\<close>

fun scan_loop ::
  "'x sha256 \<Rightarrow> fs_view \<Rightarrow> entry list \<Rightarrow> exn option \<Rightarrow> FileInfo list \<Rightarrow> exn option \<times> FileInfo list" where
  "scan_loop sha fs [] fin acc = (fin, acc)"
| "scan_loop sha fs (en # es) fin acc =
     (case scan_entry sha fs en of
        Inl err \<Rightarrow> (Some err, acc)
      | Inr None \<Rightarrow> scan_loop sha fs es fin acc
      | Inr (Some f) \<Rightarrow> scan_loop sha fs es fin (acc @ [f]))"

fun is_filesystem_error :: "exn \<Rightarrow> bool" where
  "is_filesystem_error (Filesystem_error s) = True"
| "is_filesystem_error _ = False"

definition scanDirectory :: "'x sha256 \<Rightarrow> fs_view \<Rightarrow> FileManager \<Rightarrow> (exn + unit) \<times> FileManager" where
  "scanDirectory sha fs m =
     (let (entries, fin) = listing fs (shared_directory m);
          (thrown, found) = scan_loop sha fs entries fin [];
          m' = m\<lparr>local_files := found\<rparr>
      in case thrown of
           None \<Rightarrow> (Inr (), m')
         | Some err \<Rightarrow> (if is_filesystem_error err then Inr () else Inl err, m'))"

definition refreshFileList :: "'x sha256 \<Rightarrow> fs_view \<Rightarrow> FileManager \<Rightarrow> (exn + unit) \<times> FileManager" where
  "refreshFileList sha fs m = scanDirectory sha fs m"

definition new_FileManager :: "fs_view \<Rightarrow> exn + FileManager" where
  "new_FileManager fs =
     (case create_directories fs ''./shared/'' of
        Inl err \<Rightarrow> Inl err
      | Inr _ \<Rightarrow> Inr \<lparr>shared_directory = ''./shared/'', local_files = []\<rparr>)"

definition fm_setSharedDirectory ::
  "'x sha256 \<Rightarrow> fs_view \<Rightarrow> string \<Rightarrow> FileManager \<Rightarrow> (exn + unit) \<times> FileManager" where
  "fm_setSharedDirectory sha fs directory m =
     (let dir = (if directory \<noteq> [] \<and> last directory \<noteq> CHR ''/'' then directory @ ''/'' else directory);
          m1 = m\<lparr>shared_directory := dir\<rparr>
      in case create_directories fs dir of
           Inl err \<Rightarrow> (Inl err, m1)
         | Inr _ \<Rightarrow> refreshFileList sha fs m1)"

section \<open>Queries\<close>

definition getFileList :: "FileManager \<Rightarrow> FileInfo list" where
  "getFileList m = local_files m"

definition fm_hasFile :: "FileManager \<Rightarrow> string \<Rightarrow> bool" where
  "fm_hasFile m name = (find_file name (local_files m) \<noteq> None)"

definition fm_getFileInfo :: "FileManager \<Rightarrow> string \<Rightarrow> exn + FileInfo" where
  "fm_getFileInfo m name =
     (case find_file name (local_files m) of
        Some f \<Rightarrow> Inr f
      | None \<Rightarrow> Inl (Runtime_error (''File not found: '' @ name)))"

definition validateFileIntegrity :: "'x sha256 \<Rightarrow> fs_view \<Rightarrow> string \<Rightarrow> string \<Rightarrow> bool" where
  "validateFileIntegrity sha fs file expected_hash =
     (case calculateFileHash sha fs file of
        Inl err \<Rightarrow> False
      | Inr actual_hash \<Rightarrow> actual_hash = expected_hash)"

text \<open>Only a \<open>filesystem_error\<close> is caught.\<close>

definition getFileSize :: "fs_view \<Rightarrow> string \<Rightarrow> exn + u64" where
  "getFileSize fs file =
     (case size_of fs file of
        Inl err \<Rightarrow> (if is_filesystem_error err then Inr 0 else Inl err)
      | Inr n \<Rightarrow> Inr n)"

interpretation local: file_lookup local_files fm_hasFile fm_getFileInfo
  by unfold_locales (auto simp: fm_hasFile_def fm_getFileInfo_def)

section \<open>The blocks of a file\<close>

lemma concat_blocks: "0 < n \<Longrightarrow> concat (blocks n xs) = xs"
proof (induction n xs rule: blocks.induct)
  case (1 n xs)
  then show ?case
    by (cases "xs = []") (simp_all add: blocks.simps [of n xs] blocks.simps [of n "[]"])
qed

lemma blocks_bounds: "b \<in> set (blocks n xs) \<Longrightarrow> b \<noteq> [] \<and> length b \<le> n"
proof (induction n xs rule: blocks.induct)
  case (1 n xs)
  then show ?case
    by (cases "n = 0 \<or> xs = []") (auto simp: blocks.simps [of n xs])
qed

lemma BUFFER_SIZE_positive [simp]: "0 < BUFFER_SIZE"
  by (simp add: BUFFER_SIZE_def)

text \<open>What OpenSSL documents of the three functions: data may be hashed in pieces, and the
  digest has 32 bytes.\<close>

definition streaming :: "'x sha256 \<Rightarrow> bool" where
  "streaming sha \<longleftrightarrow>
     (\<forall>c xs ys. SHA256_Update sha (SHA256_Update sha c xs) ys = SHA256_Update sha c (xs @ ys)) \<and>
     (\<forall>c. SHA256_Update sha c [] = c)"

definition digest_32 :: "'x sha256 \<Rightarrow> bool" where
  "digest_32 sha \<longleftrightarrow> (\<forall>c. length (SHA256_Final sha c) = 32)"

lemma streaming_foldl:
  "streaming sha \<Longrightarrow>
   foldl (SHA256_Update sha) (SHA256_Update sha c xs) bs = SHA256_Update sha c (xs @ concat bs)"
  by (induction bs arbitrary: xs) (simp_all add: streaming_def)

lemma calculateFileHash_streaming:
  assumes "streaming sha" and "contents fs file = Some bytes"
  shows "calculateFileHash sha fs file =
    Inr (concat (map hex_byte (SHA256_Final sha (SHA256_Update sha (SHA256_Init sha) bytes))))"
proof -
  have "SHA256_Init sha = SHA256_Update sha (SHA256_Init sha) []"
    using assms(1) by (simp add: streaming_def)
  then show ?thesis
    using streaming_foldl [OF assms(1), of "SHA256_Init sha" "[]" "blocks BUFFER_SIZE bytes"] assms(2)
    by (simp add: calculateFileHash_def Let_def concat_blocks)
qed

definition is_hex :: "char \<Rightarrow> bool" where
  "is_hex c \<longleftrightarrow> is_digit c \<or> (97 \<le> (of_char c :: nat) \<and> (of_char c :: nat) \<le> 102)"

lemma is_hex_digit: "n < 16 \<Longrightarrow> is_hex (hex_digit n)"
  by (simp add: is_hex_def hex_digit_def is_digit_def)

lemma is_hex_byte: "c \<in> set (hex_byte b) \<Longrightarrow> is_hex c"
  using unat_lt2p_byte [of b] by (auto simp: hex_byte_def intro: is_hex_digit)

lemma is_hex_not_delim: "\<not> is_hex CHR ''|''" "\<not> is_hex CHR 0x0A"
  by (simp_all add: is_hex_def is_digit_def)

lemma hash_text:
  assumes "digest_32 sha" and "calculateFileHash sha fs file = Inr h"
  shows "length h = 64 \<and> (\<forall>c \<in> set h. is_hex c)"
proof -
  have "length (concat (map hex_byte bs)) = 2 * length bs" for bs
    by (induction bs) (simp_all add: hex_byte_def)
  then show ?thesis
    using assms by (auto simp: calculateFileHash_def digest_32_def Let_def dest: is_hex_byte
        split: option.splits)
qed

section \<open>What a scan finds\<close>

text \<open>The entries a scan shares, and the record of such an entry when everything about the
  file can be read.\<close>

definition shared_entry :: "entry \<Rightarrow> bool" where
  "shared_entry en \<longleftrightarrow> is_regular en = Inr True \<and> isValidFile (path en)"

definition readable :: "fs_view \<Rightarrow> entry \<Rightarrow> bool" where
  "readable fs en \<longleftrightarrow>
     (is_regular en = Inr True \<or> is_regular en = Inr False) \<and>
     (shared_entry en \<longrightarrow> (\<exists>n. size_of fs (path en) = Inr n) \<and> (\<exists>t. mtime en = Inr t) \<and>
        contents fs (path en) \<noteq> None)"

text \<open>A record tells the truth about its file.\<close>

definition truthful :: "'x sha256 \<Rightarrow> fs_view \<Rightarrow> FileInfo \<Rightarrow> bool" where
  "truthful sha fs f \<longleftrightarrow>
     isValidFile (filepath f) \<and> filename f = path_filename (filepath f) \<and>
     size_of fs (filepath f) = Inr (file_size f) \<and>
     calculateFileHash sha fs (filepath f) = Inr (file_hash f)"

lemma scan_entry_truthful: "scan_entry sha fs en = Inr (Some f) \<Longrightarrow> truthful sha fs f \<and> filepath f = path en"
  by (auto simp: scan_entry_def truthful_def mkFileInfo_def split: sum.splits if_splits)

lemma scan_entry_readable:
  assumes "readable fs en"
  shows "if shared_entry en then \<exists>f. scan_entry sha fs en = Inr (Some f) else scan_entry sha fs en = Inr None"
proof (cases "shared_entry en")
  case True
  with assms obtain n t bytes where "size_of fs (path en) = Inr n" and "mtime en = Inr t"
      and "contents fs (path en) = Some bytes"
    by (auto simp: readable_def)
  with True show ?thesis
    by (simp add: scan_entry_def shared_entry_def calculateFileHash_def Let_def)
next
  case False
  with assms show ?thesis
    by (auto simp: readable_def scan_entry_def shared_entry_def)
qed

lemma scan_loop_truthful:
  "\<forall>f \<in> set acc. truthful sha fs f \<Longrightarrow>
   \<forall>f \<in> set (snd (scan_loop sha fs es fin acc)). truthful sha fs f"
proof (induction es arbitrary: acc)
  case (Cons en es)
  consider err where "scan_entry sha fs en = Inl err" | "scan_entry sha fs en = Inr None"
    | f where "scan_entry sha fs en = Inr (Some f)"
    by (metis sum.exhaust option.exhaust)
  then show ?case
  proof cases
    case (3 f)
    with Cons.prems scan_entry_truthful [OF 3]
    have "\<forall>g \<in> set (acc @ [f]). truthful sha fs g" by simp
    from Cons.IH [OF this] 3 show ?thesis by simp
  qed (use Cons in simp_all)
qed simp

lemma scan_loop_readable:
  assumes "\<forall>en \<in> set es. readable fs en"
  shows "\<exists>found. scan_loop sha fs (es @ rest) fin acc = scan_loop sha fs rest fin (acc @ found) \<and>
    map filepath found = map path (filter shared_entry es)"
  using assms
proof (induction es arbitrary: acc)
  case (Cons en es)
  then have en: "if shared_entry en then \<exists>f. scan_entry sha fs en = Inr (Some f)
      else scan_entry sha fs en = Inr None"
    by (intro scan_entry_readable) simp
  show ?case
  proof (cases "shared_entry en")
    case True
    with en obtain f where f: "scan_entry sha fs en = Inr (Some f)"
      by auto
    obtain found where "scan_loop sha fs (es @ rest) fin (acc @ [f]) =
        scan_loop sha fs rest fin ((acc @ [f]) @ found)"
        and "map filepath found = map path (filter shared_entry es)"
      using Cons by fastforce
    with f True scan_entry_truthful [OF f] show ?thesis
      by (intro exI [of _ "f # found"]) simp
  next
    case False
    with en Cons show ?thesis by simp
  qed
qed simp

section \<open>Properties\<close>

text \<open>
  The digest of a file does not depend on its being read in blocks of 8192 bytes: given
  that OpenSSL's update may be fed in pieces, the hash is the hexadecimal text of the digest of
  the whole contents, 64 lower-case digits; and \<open>validateFileIntegrity\<close> accepts a file
  against the hash recorded for it.
\<close>

theorem file_hash_is_digest:
  assumes "streaming sha" and "digest_32 sha" and "contents fs file = Some bytes"
  shows "\<exists>h. calculateFileHash sha fs file = Inr h \<and>
    h = concat (map hex_byte (SHA256_Final sha (SHA256_Update sha (SHA256_Init sha) bytes))) \<and>
    length h = 64 \<and> (\<forall>c \<in> set h. is_hex c) \<and> validateFileIntegrity sha fs file h"
  using calculateFileHash_streaming [OF assms(1,3)] hash_text [OF assms(2)]
  by (simp add: validateFileIntegrity_def)

text \<open>A stand-in for the hash functions that satisfies both laws: it keeps all the data and
  delivers its first 32 bytes, padded.\<close>

definition toy_sha :: "byte list sha256" where
  "toy_sha = \<lparr>SHA256_Init = [], SHA256_Update = (@), SHA256_Final = (\<lambda>c. take 32 (c @ replicate 32 0))\<rparr>"

definition example_fs :: fs_view where
  "example_fs =
     \<lparr>listing = (\<lambda>_. ([\<lparr>path = ''/s/a.txt'', is_regular = Inr True, mtime = Inr 7\<rparr>,
                      \<lparr>path = ''/s/.git'', is_regular = Inr False, mtime = Inr 7\<rparr>,
                      \<lparr>path = ''/s/b.log'', is_regular = Inr True, mtime = Inr 8\<rparr>], None)),
      contents = [''/s/a.txt'' \<mapsto> [1, 2, 3]], size_of = (\<lambda>_. Inr 3),
      create_directories = (\<lambda>_. Inr ())\<rparr>"

lemma toy_sha_laws [simp]: "streaming toy_sha" "digest_32 toy_sha"
  by (simp_all add: streaming_def digest_32_def toy_sha_def min_def)

lemma example_fs_contents [simp]: "contents example_fs ''/s/a.txt'' = Some [1, 2, 3]"
  by (simp add: example_fs_def)

theorem file_hash_is_digest_witness:
  "\<exists>h. calculateFileHash toy_sha example_fs ''/s/a.txt'' = Inr h \<and> length h = 64 \<and>
     validateFileIntegrity toy_sha example_fs ''/s/a.txt'' h"
  using file_hash_is_digest [OF toy_sha_laws example_fs_contents] by blast

text \<open>
  C36. Every record in the list after a scan, also after one that an error has cut short, tells
  the truth about a file that may be shared: its name is the last part of its path and is
  neither hidden nor of an excluded extension, and size and hash are those of the file.
\<close>

theorem scan_is_truthful:
  assumes "scanDirectory sha fs m = (r, m')" and "f \<in> set (getFileList m')"
  shows "isValidFile (filepath f) \<and> filename f = path_filename (filepath f) \<and>
    size_of fs (filepath f) = Inr (file_size f) \<and>
    validateFileIntegrity sha fs (filepath f) (file_hash f)"
proof -
  have "local_files m' = snd (scan_loop sha fs (fst (listing fs (shared_directory m)))
      (snd (listing fs (shared_directory m))) [])"
    using assms(1) by (auto simp: scanDirectory_def Let_def split: prod.splits option.splits)
  then have "truthful sha fs f"
    using scan_loop_truthful [of "[]" sha fs] assms(2) by (simp add: getFileList_def)
  then show ?thesis
    by (simp add: truthful_def validateFileIntegrity_def)
qed

text \<open>
  C35. When the iterator ends normally and every entry can be read, the scan succeeds and lists
  exactly the regular files that are neither hidden nor excluded, each once and in the order of
  the iteration; a rescan replaces the previous list.
\<close>

theorem scan_is_complete:
  assumes "listing fs (shared_directory m) = (entries, None)"
    and "\<forall>en \<in> set entries. readable fs en"
  shows "\<exists>m'. scanDirectory sha fs m = (Inr (), m') \<and>
    map filepath (getFileList m') = map path (filter shared_entry entries) \<and>
    shared_directory m' = shared_directory m"
  using scan_loop_readable [OF assms(2), of sha "[]" None "[]"] assms(1)
  by (auto simp: scanDirectory_def getFileList_def)

lemma example_paths [simp]:
  "isValidFile ''/s/a.txt''" "\<not> isValidFile ''/s/b.log''"
  by (simp_all add: isValidFile_def path_filename_def path_extension_def skip_extensions_def)

theorem scan_is_complete_witness:
  "\<exists>m'. scanDirectory toy_sha example_fs \<lparr>shared_directory = ''/s/'', local_files = []\<rparr> = (Inr (), m') \<and>
    map filepath (getFileList m') = [''/s/a.txt'']"
  using scan_is_complete
      [of example_fs "\<lparr>shared_directory = ''/s/'', local_files = []\<rparr>"
        "[\<lparr>path = ''/s/a.txt'', is_regular = Inr True, mtime = Inr 7\<rparr>,
          \<lparr>path = ''/s/.git'', is_regular = Inr False, mtime = Inr 7\<rparr>,
          \<lparr>path = ''/s/b.log'', is_regular = Inr True, mtime = Inr 8\<rparr>]" toy_sha]
  by (auto simp: example_fs_def readable_def shared_entry_def)

theorem scan_is_truthful_witness:
  "\<exists>m' f. getFileList m' = [f] \<and> filename f = path_filename (filepath f) \<and>
    validateFileIntegrity toy_sha example_fs (filepath f) (file_hash f)"
proof -
  let ?m = "\<lparr>shared_directory = ''/s/'', local_files = []\<rparr>"
  obtain r m' where r: "scanDirectory toy_sha example_fs ?m = (r, m')"
    by (cases "scanDirectory toy_sha example_fs ?m")
  then obtain f where f: "getFileList m' = [f]"
    by (auto simp: scanDirectory_def example_fs_def scan_entry_def calculateFileHash_def Let_def
        getFileList_def mkFileInfo_def)
  with scan_is_truthful [OF r, of f] show ?thesis
    by auto
qed

text \<open>
  One file that cannot be opened stops the scan: the exception of \<open>calculateFileHash\<close> is
  not a \<open>filesystem_error\<close>, so \<open>scanDirectory\<close> throws it, and the list holds only the files
  that came before.
\<close>

theorem unreadable_file_aborts_scan:
  assumes "listing fs (shared_directory m) = (before @ en # after, fin)"
    and "\<forall>e \<in> set before. readable fs e" and "shared_entry en"
    and "size_of fs (path en) = Inr n" and "mtime en = Inr t" and "contents fs (path en) = None"
  shows "\<exists>m'. scanDirectory sha fs m =
      (Inl (Runtime_error (''Cannot open file for hashing: '' @ path en)), m') \<and>
    map filepath (getFileList m') = map path (filter shared_entry before)"
proof -
  have "scan_entry sha fs en = Inl (Runtime_error (''Cannot open file for hashing: '' @ path en))"
    using assms(3-6) by (simp add: scan_entry_def shared_entry_def calculateFileHash_def)
  then show ?thesis
    using scan_loop_readable [OF assms(2), of sha "en # after" fin "[]"] assms(1)
    by (auto simp: scanDirectory_def getFileList_def)
qed

theorem unreadable_file_aborts_scan_witness:
  "\<exists>m'. scanDirectory toy_sha (example_fs\<lparr>contents := Map.empty\<rparr>)
      \<lparr>shared_directory = ''/s/'', local_files = []\<rparr> =
      (Inl (Runtime_error ''Cannot open file for hashing: /s/a.txt''), m') \<and> getFileList m' = []"
  using unreadable_file_aborts_scan
      [of "example_fs\<lparr>contents := Map.empty\<rparr>" "\<lparr>shared_directory = ''/s/'', local_files = []\<rparr>" "[]"
        "\<lparr>path = ''/s/a.txt'', is_regular = Inr True, mtime = Inr 7\<rparr>"
        "[\<lparr>path = ''/s/.git'', is_regular = Inr False, mtime = Inr 7\<rparr>,
          \<lparr>path = ''/s/b.log'', is_regular = Inr True, mtime = Inr 8\<rparr>]" None 3 7 toy_sha]
  by (simp add: example_fs_def shared_entry_def)

text \<open>A file in a hidden directory is shared: only the last part of the path is looked at.\<close>

lemma hidden_directory_is_shared: "isValidFile ''/s/.git/config''"
  by (simp add: isValidFile_def path_filename_def path_extension_def skip_extensions_def)

text \<open>Of several shared files of one name, in different directories, only the first can be asked
  for.\<close>

lemma same_name_unreachable:
  assumes "local_files m = xs @ f # ys" and "g \<in> set ys" and "filename g = filename f"
    and "filename f \<notin> filename ` set xs"
  shows "fm_getFileInfo m (filename g) = Inr f"
proof -
  have "find_file (filename f) (xs @ f # ys) = Some f"
    using assms(4) by (induction xs) (auto simp: find_file_def)
  then show ?thesis
    by (simp add: fm_getFileInfo_def assms(1,3))
qed

end
