(* ===== verification/Server.thy ===== *)
theory Server
  imports PeerManager FileManager
begin

text \<open>
  \<open>include/Server.h\<close> and \<open>src/Server.cpp\<close>: the life cycle of the listening socket, the accept
  loop, and the handlers of one request.

  A server writes messages without a length and takes what one readiness event delivers as one
  message. Its loop over \<open>send\<close> retries \<open>EAGAIN\<close> for ever, so every operation that sends has
  an optional result, and \<open>None\<close> means that it never returns. The results of the system
  calls at start-up are arguments (\<open>start_env\<close>).
\<close>

section \<open>Receiving\<close>

text \<open>The loop of \<open>receiveMessage\<close>: it goes on as long as reads fill the buffer.\<close>

function server_receive_loop :: "byte list \<Rightarrow> rx_event list \<Rightarrow> (exn + byte list) \<times> rx_event list" where
  "server_receive_loop message es =
     (case sock_recv BUFFER_SIZE es of
        (Received bs, es') \<Rightarrow>
          (if length bs < BUFFER_SIZE then (Inr (message @ bs), es')
           else server_receive_loop (message @ bs) es')
      | (Peer_closed, es') \<Rightarrow> (Inl (Runtime_error ''Connection closed by peer''), es')
      | (Recv_failed e, es') \<Rightarrow>
          (if e = EAGAIN then (Inr message, es')
           else (Inl (Runtime_error ''Failed to receive message''), es')))"
  by pat_completeness auto
termination
proof (relation "measure (\<lambda>(message, es). rx_size es)")
  fix message es x es' bs
  assume "(x, es') = sock_recv BUFFER_SIZE es" and "x = Received bs"
  then have r: "sock_recv BUFFER_SIZE es = (Received bs, es')"
    by simp
  then have "bs \<noteq> []"
    using sock_recv_progress [OF r] by simp
  then show "((message @ bs, es'), message, es) \<in> measure (\<lambda>(message, es). rx_size es)"
    using sock_recv_size [OF r] by simp
qed simp

declare server_receive_loop.simps [simp del]

definition server_receiveMessage :: "conn \<Rightarrow> (exn + byte list) \<times> conn" where
  "server_receiveMessage k =
     (let (r, es) = server_receive_loop [] (rx k) in (r, k\<lparr>rx := es\<rparr>))"

section \<open>Sending\<close>

definition server_sendMessage :: "MessageType \<Rightarrow> byte list \<Rightarrow> conn \<Rightarrow> ((exn + unit) \<times> conn) option" where
  "server_sendMessage type payload k =
     (case send_retry (type_byte type # payload) k of
        None \<Rightarrow> None
      | Some (ok, k') \<Rightarrow>
          Some (if ok then Inr () else Inl (Runtime_error ''Failed to send message''), k'))"

section \<open>State\<close>

record Server =
  server_socket :: int
  srv_port :: int
  srv_running :: bool
  epoll_fd :: int
  peer_manager :: PeerManager
  file_manager :: FileManager
  clients :: "(int \<times> conn) list"   \<comment> \<open>accepted sockets, by descriptor\<close>
  srv_fds :: "int list"             \<comment> \<open>descriptors opened and not closed\<close>

definition new_Server :: "int \<Rightarrow> FileManager \<Rightarrow> Server" where
  "new_Server port fm =
     \<lparr>server_socket = -1, srv_port = port, srv_running = False, epoll_fd = -1,
      peer_manager = new_PeerManager, file_manager = fm, clients = [], srv_fds = []\<rparr>"

section \<open>Request handlers\<close>

definition peer_list_text :: "PeerManager \<Rightarrow> string" where
  "peer_list_text m = concat (map (\<lambda>r. serialize (deref m r) @ [CHR 0x0A]) (getAllPeers m))"

definition handlePeerListRequest :: "PeerManager \<Rightarrow> conn \<Rightarrow> ((exn + unit) \<times> conn) option" where
  "handlePeerListRequest m k =
     server_sendMessage PEER_LIST_RESPONSE (to_bytes (peer_list_text m)) k"

definition file_line :: "FileInfo \<Rightarrow> string" where
  "file_line f = filename f @ ''|'' @ show_nat (unat (file_size f)) @ ''|'' @ file_hash f"

definition file_list_text :: "FileManager \<Rightarrow> string" where
  "file_list_text m = concat (map (\<lambda>f. file_line f @ [CHR 0x0A]) (getFileList m))"

text \<open>The requested peer's identifier is not looked at.\<close>

definition handleFileListRequest :: "FileManager \<Rightarrow> string \<Rightarrow> conn \<Rightarrow> ((exn + unit) \<times> conn) option" where
  "handleFileListRequest m i k =
     server_sendMessage FILE_LIST_RESPONSE (to_bytes (file_list_text m)) k"

fun send_chunks :: "byte list list \<Rightarrow> conn \<Rightarrow> ((exn + unit) \<times> conn) option" where
  "send_chunks [] k = Some (Inr (), k)"
| "send_chunks (b # bs) k =
     (case server_sendMessage FILE_CHUNK b k of
        None \<Rightarrow> None
      | Some (Inl err, k') \<Rightarrow> Some (Inl err, k')
      | Some (Inr _, k') \<Rightarrow> send_chunks bs k')"

text \<open>The \<open>try\<close> block of \<open>handleFileRequest\<close>; its exceptions include failed sends.\<close>

definition serve_file :: "fs_view \<Rightarrow> FileManager \<Rightarrow> string \<Rightarrow> conn \<Rightarrow> ((exn + unit) \<times> conn) option" where
  "serve_file fs m name k =
     (case fm_getFileInfo m name of
        Inl err \<Rightarrow> Some (Inl err, k)
      | Inr f \<Rightarrow>
          (case contents fs (filepath f) of
             None \<Rightarrow> server_sendMessage ERROR_MESSAGE (to_bytes name) k
           | Some bytes \<Rightarrow>
               (case send_chunks (blocks BUFFER_SIZE bytes) k of
                  None \<Rightarrow> None
                | Some (Inl err, k') \<Rightarrow> Some (Inl err, k')
                | Some (Inr _, k') \<Rightarrow> server_sendMessage FILE_COMPLETE [] k')))"

text \<open>The handler sends the text of any exception, up to its first NUL.\<close>

definition handleFileRequest :: "fs_view \<Rightarrow> FileManager \<Rightarrow> string \<Rightarrow> conn \<Rightarrow> ((exn + unit) \<times> conn) option" where
  "handleFileRequest fs m name k =
     (case serve_file fs m name k of
        None \<Rightarrow> None
      | Some (Inr _, k') \<Rightarrow> Some (Inr (), k')
      | Some (Inl err, k') \<Rightarrow> server_sendMessage ERROR_MESSAGE (to_bytes (what err)) k')"

definition processMessage :: "fs_view \<Rightarrow> Server \<Rightarrow> byte list \<Rightarrow> conn \<Rightarrow> ((exn + unit) \<times> conn) option" where
  "processMessage fs s message k =
     (case message of
        [] \<Rightarrow> Some (Inr (), k)
      | b # payload \<Rightarrow>
          (case byte_type b of
             PEER_LIST_REQUEST \<Rightarrow> handlePeerListRequest (peer_manager s) k
           | FILE_LIST_REQUEST \<Rightarrow> handleFileListRequest (file_manager s) (to_string payload) k
           | FILE_REQUEST \<Rightarrow> handleFileRequest fs (file_manager s) (to_string payload) k
           | _ \<Rightarrow> Some (Inr (), k)))"

text \<open>
  One readiness event of a client. The result says whether the connection is kept: any
  exception makes the server take the descriptor out of the epoll set and close it.
\<close>

definition handle_conn :: "fs_view \<Rightarrow> Server \<Rightarrow> conn \<Rightarrow> (bool \<times> conn) option" where
  "handle_conn fs s k =
     (case server_receiveMessage k of
        (Inl err, k1) \<Rightarrow> Some (False, k1)
      | (Inr message, k1) \<Rightarrow>
          (if message = [] then Some (True, k1)
           else case processMessage fs s message k1 of
                  None \<Rightarrow> None
                | Some (Inl err, k2) \<Rightarrow> Some (False, k2)
                | Some (Inr _, k2) \<Rightarrow> Some (True, k2)))"

definition handleClientConnection :: "fs_view \<Rightarrow> int \<Rightarrow> Server \<Rightarrow> Server option" where
  "handleClientConnection fs fd s =
     (case map_of (clients s) fd of
        None \<Rightarrow> Some s
      | Some k \<Rightarrow>
          (case handle_conn fs s k of
             None \<Rightarrow> None
           | Some (True, k') \<Rightarrow> Some (s\<lparr>clients := AList.update fd k' (clients s)\<rparr>)
           | Some (False, k') \<Rightarrow>
               Some (s\<lparr>clients := filter (\<lambda>c. fst c \<noteq> fd) (clients s), srv_fds := remove1 fd (srv_fds s)\<rparr>)))"

section \<open>Life cycle\<close>

record start_env =
  r_socket :: int
  r_setsockopt :: int
  r_bind :: int
  r_listen :: int
  r_epoll :: int
  r_ctl :: int

definition close_fd :: "int \<Rightarrow> Server \<Rightarrow> Server" where
  "close_fd fd s = s\<lparr>srv_fds := remove1 fd (srv_fds s)\<rparr>"

text \<open>As for the other server, nothing in the source starts a running server again.\<close>

definition server_start :: "start_env \<Rightarrow> Server \<Rightarrow> bool \<times> Server" where
  "server_start v s =
     (let s0 = s\<lparr>server_socket := r_socket v\<rparr>
      in if r_socket v < 0 then (False, s0)
         else
           let s1 = s0\<lparr>srv_fds := r_socket v # srv_fds s0\<rparr>
           in if r_setsockopt v < 0 then (False, close_fd (r_socket v) s1)
              else if r_bind v < 0 then (False, close_fd (r_socket v) s1)
              else if r_listen v < 0 then (False, close_fd (r_socket v) s1)
              else
                let s2 = s1\<lparr>epoll_fd := r_epoll v\<rparr>
                in if r_epoll v < 0 then (False, close_fd (r_socket v) s2)
                   else
                     let s3 = s2\<lparr>srv_fds := r_epoll v # srv_fds s2\<rparr>
                     in if r_ctl v < 0
                        then (False, close_fd (r_socket v) (close_fd (r_epoll v) s3))
                        else (True, s3\<lparr>srv_running := True\<rparr>))"

text \<open>The flag, the join of the accept thread, and the two descriptors; accepted sockets are
  not closed.\<close>

definition server_stop :: "Server \<Rightarrow> Server" where
  "server_stop s =
     (if \<not> srv_running s then s
      else
        let s1 = s\<lparr>srv_running := False\<rparr>;
            s2 = (if 0 \<le> epoll_fd s1 then close_fd (epoll_fd s1) s1 else s1)
        in if 0 \<le> server_socket s2 then close_fd (server_socket s2) s2 else s2)"

interpretation srv_service: service srv_running server_stop
  by unfold_locales (simp_all add: server_stop_def close_fd_def Let_def)

definition server_destroy :: "Server \<Rightarrow> Server" where
  "server_destroy s = (let s1 = server_stop s in s1\<lparr>peer_manager := pm_destroy (peer_manager s1)\<rparr>)"

text \<open>One event of \<open>acceptConnections\<close>: a new connection (the result of \<open>accept\<close>), or input
  on an accepted one.\<close>

datatype srv_event = Incoming int conn | Readable int

definition accept_event :: "fs_view \<Rightarrow> Server \<Rightarrow> srv_event \<Rightarrow> Server option" where
  "accept_event fs s ev =
     (case ev of
        Incoming fd k \<Rightarrow>
          Some (if 0 \<le> fd then s\<lparr>clients := AList.update fd k (clients s), srv_fds := fd # srv_fds s\<rparr>
                else s)
      | Readable fd \<Rightarrow> handleClientConnection fs fd s)"

fun accept_events :: "fs_view \<Rightarrow> srv_event list \<Rightarrow> Server \<Rightarrow> Server option" where
  "accept_events fs [] s = Some s"
| "accept_events fs (ev # evs) s =
     (case accept_event fs s ev of None \<Rightarrow> None | Some s' \<Rightarrow> accept_events fs evs s')"

definition server_setSharedDirectory ::
  "'x sha256 \<Rightarrow> fs_view \<Rightarrow> string \<Rightarrow> Server \<Rightarrow> (exn + unit) \<times> Server" where
  "server_setSharedDirectory sha fs directory s =
     (let (r, m) = fm_setSharedDirectory sha fs directory (file_manager s)
      in (r, s\<lparr>file_manager := m\<rparr>))"

text \<open>Every bootstrap peer gets the same identifier.\<close>

definition addBootstrapPeer :: "int \<Rightarrow> string \<Rightarrow> int \<Rightarrow> Server \<Rightarrow> Server" where
  "addBootstrapPeer now address port s =
     (let (r, m) = make_shared (new_Peer now ''bootstrap'' address port) (peer_manager s)
      in s\<lparr>peer_manager := addPeer (Some r) m\<rparr>)"

section \<open>What a send does\<close>

text \<open>A sequence of messages as the server writes it, without lengths.\<close>

definition unframed :: "(MessageType \<times> byte list) list \<Rightarrow> byte list" where
  "unframed ms = concat (map (\<lambda>(t, payload). type_byte t # payload) ms)"

lemma unframed_simps [simp]:
  "unframed [] = []" "unframed ((t, payload) # ms) = type_byte t # payload @ unframed ms"
  "unframed (ms @ ns) = unframed ms @ unframed ns"
  by (simp_all add: unframed_def)

text \<open>The output of an operation is a prefix of \<open>xs\<close>, and its kernel goes on as before.\<close>

definition wrote :: "conn \<Rightarrow> byte list \<Rightarrow> conn \<Rightarrow> bool" where
  "wrote k xs k' \<longleftrightarrow> tx k' = tx k @ xs \<and> rx k' = rx k \<and> answers k' = answers k"

lemma wrote_patient: "wrote k xs k' \<Longrightarrow> patient k' = patient k"
  by (simp add: wrote_def patient_def)

lemma wrote_responsive: "wrote k xs k' \<Longrightarrow> responsive k' = responsive k"
  by (simp add: wrote_def responsive_def)

lemma wrote_trans: "wrote k xs k1 \<Longrightarrow> wrote k1 ys k2 \<Longrightarrow> wrote k (xs @ ys) k2"
  by (simp add: wrote_def)

lemma wrote_refl: "wrote k [] k"
  by (simp add: wrote_def)

lemma server_send_effect:
  assumes "server_sendMessage t payload k = Some (r, k')"
  shows "\<exists>n \<le> Suc (length payload). wrote k (take n (type_byte t # payload)) k' \<and>
    (r = Inr () \<longrightarrow> n = Suc (length payload))"
proof -
  obtain ok where "send_retry (type_byte t # payload) k = Some (ok, k')"
      and "r = (if ok then Inr () else Inl (Runtime_error ''Failed to send message''))"
    using assms by (auto simp: server_sendMessage_def split: option.splits)
  with send_retry_effect [OF this(1)] show ?thesis
    by (auto simp: send_effect_def wrote_def)
qed

lemma server_send_patient:
  assumes "patient k"
  obtains k' where "server_sendMessage t payload k = Some (Inr (), k')"
    and "wrote k (type_byte t # payload) k'"
proof -
  obtain k' where "send_retry (type_byte t # payload) k = Some (True, k')"
    using send_retry_patient [OF assms] by blast
  then have "server_sendMessage t payload k = Some (Inr (), k')"
    by (simp add: server_sendMessage_def)
  with server_send_effect [OF this] that show ?thesis
    by auto
qed

lemma server_send_responsive:
  assumes "responsive k"
  obtains r k' where "server_sendMessage t payload k = Some (r, k')" and "responsive k'"
proof -
  obtain ok k' where "send_retry (type_byte t # payload) k = Some (ok, k')"
    using send_retry_responsive [OF assms, of "type_byte t # payload"] by auto
  then obtain r where r: "server_sendMessage t payload k = Some (r, k')"
    by (simp add: server_sendMessage_def)
  with server_send_effect [OF r] wrote_responsive assms that show ?thesis
    by blast
qed

lemma server_send_blocked: "blocked k \<Longrightarrow> server_sendMessage t payload k = None"
  by (simp add: server_sendMessage_def send_retry_blocked)

text \<open>Every handler returns on a responsive connection.\<close>

lemma send_chunks_responsive:
  "responsive k \<Longrightarrow> \<exists>r k'. send_chunks bs k = Some (r, k') \<and> responsive k'"
proof (induction bs arbitrary: k)
  case (Cons b bs)
  obtain r k' where "server_sendMessage FILE_CHUNK b k = Some (r, k')" and "responsive k'"
    using server_send_responsive [OF Cons.prems] by blast
  with Cons.IH [of k'] show ?case
    by (cases r) auto
qed auto

lemma serve_file_responsive:
  assumes "responsive k"
  shows "\<exists>r k'. serve_file fs m name k = Some (r, k') \<and> responsive k'"
proof (cases "fm_getFileInfo m name")
  case (Inr f)
  show ?thesis
  proof (cases "contents fs (filepath f)")
    case None
    obtain r k' where "server_sendMessage ERROR_MESSAGE (to_bytes name) k = Some (r, k')"
        and "responsive k'"
      using server_send_responsive [OF assms] by blast
    with Inr None show ?thesis by (simp add: serve_file_def)
  next
    case (Some bytes)
    obtain r k1 where r: "send_chunks (blocks BUFFER_SIZE bytes) k = Some (r, k1)" and k1: "responsive k1"
      using send_chunks_responsive [OF assms] by blast
    obtain q k2 where "server_sendMessage FILE_COMPLETE [] k1 = Some (q, k2)" and "responsive k2"
      using server_send_responsive [OF k1] by blast
    with Inr Some r k1 show ?thesis
      by (cases r) (simp_all add: serve_file_def)
  qed
qed (simp add: serve_file_def assms)

lemma handleFileRequest_responsive:
  assumes "responsive k"
  shows "\<exists>r k'. handleFileRequest fs m name k = Some (r, k') \<and> responsive k'"
proof -
  obtain r k1 where r: "serve_file fs m name k = Some (r, k1)" and k1: "responsive k1"
    using serve_file_responsive [OF assms] by blast
  show ?thesis
  proof (cases r)
    case (Inl err)
    obtain q k2 where "server_sendMessage ERROR_MESSAGE (to_bytes (what err)) k1 = Some (q, k2)"
        and "responsive k2"
      using server_send_responsive [OF k1] by blast
    with r Inl show ?thesis by (simp add: handleFileRequest_def)
  next
    case (Inr u)
    with r k1 show ?thesis by (simp add: handleFileRequest_def)
  qed
qed

lemma processMessage_responsive:
  assumes "responsive k"
  shows "\<exists>r k'. processMessage fs s message k = Some (r, k') \<and> responsive k'"
proof (cases message)
  case (Cons b payload)
  have "\<exists>r k'. server_sendMessage t p k = Some (r, k') \<and> responsive k'" for t p
    using server_send_responsive [OF assms] by blast
  with Cons show ?thesis
    using handleFileRequest_responsive [OF assms] assms
    by (simp add: processMessage_def handlePeerListRequest_def handleFileListRequest_def
        split: MessageType.split)
qed (simp add: processMessage_def assms)

lemma responsive_rx [simp]: "responsive (k\<lparr>rx := es\<rparr>) = responsive k"
  by (simp add: responsive_def)

lemma handle_conn_responsive:
  assumes "responsive k"
  shows "\<exists>r. handle_conn fs s k = Some r"
proof -
  obtain x k1 where x: "server_receiveMessage k = (x, k1)" and k1: "responsive k1"
    using assms by (cases "server_receive_loop [] (rx k)") (simp add: server_receiveMessage_def)
  obtain r k2 where r: "processMessage fs s (projr x) k1 = Some (r, k2)"
    using processMessage_responsive [OF k1] by blast
  with x show ?thesis
    by (cases x; cases r) (simp_all add: handle_conn_def ex_bool_eq)
qed

section \<open>Receiving one message\<close>

lemma server_receive_short:
  assumes "xs \<noteq> []" and "length xs < BUFFER_SIZE"
  shows "server_receive_loop message (Data xs # es) = (Inr (message @ xs), es)"
  using assms by (simp add: server_receive_loop.simps)

lemma server_receive_full:
  "length xs = BUFFER_SIZE \<Longrightarrow>
   server_receive_loop message (Data xs # es) = server_receive_loop (message @ xs) es"
  using BUFFER_SIZE_positive by (subst server_receive_loop.simps) (auto simp del: BUFFER_SIZE_positive)

lemma server_receive_full_blocks:
  "\<forall>b \<in> set bs. length b = BUFFER_SIZE \<Longrightarrow>
   server_receive_loop message (map Data bs @ es) = server_receive_loop (message @ concat bs) es"
  by (induction bs arbitrary: message) (simp_all add: server_receive_full)

section \<open>Serving a file\<close>

definition file_messages :: "byte list \<Rightarrow> (MessageType \<times> byte list) list" where
  "file_messages bytes = map (\<lambda>b. (FILE_CHUNK, b)) (blocks BUFFER_SIZE bytes) @ [(FILE_COMPLETE, [])]"

lemma send_chunks_patient:
  "patient k \<Longrightarrow>
   \<exists>k'. send_chunks bs k = Some (Inr (), k') \<and> wrote k (unframed (map (\<lambda>b. (FILE_CHUNK, b)) bs)) k'"
proof (induction bs arbitrary: k)
  case Nil
  then show ?case
    by (simp add: wrote_refl)
next
  case (Cons b bs)
  obtain k1 where k1: "server_sendMessage FILE_CHUNK b k = Some (Inr (), k1)"
      and w: "wrote k (type_byte FILE_CHUNK # b) k1"
    using server_send_patient [OF Cons.prems] by blast
  with Cons wrote_patient [OF w] obtain k2 where "send_chunks bs k1 = Some (Inr (), k2)"
      and "wrote k1 (unframed (map (\<lambda>b. (FILE_CHUNK, b)) bs)) k2"
    by blast
  with k1 wrote_trans [OF w] show ?case
    by simp
qed

lemma chunk_data_file_messages: "chunk_data (file_messages bytes) = bytes"
proof -
  have "chunk_data (map (\<lambda>b. (FILE_CHUNK, b)) bs @ [(FILE_COMPLETE, [])]) = concat bs" for bs
    by (induction bs) (simp_all add: chunk_data_def)
  then show ?thesis
    by (simp add: file_messages_def concat_blocks)
qed

section \<open>Descriptors\<close>

text \<open>A running server owns its two descriptors and one for each accepted connection.\<close>

definition srv_wf :: "int list \<Rightarrow> Server \<Rightarrow> bool" where
  "srv_wf base s \<longleftrightarrow> srv_running s \<and> 0 \<le> server_socket s \<and> 0 \<le> epoll_fd s \<and>
     distinct (map fst (clients s)) \<and>
     mset (srv_fds s) = mset base + {#server_socket s, epoll_fd s#} + mset (map fst (clients s))"

text \<open>Events as the kernel can deliver them: an accepted socket gets a descriptor that is not
  in use.\<close>

fun fresh_events :: "fs_view \<Rightarrow> srv_event list \<Rightarrow> Server \<Rightarrow> bool" where
  "fresh_events fs [] s = True"
| "fresh_events fs (ev # evs) s =
     ((case ev of Incoming fd k \<Rightarrow> fd \<notin> set (srv_fds s) | Readable fd \<Rightarrow> True) \<and>
      (case accept_event fs s ev of None \<Rightarrow> True | Some s' \<Rightarrow> fresh_events fs evs s'))"

lemma mset_delete:
  "distinct (map fst xs) \<Longrightarrow> map_of xs fd = Some k \<Longrightarrow>
   mset (map fst xs) = add_mset fd (mset (map fst (filter (\<lambda>c. fst c \<noteq> fd) xs)))"
proof (induction xs)
  case (Cons x xs)
  show ?case
  proof (cases "fst x = fd")
    case True
    then have "\<forall>c \<in> set xs. fst c \<noteq> fd"
      using Cons.prems(1) by (auto simp: image_iff)
    then have "filter (\<lambda>c. fst c \<noteq> fd) xs = xs"
      by (simp add: filter_id_conv)
    with True show ?thesis by simp
  next
    case False
    with Cons show ?thesis by (auto split: if_splits)
  qed
qed simp

lemma map_fst_update_same: "map_of xs fd = Some k \<Longrightarrow> map fst (AList.update fd k' xs) = map fst xs"
  by (induction xs) (auto split: if_splits)

lemma map_fst_update_new: "fd \<notin> fst ` set xs \<Longrightarrow> map fst (AList.update fd k xs) = map fst xs @ [fd]"
  by (induction xs) auto

lemma accept_event_wf:
  assumes "srv_wf base s" and "accept_event fs s ev = Some s'"
    and "case ev of Incoming fd k \<Rightarrow> fd \<notin> set (srv_fds s) | Readable fd \<Rightarrow> True"
  shows "srv_wf base s'"
proof (cases ev)
  case (Incoming fd k)
  have "set_mset (mset (map fst (clients s))) \<subseteq> set_mset (mset (srv_fds s))"
    using assms(1) by (auto simp: srv_wf_def)
  with assms Incoming have "fd \<notin> fst ` set (clients s)"
    by auto
  with assms Incoming show ?thesis
    by (auto simp: accept_event_def srv_wf_def map_fst_update_new simp del: mset_map
        split: if_splits)
next
  case (Readable fd)
  show ?thesis
  proof (cases "map_of (clients s) fd")
    case None
    with assms Readable show ?thesis
      by (simp add: accept_event_def handleClientConnection_def)
  next
    case (Some k)
    then obtain keep k' where "handle_conn fs s k = Some (keep, k')"
      using assms(2) Readable
      by (auto simp: accept_event_def handleClientConnection_def split: option.splits)
    with Some assms Readable mset_delete [of "clients s" fd k] show ?thesis
      by (cases keep) (auto simp: accept_event_def handleClientConnection_def srv_wf_def
          map_fst_update_same distinct_map_filter simp del: mset_map)
  qed
qed

lemma accept_events_wf:
  "srv_wf base s \<Longrightarrow> accept_events fs evs s = Some s' \<Longrightarrow> fresh_events fs evs s \<Longrightarrow> srv_wf base s'"
proof (induction evs arbitrary: s)
  case (Cons ev evs)
  then obtain s1 where "accept_event fs s ev = Some s1"
    by (auto split: option.splits)
  with Cons accept_event_wf [OF Cons.prems(1) this] show ?case
    by auto
qed simp

lemma server_stop_wf:
  assumes "srv_wf base s"
  shows "mset (srv_fds (server_stop s)) = mset base + mset (map fst (clients s))"
  using assms by (simp add: srv_wf_def server_stop_def close_fd_def Let_def)

lemma server_start_cases:
  "case server_start v s of
     (False, s') \<Rightarrow> srv_fds s' = srv_fds s \<and> srv_running s' = srv_running s
   | (True, s') \<Rightarrow> clients s = [] \<longrightarrow> srv_wf (srv_fds s) s'"
  by (simp add: server_start_def close_fd_def srv_wf_def Let_def)

lemma file_request_served:
  assumes "fm_getFileInfo m name = Inr f" and "contents fs (filepath f) = Some bytes"
    and "patient k"
  shows "\<exists>k'. handleFileRequest fs m name k = Some (Inr (), k') \<and>
    tx k' = tx k @ unframed (file_messages bytes)"
proof -
  obtain k1 where k1: "send_chunks (blocks BUFFER_SIZE bytes) k = Some (Inr (), k1)"
      and w1: "wrote k (unframed (map (\<lambda>b. (FILE_CHUNK, b)) (blocks BUFFER_SIZE bytes))) k1"
    using send_chunks_patient [OF assms(3)] by blast
  then obtain k2 where "server_sendMessage FILE_COMPLETE [] k1 = Some (Inr (), k2)"
      and "wrote k1 [type_byte FILE_COMPLETE] k2"
    using server_send_patient [of k1 FILE_COMPLETE "[]"] wrote_patient [OF w1] assms(3) by auto
  with assms k1 w1 show ?thesis
    by (simp add: handleFileRequest_def serve_file_def file_messages_def wrote_def)
qed

section \<open>Properties\<close>

text \<open>
  C14. A request for a shared file is answered with the whole file: the handler writes one
  \<open>FILE_CHUNK\<close> message for each block of at most 8192 bytes, in order, and then
  \<open>FILE_COMPLETE\<close>, and the payloads of the chunks concatenated are the contents of the file.
  This holds however the kernel splits the output and however often it answers \<open>EAGAIN\<close> before
  it goes on, as it does on these non-blocking sockets: each byte is written once.
\<close>

theorem server_serves_whole_file:
  assumes "fm_getFileInfo m name = Inr f" and "contents fs (filepath f) = Some bytes"
    and "patient k"
  shows "(\<exists>k'. handleFileRequest fs m name k = Some (Inr (), k') \<and>
      tx k' = tx k @ unframed (file_messages bytes)) \<and>
    chunk_data (file_messages bytes) = bytes \<and>
    (\<forall>(t, payload) \<in> set (file_messages bytes). length payload \<le> 8192)"
proof (intro conjI)
  show "\<exists>k'. handleFileRequest fs m name k = Some (Inr (), k') \<and>
      tx k' = tx k @ unframed (file_messages bytes)"
    using assms by (rule file_request_served)
  show "\<forall>(t, payload) \<in> set (file_messages bytes). length payload \<le> 8192"
    using blocks_bounds [of _ BUFFER_SIZE bytes] by (auto simp: file_messages_def BUFFER_SIZE_def)
qed (rule chunk_data_file_messages)

definition example_fm :: FileManager where
  "example_fm =
     \<lparr>shared_directory = ''/s/'', local_files = [mkFileInfo ''a.txt'' ''/s/a.txt'' 3 ''0a'' 7]\<rparr>"

text \<open>A kernel that refuses every other call and then takes one byte.\<close>

definition stuttering :: "rx_event list \<Rightarrow> conn" where
  "stuttering es = (calm es)\<lparr>answers := (\<lambda>n. if even n then Refuse EAGAIN else Accept 0)\<rparr>"

lemma stuttering_fields [simp]: "tx (stuttering es) = []" "rx (stuttering es) = es" "patient (stuttering es)"
proof -
  have "\<exists>m \<ge> n. odd m" for n :: nat
    by (rule exI [of _ "Suc (2 * n)"]) simp
  then show "patient (stuttering es)"
    by (auto simp: patient_def stuttering_def)
qed (simp_all add: stuttering_def)

theorem server_serves_whole_file_witness:
  "\<exists>k'. handleFileRequest example_fs example_fm ''a.txt'' (stuttering []) = Some (Inr (), k') \<and>
     tx k' = [6, 1, 2, 3, 7]"
  using server_serves_whole_file
      [of example_fm "''a.txt''" "mkFileInfo ''a.txt'' ''/s/a.txt'' 3 ''0a'' 7" example_fs "[1, 2, 3]"
        "stuttering []"]
  by (simp add: example_fm_def mkFileInfo_def fm_getFileInfo_def find_file_def file_messages_def
      blocks.simps BUFFER_SIZE_def)

lemma peer_list_blocked:
  assumes "rx k = [Data [type_byte PEER_LIST_REQUEST]]" and "blocked k"
  shows "handle_conn fs s k = None"
proof -
  have r: "server_receiveMessage k = (Inr [type_byte PEER_LIST_REQUEST], k\<lparr>rx := []\<rparr>)"
    using assms(1) server_receive_short [of "[type_byte PEER_LIST_REQUEST]" "[]" "[]"]
    by (simp add: server_receiveMessage_def BUFFER_SIZE_def)
  have "handlePeerListRequest (peer_manager s) (k\<lparr>rx := []\<rparr>) = None"
    using assms(2) by (simp add: handlePeerListRequest_def server_send_blocked blocked_def)
  then show ?thesis
    using r by (simp add: handle_conn_def processMessage_def byte_type_def)
qed

text \<open>
  C15. Every readiness event is handled to the end as long as the kernel's answers to \<open>send\<close> do
  not become \<open>EAGAIN\<close> for ever, whatever the client has sent and whatever the files are. The
  condition is needed: a client that asks for the peer list and never reads blocks the one
  accept thread, and with it every other connection, for good.
\<close>

theorem handler_returns_unless_blocked:
  "(responsive k \<longrightarrow> (\<exists>r. handle_conn fs s k = Some r)) \<and>
   (map_of (clients s) fd = Some k' \<and> rx k' = [Data [type_byte PEER_LIST_REQUEST]] \<and> blocked k' \<longrightarrow>
      accept_events fs (Readable fd # evs) s = None)"
  using handle_conn_responsive peer_list_blocked
  by (auto simp: accept_event_def handleClientConnection_def)

lemma calm_responsive [simp]: "responsive (calm es)"
  by (auto simp: responsive_def calm_def)

theorem handler_returns_unless_blocked_witness:
  "(\<exists>r. handle_conn example_fs (new_Server 8888 example_fm) (calm [Data [3]]) = Some r) \<and>
   accept_events example_fs [Readable 9, Readable 10]
     ((new_Server 8888 example_fm)\<lparr>clients := [(9, (calm [Data [1]])\<lparr>answers := \<lambda>_. Refuse EAGAIN\<rparr>)]\<rparr>) = None"
  using handler_returns_unless_blocked
      [of "calm [Data [3]]" example_fs "new_Server 8888 example_fm" 0 "calm []" "[]"]
    handler_returns_unless_blocked
      [of "calm []" example_fs
        "(new_Server 8888 example_fm)\<lparr>clients := [(9, (calm [Data [1]])\<lparr>answers := \<lambda>_. Refuse EAGAIN\<rparr>)]\<rparr>"
        9 "(calm [Data [1]])\<lparr>answers := \<lambda>_. Refuse EAGAIN\<rparr>" "[Readable 10]"]
  by (simp add: blocked_def)

text \<open>
  C17. The server takes what one event delivers as the message: full buffers followed by a shorter
  read are joined. But when the input is a whole number of buffers and the client has then
  closed its side, the message is lost: the connection is dropped and nothing is answered.
\<close>

theorem server_message_boundaries:
  assumes "\<forall>b \<in> set bs. length b = 8192"
  shows "(0 < length xs \<and> length xs < 8192 \<and> rx k = map Data bs @ Data xs # es \<longrightarrow>
      server_receiveMessage k = (Inr (concat bs @ xs), k\<lparr>rx := es\<rparr>)) \<and>
    (rx k = map Data bs @ [Eof] \<longrightarrow>
      handle_conn fs s k = Some (False, k\<lparr>rx := [Eof]\<rparr>))"
proof (intro conjI impI)
  have full: "\<forall>b \<in> set bs. length b = BUFFER_SIZE"
    using assms by (simp add: BUFFER_SIZE_def)
  show "0 < length xs \<and> length xs < 8192 \<and> rx k = map Data bs @ Data xs # es \<Longrightarrow>
      server_receiveMessage k = (Inr (concat bs @ xs), k\<lparr>rx := es\<rparr>)"
    by (simp add: server_receiveMessage_def server_receive_full_blocks [OF full]
        server_receive_short BUFFER_SIZE_def)
  show "rx k = map Data bs @ [Eof] \<Longrightarrow> handle_conn fs s k = Some (False, k\<lparr>rx := [Eof]\<rparr>)"
    by (simp add: handle_conn_def server_receiveMessage_def server_receive_full_blocks [OF full])
      (simp add: server_receive_loop.simps)
qed

theorem server_message_boundaries_witness:
  "handle_conn example_fs (new_Server 8888 example_fm)
     (calm [Data (5 # replicate 8191 97), Eof]) =
   Some (False, (calm [Data (5 # replicate 8191 97), Eof])\<lparr>rx := [Eof]\<rparr>) \<and>
   server_receiveMessage (calm [Data [3]]) = (Inr [3], (calm [Data [3]])\<lparr>rx := []\<rparr>)"
  using server_message_boundaries
      [of "[5 # replicate 8191 97]" "[]" "calm [Data (5 # replicate 8191 97), Eof]" "[]" example_fs
        "new_Server 8888 example_fm"]
    server_message_boundaries [of "[]" "[3]" "calm [Data [3]]" "[]"]
  by simp

text \<open>
  C16. Descriptors: a start that fails closes everything it had opened and leaves the server as it
  was; after a successful start, any events and \<open>stop\<close>, what is still open are exactly the
  accepted sockets that no error has closed: \<open>stop\<close> does not close them.
\<close>

theorem server_descriptors:
  "(server_start v s = (False, s') \<longrightarrow>
      srv_fds s' = srv_fds s \<and> srv_running s' = srv_running s) \<and>
   (server_start v s = (True, s1) \<and> clients s = [] \<and>
      accept_events fs evs s1 = Some s2 \<and> fresh_events fs evs s1 \<longrightarrow>
      mset (srv_fds (server_stop s2)) = mset (srv_fds s) + mset (map fst (clients s2)))"
proof (intro conjI impI)
  show "srv_fds s' = srv_fds s" and "srv_running s' = srv_running s"
    if "server_start v s = (False, s')"
    using that server_start_cases [where v = v and s = s] by simp_all
next
  assume a: "server_start v s = (True, s1) \<and> clients s = [] \<and>
      accept_events fs evs s1 = Some s2 \<and> fresh_events fs evs s1"
  then have "srv_wf (srv_fds s) s1"
    using server_start_cases [where v = v and s = s] by simp
  with a have "srv_wf (srv_fds s) s2"
    using accept_events_wf by blast
  then show "mset (srv_fds (server_stop s2)) = mset (srv_fds s) + mset (map fst (clients s2))"
    by (rule server_stop_wf)
qed

theorem server_descriptors_witness:
  "srv_fds (snd (server_start \<lparr>r_socket = 3, r_setsockopt = 0, r_bind = -1, r_listen = 0,
       r_epoll = 4, r_ctl = 0\<rparr> (new_Server 8888 example_fm))) = [] \<and>
   (\<exists>s2. accept_events example_fs [Incoming 5 (calm [])]
       (snd (server_start \<lparr>r_socket = 3, r_setsockopt = 0, r_bind = 0, r_listen = 0,
         r_epoll = 4, r_ctl = 0\<rparr> (new_Server 8888 example_fm))) = Some s2 \<and>
     mset (srv_fds (server_stop s2)) = {#5#})"
proof -
  let ?bad = "\<lparr>r_socket = 3, r_setsockopt = 0, r_bind = -1, r_listen = 0, r_epoll = 4, r_ctl = 0\<rparr>"
  let ?good = "?bad\<lparr>r_bind := 0\<rparr>"
  let ?s = "new_Server 8888 example_fm"
  have "fst (server_start ?bad ?s) = False"
    by (simp add: server_start_def new_Server_def Let_def)
  then have 1: "srv_fds (snd (server_start ?bad ?s)) = []"
    using server_descriptors [where v = ?bad and s = ?s and s' = "snd (server_start ?bad ?s)"]
    by (cases "server_start ?bad ?s") (simp add: new_Server_def)
  obtain s1 where s1: "server_start ?good ?s = (True, s1)"
    by (simp add: server_start_def new_Server_def Let_def)
  then have "clients s1 = []" and "5 \<notin> set (srv_fds s1)"
    by (auto simp: server_start_def new_Server_def Let_def)
  moreover obtain s2 where s2: "accept_events example_fs [Incoming 5 (calm [])] s1 = Some s2"
      and "clients s2 = AList.update 5 (calm []) (clients s1)"
    by (simp add: accept_event_def)
  ultimately have "mset (srv_fds (server_stop s2)) = {#5#}"
    using server_descriptors [where v = ?good and s = ?s and ?s1.0 = s1 and fs = example_fs
        and evs = "[Incoming 5 (calm [])]" and ?s2.0 = s2] s1 s2(1)
    by (simp add: new_Server_def accept_event_def)
  with 1 s1 s2 show ?thesis
    by simp
qed

text \<open>Of several bootstrap peers only the last one is known.\<close>

lemma bootstrap_peers_overwrite:
  "getAllPeers (peer_manager (addBootstrapPeer t2 a2 p2 (addBootstrapPeer t1 a1 p1 (new_Server port m)))) = [1]"
  by (simp add: addBootstrapPeer_def make_shared_def addPeer_def new_Server_def new_PeerManager_def
      getAllPeers_def table_values_def table_put_def deref_def new_Peer_def updateLastSeen_def)

end
