(* ===== verification/HPServer.thy ===== *)
theory HPServer
  imports Server
begin

text \<open>
  \<open>include/HighPerformanceServer.h\<close> and \<open>src/HighPerformanceServer.cpp\<close>: the life cycle of the
  event-driven server, its accept loop and the dispatch of readiness events.

  The source declares \<open>handleClientData\<close>, \<open>handleClientWrite\<close>, \<open>closeConnection\<close> and
  \<open>cleanupStaleConnections\<close> and calls them, but defines none of them; they are the arguments
  \<open>hp_handlers\<close> of the event loop. Nothing is assumed of them: what is proved holds for the runs that
  do not enter them, in which clients connect, nothing has yet arrived from one, and the clean-up of
  stale connections is not yet due. The results of the system calls at start-up are those of
  \<open>start_env\<close>. \<open>configureSocket\<close> ignores the results of its calls, so they are recorded as what
  was asked of the kernel for each descriptor.
\<close>

section \<open>State\<close>

text \<open>Socket options and the calls that set up a socket, with the constants of Linux.\<close>

datatype sockopt = SO_REUSEADDR | SO_REUSEPORT | TCP_NODELAY | SO_SNDBUF | SO_RCVBUF

datatype sock_call = F_SETFL u32 | Setsockopt sockopt int | Epoll_add u32

definition O_RDWR :: u32 where "O_RDWR = 2"
definition O_NONBLOCK :: u32 where "O_NONBLOCK = 0x800"
definition EPOLLIN :: u32 where "EPOLLIN = 1"
definition EPOLLOUT :: u32 where "EPOLLOUT = 4"
definition EPOLLERR :: u32 where "EPOLLERR = 8"
definition EPOLLHUP :: u32 where "EPOLLHUP = 16"
definition EPOLLET :: u32 where "EPOLLET = 0x80000000"

datatype conn_state = READING_HEADER | READING_BODY | WRITING_RESPONSE

record Connection =
  cn_socket_fd :: int
  cn_peer_address :: string
  read_buffer :: "byte list"
  write_buffer :: "byte list"
  bytes_read :: u64
  bytes_written :: u64
  last_activity :: int
  cn_state :: conn_state
  expected_message_size :: u32

definition new_Connection :: "int \<Rightarrow> int \<Rightarrow> string \<Rightarrow> Connection" where
  "new_Connection now fd addr =
     \<lparr>cn_socket_fd = fd, cn_peer_address = addr, read_buffer = replicate BUFFER_SIZE 0,
      write_buffer = [], bytes_read = 0, bytes_written = 0, last_activity = now,
      cn_state = READING_HEADER, expected_message_size = 0\<rparr>"

record HPServer =
  hp_socket :: int
  hp_epoll :: int
  hp_port :: int
  hp_running :: bool
  connections :: "(int \<times> Connection) list"
  hp_peers :: PeerManager
  hp_files :: FileManager
  hp_fds :: "int list"     \<comment> \<open>descriptors opened and not closed\<close>
  hp_calls :: "int \<Rightarrow> sock_call list"   \<comment> \<open>what was asked for the socket of a descriptor\<close>
  last_cleanup :: "int option"   \<comment> \<open>a \<open>static\<close> of the event loop, set when first reached\<close>

text \<open>The constructor leaves \<open>server_socket\<close> and \<open>epoll_fd\<close> indeterminate; \<open>start\<close> sets them before
  anything reads them.\<close>

definition new_HPServer :: "int \<Rightarrow> FileManager \<Rightarrow> HPServer" where
  "new_HPServer port fm =
     \<lparr>hp_socket = -1, hp_epoll = -1, hp_port = port, hp_running = False, connections = [],
      hp_peers = new_PeerManager, hp_files = fm, hp_fds = [], hp_calls = (\<lambda>_. []),
      last_cleanup = None\<rparr>"

record hp_handlers =
  handleClientData :: "int \<Rightarrow> HPServer \<Rightarrow> HPServer"
  handleClientWrite :: "int \<Rightarrow> HPServer \<Rightarrow> HPServer"
  closeConnection :: "int \<Rightarrow> HPServer \<Rightarrow> HPServer"
  cleanupStaleConnections :: "HPServer \<Rightarrow> HPServer"

section \<open>Sockets\<close>

definition hp_open :: "int \<Rightarrow> HPServer \<Rightarrow> HPServer" where
  "hp_open fd s = s\<lparr>hp_fds := fd # hp_fds s, hp_calls := (hp_calls s)(fd := [])\<rparr>"

definition hp_call :: "int \<Rightarrow> sock_call \<Rightarrow> HPServer \<Rightarrow> HPServer" where
  "hp_call fd call s = s\<lparr>hp_calls := (hp_calls s)(fd := hp_calls s fd @ [call])\<rparr>"

text \<open>\<open>fcntl(fd, F_GETFL)\<close>: a new socket is open for reading and writing, and \<open>F_SETFL\<close> sets the
  flags.\<close>

definition fcntl_getfl :: "sock_call list \<Rightarrow> u32" where
  "fcntl_getfl cs =
     foldl (\<lambda>flags call. case call of F_SETFL w \<Rightarrow> w | _ \<Rightarrow> flags) O_RDWR cs"

definition configureSocket :: "int \<Rightarrow> HPServer \<Rightarrow> HPServer" where
  "configureSocket fd s =
     (let flags = fcntl_getfl (hp_calls s fd);
          s1 = hp_call fd (F_SETFL (flags OR O_NONBLOCK)) s;
          s2 = hp_call fd (Setsockopt SO_REUSEADDR 1) s1;
          s3 = hp_call fd (Setsockopt SO_REUSEPORT 1) s2;
          s4 = hp_call fd (Setsockopt TCP_NODELAY 1) s3;
          buffer_size = 64 * 1024;
          s5 = hp_call fd (Setsockopt SO_SNDBUF buffer_size) s4
      in hp_call fd (Setsockopt SO_RCVBUF buffer_size) s5)"

definition nonblocking :: "sock_call list \<Rightarrow> bool" where
  "nonblocking cs \<longleftrightarrow> fcntl_getfl cs AND O_NONBLOCK \<noteq> 0"

section \<open>Life cycle\<close>

definition hp_close :: "int \<Rightarrow> HPServer \<Rightarrow> HPServer" where
  "hp_close fd s = s\<lparr>hp_fds := remove1 fd (hp_fds s)\<rparr>"

text \<open>\<open>start\<close> is for a server that is not running: assigning to the thread of a running one would
  end the program, and nothing in the source does so.\<close>

definition hp_start :: "start_env \<Rightarrow> HPServer \<Rightarrow> bool \<times> HPServer" where
  "hp_start v s =
     (let s0 = s\<lparr>hp_socket := r_socket v\<rparr>
      in if r_socket v < 0 then (False, s0)
         else
           let s1 = configureSocket (r_socket v) (hp_open (r_socket v) s0)
           in if r_bind v < 0 then (False, hp_close (r_socket v) s1)
              else if r_listen v < 0 then (False, hp_close (r_socket v) s1)
              else
                let s2 = s1\<lparr>hp_epoll := r_epoll v\<rparr>
                in if r_epoll v < 0 then (False, hp_close (r_socket v) s2)
                   else
                     let s3 = hp_call (r_socket v) (Epoll_add EPOLLIN)
                            (s2\<lparr>hp_fds := r_epoll v # hp_fds s2\<rparr>)
                     in if r_ctl v < 0
                        then (False, hp_close (r_socket v) (hp_close (r_epoll v) s3))
                        else (True, s3\<lparr>hp_running := True, hp_peers := pm_start (hp_peers s3)\<rparr>))"

definition hp_stop :: "HPServer \<Rightarrow> HPServer" where
  "hp_stop s =
     (if \<not> hp_running s then s
      else
        let s1 = s\<lparr>hp_running := False, hp_peers := pm_stop (hp_peers s)\<rparr>;
            s2 = foldl (\<lambda>s fd. hp_close fd s) s1 (map fst (connections s1));
            s3 = s2\<lparr>connections := []\<rparr>;
            s4 = (if 0 \<le> hp_epoll s3 then hp_close (hp_epoll s3) s3 else s3)
        in if 0 \<le> hp_socket s4 then hp_close (hp_socket s4) s4 else s4)"

text \<open>The destructor stops the server and destroys its managers.\<close>

definition hp_destroy :: "HPServer \<Rightarrow> HPServer" where
  "hp_destroy s = (let s1 = hp_stop s in s1\<lparr>hp_peers := pm_destroy (hp_peers s1)\<rparr>)"

section \<open>Events\<close>

text \<open>
  The loop around \<open>accept\<close>: the list holds, for each call, the new descriptor (or a negative
  number for a failure), the client's address and the result of \<open>epoll_ctl\<close>; its end is
  \<open>EAGAIN\<close>.
\<close>

fun handleNewConnection :: "int \<Rightarrow> (int \<times> string \<times> int) list \<Rightarrow> HPServer \<Rightarrow> HPServer" where
  "handleNewConnection now [] s = s"
| "handleNewConnection now ((fd, addr, ctl) # rs) s =
     (if fd < 0 then s
      else
        let s1 = hp_call fd (Epoll_add (EPOLLIN OR EPOLLET)) (configureSocket fd (hp_open fd s))
        in if ctl < 0 then handleNewConnection now rs (hp_close fd s1)
           else handleNewConnection now rs
                  (s1\<lparr>connections := AList.update fd (new_Connection now fd addr) (connections s1)\<rparr>))"

record hp_event =
  ev_fd :: int
  ev_mask :: u32
  ev_accepts :: "(int \<times> string \<times> int) list"   \<comment> \<open>what \<open>accept\<close> answers, for the listening socket\<close>

definition hp_dispatch :: "hp_handlers \<Rightarrow> int \<Rightarrow> hp_event \<Rightarrow> HPServer \<Rightarrow> HPServer" where
  "hp_dispatch h now ev s =
     (if ev_fd ev = hp_socket s then
        (if ev_mask ev AND EPOLLIN \<noteq> 0 then handleNewConnection now (ev_accepts ev) s else s)
      else if ev_mask ev AND (EPOLLERR OR EPOLLHUP) \<noteq> 0 then closeConnection h (ev_fd ev) s
      else if ev_mask ev AND EPOLLIN \<noteq> 0 then handleClientData h (ev_fd ev) s
      else if ev_mask ev AND EPOLLOUT \<noteq> 0 then handleClientWrite h (ev_fd ev) s
      else s)"

text \<open>One turn of \<open>eventLoop\<close>: the events of one \<open>epoll_wait\<close>, then the periodic clean-up. \<open>now\<close> is
  the steady clock, in nanoseconds.\<close>

definition hp_turn :: "hp_handlers \<Rightarrow> int \<Rightarrow> hp_event list \<Rightarrow> HPServer \<Rightarrow> HPServer" where
  "hp_turn h now evs s =
     (let s1 = foldl (\<lambda>s ev. hp_dispatch h now ev s) s evs
      in case last_cleanup s1 of
           None \<Rightarrow> s1\<lparr>last_cleanup := Some now\<rparr>
         | Some t \<Rightarrow>
             (if (now - t) div 1000000000 > 60
              then (cleanupStaleConnections h s1)\<lparr>last_cleanup := Some now\<rparr> else s1))"

definition getActiveConnectionCount :: "HPServer \<Rightarrow> nat" where
  "getActiveConnectionCount s = length (connections s)"

section \<open>Descriptors\<close>

definition hp_wf :: "int list \<Rightarrow> HPServer \<Rightarrow> bool" where
  "hp_wf base s \<longleftrightarrow> hp_running s \<and> 0 \<le> hp_socket s \<and> 0 \<le> hp_epoll s \<and>
     distinct (map fst (connections s)) \<and>
     mset (hp_fds s) = mset base + {#hp_socket s, hp_epoll s#} + mset (map fst (connections s)) \<and>
     (\<forall>fd \<in> insert (hp_socket s) (fst ` set (connections s)). nonblocking (hp_calls s fd))"

text \<open>The kernel hands out descriptors that are not in use.\<close>

fun fresh_accepts :: "int \<Rightarrow> (int \<times> string \<times> int) list \<Rightarrow> HPServer \<Rightarrow> bool" where
  "fresh_accepts now [] s = True"
| "fresh_accepts now ((fd, addr, ctl) # rs) s =
     (fd < 0 \<or>
      fd \<notin> set (hp_fds s) \<and>
        fresh_accepts now rs (handleNewConnection now [(fd, addr, ctl)] s))"

text \<open>An event, and a turn's end, that the defined functions handle by themselves.\<close>

definition own_event :: "hp_event \<Rightarrow> HPServer \<Rightarrow> bool" where
  "own_event ev s \<longleftrightarrow>
     ev_fd ev = hp_socket s \<or>
     ev_mask ev AND (EPOLLERR OR EPOLLHUP) = 0 \<and> ev_mask ev AND EPOLLIN = 0 \<and> ev_mask ev AND EPOLLOUT = 0"

definition cleanup_due :: "int \<Rightarrow> HPServer \<Rightarrow> bool" where
  "cleanup_due now s =
     (case last_cleanup s of None \<Rightarrow> False | Some t \<Rightarrow> (now - t) div 1000000000 > 60)"

text \<open>The runs of the event loop, event by event, that stay within the code of the repository.\<close>

inductive hp_run :: "hp_handlers \<Rightarrow> HPServer \<Rightarrow> HPServer \<Rightarrow> bool" for h where
  idle: "hp_run h s s"
| event: "hp_run h s s1 \<Longrightarrow> own_event ev s1 \<Longrightarrow>
    ev_fd ev = hp_socket s1 \<longrightarrow> fresh_accepts now (ev_accepts ev) s1 \<Longrightarrow>
    hp_run h s (hp_dispatch h now ev s1)"
| cleanup: "hp_run h s s1 \<Longrightarrow> \<not> cleanup_due now s1 \<Longrightarrow> hp_run h s (hp_turn h now [] s1)"

lemma hp_call_fields [simp]:
  "hp_fds (hp_call fd call s) = hp_fds s" "connections (hp_call fd call s) = connections s"
  "hp_socket (hp_call fd call s) = hp_socket s" "hp_epoll (hp_call fd call s) = hp_epoll s"
  "hp_running (hp_call fd call s) = hp_running s" "hp_peers (hp_call fd call s) = hp_peers s"
  by (simp_all add: hp_call_def)

lemma configureSocket_fields [simp]:
  "hp_fds (configureSocket fd s) = hp_fds s" "connections (configureSocket fd s) = connections s"
  "hp_socket (configureSocket fd s) = hp_socket s" "hp_epoll (configureSocket fd s) = hp_epoll s"
  "hp_running (configureSocket fd s) = hp_running s" "hp_peers (configureSocket fd s) = hp_peers s"
  by (simp_all add: configureSocket_def Let_def)

lemma hp_open_fields [simp]:
  "hp_fds (hp_open fd s) = fd # hp_fds s" "connections (hp_open fd s) = connections s"
  "hp_socket (hp_open fd s) = hp_socket s" "hp_epoll (hp_open fd s) = hp_epoll s"
  "hp_running (hp_open fd s) = hp_running s" "hp_peers (hp_open fd s) = hp_peers s"
  by (simp_all add: hp_open_def)

lemma hp_close_fields [simp]:
  "hp_fds (hp_close fd s) = remove1 fd (hp_fds s)" "connections (hp_close fd s) = connections s"
  "hp_socket (hp_close fd s) = hp_socket s" "hp_epoll (hp_close fd s) = hp_epoll s"
  "hp_running (hp_close fd s) = hp_running s" "hp_peers (hp_close fd s) = hp_peers s"
  "hp_calls (hp_close fd s) = hp_calls s"
  by (simp_all add: hp_close_def)

lemma configured_nonblocking [simp]: "nonblocking (hp_calls (configureSocket fd s) fd)"
proof -
  have "(w OR O_NONBLOCK) AND O_NONBLOCK = O_NONBLOCK" for w
    by (rule bit_eqI) (auto simp: bit_simps)
  moreover have "O_NONBLOCK \<noteq> 0"
    by (simp add: O_NONBLOCK_def)
  ultimately show ?thesis
    by (simp add: nonblocking_def configureSocket_def hp_call_def fcntl_getfl_def Let_def)
qed

lemma nonblocking_epoll_add [simp]:
  "nonblocking (hp_calls (hp_call fd' (Epoll_add w) s) fd) = nonblocking (hp_calls s fd)"
  by (simp add: nonblocking_def hp_call_def fcntl_getfl_def)

lemma calls_of_others:
  "fd' \<noteq> fd \<Longrightarrow> hp_calls (configureSocket fd (hp_open fd s)) fd' = hp_calls s fd'"
  by (simp add: configureSocket_def hp_call_def hp_open_def Let_def)

text \<open>A descriptor that is not in use can be set up, and closed again or entered into the table.\<close>

lemma hp_wf_accept:
  assumes "hp_wf base s" and "fd \<notin> set (hp_fds s)"
    and "s1 = hp_call fd (Epoll_add w) (configureSocket fd (hp_open fd s))"
  shows "hp_wf base (hp_close fd s1)"
    and "hp_wf base (s1\<lparr>connections := AList.update fd (new_Connection now fd addr) (connections s1)\<rparr>)"
proof -
  have "set_mset (mset (map fst (connections s))) \<subseteq> set_mset (mset (hp_fds s))"
      and "hp_socket s \<in># mset (hp_fds s)"
    using assms(1) unfolding hp_wf_def by auto
  then have fresh: "\<forall>c \<in> set (connections s). fst c \<noteq> fd" "fd \<noteq> hp_socket s"
    using assms(2) by auto
  have "nonblocking (hp_calls s1 fd') = nonblocking (hp_calls s fd')" if "fd' \<noteq> fd" for fd'
    unfolding assms(3) nonblocking_epoll_add calls_of_others [OF that] ..
  moreover have "nonblocking (hp_calls s1 fd)"
    by (simp add: assms(3))
  moreover have "fd \<notin> fst ` set (connections s)"
    using fresh by auto
  moreover have "hp_fds s1 = fd # hp_fds s" and "connections s1 = connections s"
      and "hp_socket s1 = hp_socket s" and "hp_epoll s1 = hp_epoll s" and "hp_running s1 = hp_running s"
    by (simp_all add: assms(3))
  ultimately show "hp_wf base (hp_close fd s1)"
    and "hp_wf base (s1\<lparr>connections := AList.update fd (new_Connection now fd addr) (connections s1)\<rparr>)"
    using assms(1) fresh map_fst_update_new [of fd "connections s" "new_Connection now fd addr"]
    by (auto simp: hp_wf_def dom_update image_iff simp del: mset_map)
qed

lemma hp_wf_accepts:
  "hp_wf base s \<Longrightarrow> fresh_accepts now rs s \<Longrightarrow> hp_wf base (handleNewConnection now rs s)"
proof (induction now rs s rule: handleNewConnection.induct)
  case (2 now fd addr ctl rs s)
  with hp_wf_accept [OF 2(3) _ refl] show ?case
    by (auto simp: Let_def split: if_splits)
qed simp

lemma hp_wf_dispatch:
  "own_event ev s \<Longrightarrow> hp_wf base s \<Longrightarrow>
   ev_fd ev = hp_socket s \<longrightarrow> fresh_accepts now (ev_accepts ev) s \<Longrightarrow>
   hp_wf base (hp_dispatch h now ev s)"
  by (auto simp: hp_dispatch_def own_event_def hp_wf_accepts)

lemma hp_wf_run: "hp_run h s s' \<Longrightarrow> hp_wf base s \<Longrightarrow> hp_wf base s'"
proof (induction rule: hp_run.induct)
  case (event s s1 ev now)
  then show ?case by (blast intro: hp_wf_dispatch)
next
  case (cleanup s s1 now)
  then have "hp_wf base s1"
    by simp
  with cleanup.hyps(2) show ?case
    by (simp add: hp_turn_def cleanup_due_def hp_wf_def Let_def split: option.splits)
qed simp

text \<open>A whole turn is its events one by one and the clean-up, so \<open>hp_run\<close> covers it.\<close>

lemma hp_turn_split: "hp_turn h now evs s = hp_turn h now [] (foldl (\<lambda>s ev. hp_dispatch h now ev s) s evs)"
  by (simp add: hp_turn_def)

lemma foldl_hp_close:
  "foldl (\<lambda>s fd. hp_close fd s) s fds = s\<lparr>hp_fds := foldl (\<lambda>xs fd. remove1 fd xs) (hp_fds s) fds\<rparr>"
  by (induction fds arbitrary: s) (simp_all add: hp_close_def)

lemma mset_foldl_remove1:
  "mset (foldl (\<lambda>xs fd. remove1 fd xs) xs fds) = mset xs - mset fds"
  by (induction fds arbitrary: xs) simp_all

lemma hp_start_cases:
  "case hp_start v s of
     (False, s') \<Rightarrow> hp_fds s' = hp_fds s \<and> hp_running s' = hp_running s
   | (True, s') \<Rightarrow> connections s = [] \<longrightarrow> hp_wf (hp_fds s) s'"
  by (simp add: hp_start_def hp_close_def hp_wf_def Let_def)

lemma hp_stop_wf:
  assumes "hp_wf base s"
  shows "mset (hp_fds (hp_stop s)) = mset base \<and> connections (hp_stop s) = [] \<and> \<not> hp_running (hp_stop s)"
  using assms unfolding hp_stop_def foldl_hp_close
  by (simp add: hp_wf_def hp_close_def mset_foldl_remove1 Let_def del: mset_map)

interpretation hp_service: service hp_running hp_stop
  by unfold_locales (simp_all only: hp_stop_def foldl_hp_close, simp_all add: hp_close_def Let_def)

section \<open>Properties\<close>

text \<open>
  C29. The event-driven server does not leak descriptors: a start that fails closes what it
  had opened; and after a successful start, any number of accepted connections, of failed
  accepts and failed registrations, and \<open>stop\<close>, nothing it opened is left and no connection is
  counted. The runs are those of the defined code: no client has sent anything yet, and no clean-up
  is due.
\<close>

theorem hp_server_descriptors:
  "(hp_start v s = (False, s') \<longrightarrow> hp_fds s' = hp_fds s \<and> hp_running s' = hp_running s) \<and>
   (hp_start v s = (True, s1) \<and> connections s = [] \<and> hp_run h s1 s2 \<longrightarrow>
      mset (hp_fds (hp_stop s2)) = mset (hp_fds s) \<and> getActiveConnectionCount (hp_stop s2) = 0)"
proof (intro conjI impI)
  show "hp_fds s' = hp_fds s" and "hp_running s' = hp_running s" if "hp_start v s = (False, s')"
    using that hp_start_cases [where v = v and s = s] by simp_all
  assume a: "hp_start v s = (True, s1) \<and> connections s = [] \<and> hp_run h s1 s2"
  then have "hp_wf (hp_fds s) s1"
    using hp_start_cases [where v = v and s = s] by simp
  with a have "hp_wf (hp_fds s) s2"
    using hp_wf_run by blast
  then show "mset (hp_fds (hp_stop s2)) = mset (hp_fds s)" and "getActiveConnectionCount (hp_stop s2) = 0"
    using hp_stop_wf by (auto simp: getActiveConnectionCount_def)
qed

text \<open>Handlers for the examples; the runs do not call them.\<close>

definition example_handlers :: hp_handlers where
  "example_handlers =
     \<lparr>handleClientData = (\<lambda>fd s. s), handleClientWrite = (\<lambda>fd s. s), closeConnection = (\<lambda>fd s. s),
      cleanupStaleConnections = (\<lambda>s. s)\<rparr>"

text \<open>A server that has accepted one connection and failed to register another.\<close>

definition one_start :: start_env where
  "one_start = \<lparr>r_socket = 3, r_setsockopt = 0, r_bind = 0, r_listen = 0, r_epoll = 4, r_ctl = 0\<rparr>"

lemma one_connection:
  obtains s1 s2 where "hp_start one_start (new_HPServer 8888 example_fm) = (True, s1)"
    and "hp_run example_handlers s1 s2" and "map fst (connections s2) = [5]"
proof -
  let ?ev = "\<lparr>ev_fd = 3, ev_mask = 1, ev_accepts = [(5, ''10.0.0.7'', 0), (6, ''10.0.0.8'', -1)]\<rparr>"
  obtain s1 where s1: "hp_start one_start (new_HPServer 8888 example_fm) = (True, s1)"
    by (simp add: one_start_def hp_start_def Let_def)
  then have f: "hp_socket s1 = 3" "hp_fds s1 = [4, 3]" "connections s1 = []"
    by (auto simp: one_start_def hp_start_def new_HPServer_def Let_def)
  have "hp_run example_handlers s1 (hp_dispatch example_handlers 0 ?ev s1)"
    by (rule hp_run.event [OF hp_run.idle]) (simp_all add: f own_event_def Let_def)
  moreover have "map fst (connections (hp_dispatch example_handlers 0 ?ev s1)) = [5]"
    by (simp add: hp_dispatch_def f EPOLLIN_def Let_def)
  ultimately show ?thesis
    by (rule that [OF s1])
qed

theorem hp_server_descriptors_witness:
  "\<exists>s1 s2. hp_start one_start (new_HPServer 8888 example_fm) = (True, s1) \<and>
    hp_run example_handlers s1 s2 \<and> getActiveConnectionCount s2 = 1 \<and>
    hp_fds (hp_stop s2) = []"
proof (rule one_connection)
  fix s1 s2
  assume a: "hp_start one_start (new_HPServer 8888 example_fm) = (True, s1)"
    "hp_run example_handlers s1 s2" "map fst (connections s2) = [5]"
  then have "getActiveConnectionCount s2 = 1"
    unfolding getActiveConnectionCount_def using length_map [of fst "connections s2"] by simp
  moreover have "hp_fds (hp_stop s2) = []"
    using hp_server_descriptors [of one_start "new_HPServer 8888 example_fm" s1 s1 example_handlers s2] a
    by (simp add: new_HPServer_def)
  ultimately show ?thesis
    using a by blast
qed

text \<open>
  The event loop never waits inside \<open>accept\<close> or a read: in every state a started server
  reaches, the listening socket and every socket in the table of connections are open and
  were made non-blocking before they were registered for events, as the edge-triggered
  registration needs.
\<close>

theorem hp_sockets_nonblocking:
  assumes "hp_start v s = (True, s1)" and "connections s = []"
    and "hp_run h s1 s2" and "fd = hp_socket s2 \<or> fd \<in> set (map fst (connections s2))"
  shows "fcntl_getfl (hp_calls s2 fd) AND O_NONBLOCK \<noteq> 0 \<and> fd \<in> set (hp_fds s2)"
proof -
  have "hp_wf (hp_fds s) s1"
    using hp_start_cases [where v = v and s = s] assms(1,2) by simp
  then have wf: "hp_wf (hp_fds s) s2"
    using hp_wf_run assms(3) by blast
  then have "nonblocking (hp_calls s2 fd)"
    using assms(4) by (auto simp: hp_wf_def)
  moreover have "fd \<in># mset (hp_fds s2)"
    using wf assms(4) unfolding hp_wf_def by auto
  ultimately show ?thesis
    by (simp add: nonblocking_def)
qed

theorem hp_sockets_nonblocking_witness:
  "\<exists>s1 s2. hp_start one_start (new_HPServer 8888 example_fm) = (True, s1) \<and>
    hp_run example_handlers s1 s2 \<and> map fst (connections s2) = [5] \<and>
    fcntl_getfl (hp_calls s2 5) AND O_NONBLOCK \<noteq> 0"
proof (rule one_connection)
  fix s1 s2
  assume a: "hp_start one_start (new_HPServer 8888 example_fm) = (True, s1)"
    "hp_run example_handlers s1 s2" "map fst (connections s2) = [5]"
  then show ?thesis
    using hp_sockets_nonblocking [OF a(1) _ a(2), of 5]
    by (auto simp: new_HPServer_def)
qed

end
