(* ===== verification/Console.thy ===== *)
theory Console
  imports Peer
begin

text \<open>
  The text side of \<open>src/CLI.cpp\<close>: how a command line is split into arguments
  (\<open>parseCommand\<close>, with \<open>std::quoted\<close> as the standard library implements it) and how tables
  are printed (\<open>setw\<close> with \<open>left\<close>, \<open>printFileList\<close>). Text is a string of bytes, a literal
  of the source that is not ASCII the bytes of its UTF-8 form.
\<close>

section \<open>Splitting a line\<close>

definition DQUOTE :: char where "DQUOTE = CHR 0x22"
definition ESCAPE :: char where "ESCAPE = CHR 0x5C"

text \<open>
  Extraction with \<open>std::quoted\<close> after the opening quote: the escape character takes the next
  one literally, and the end of the stream before the closing quote is a failure.
\<close>

fun read_quoted :: "string \<Rightarrow> (string \<times> string) option" where
  "read_quoted [] = None"
| "read_quoted (c # s) =
     (if c = ESCAPE then
        (case s of
           [] \<Rightarrow> None
         | d # s' \<Rightarrow>
             (case read_quoted s' of None \<Rightarrow> None | Some (t, rest) \<Rightarrow> Some (d # t, rest)))
      else if c = DQUOTE then Some ([], s)
      else (case read_quoted s of None \<Rightarrow> None | Some (t, rest) \<Rightarrow> Some (c # t, rest)))"

text \<open>One \<open>iss >> std::quoted(token)\<close>: white space is skipped; without a quote the token runs
  to the next white space.\<close>

definition extract_quoted :: "string \<Rightarrow> (string \<times> string) option" where
  "extract_quoted s =
     (case dropWhile is_space s of
        [] \<Rightarrow> None
      | c # s' \<Rightarrow>
          (if c = DQUOTE then read_quoted s'
           else Some (c # takeWhile (\<lambda>c. \<not> is_space c) s', dropWhile (\<lambda>c. \<not> is_space c) s')))"

lemma read_quoted_shorter: "read_quoted s = Some (t, rest) \<Longrightarrow> length rest < length s"
  by (induction s arbitrary: t rest rule: read_quoted.induct)
    (fastforce split: if_splits option.splits list.splits)+

lemma extract_quoted_shorter: "extract_quoted s = Some (t, rest) \<Longrightarrow> length rest < length s"
proof -
  assume x: "extract_quoted s = Some (t, rest)"
  then obtain c s' where s': "dropWhile is_space s = c # s'"
    by (auto simp: extract_quoted_def split: list.splits)
  then have "length (c # s') \<le> length s"
    by (metis length_dropWhile_le)
  moreover have "length rest \<le> length s'"
    using x s' read_quoted_shorter [of s' t rest] length_dropWhile_le [of "\<lambda>c. \<not> is_space c" s']
    by (auto simp: extract_quoted_def split: if_splits)
  ultimately show ?thesis by simp
qed

function parseCommand :: "string \<Rightarrow> string list" where
  "parseCommand input =
     (case extract_quoted input of
        None \<Rightarrow> []
      | Some (token, rest) \<Rightarrow> token # parseCommand rest)"
  by pat_completeness auto
termination
  by (relation "measure length") (auto dest: extract_quoted_shorter)

declare parseCommand.simps [simp del]

text \<open>\<open>std::transform\<close> with \<open>::tolower\<close>, in the C locale.\<close>

definition to_lower :: "char \<Rightarrow> char" where
  "to_lower c =
     (if 65 \<le> (of_char c :: nat) \<and> (of_char c :: nat) \<le> 90 then char_of ((of_char c :: nat) + 32) else c)"

subsection \<open>Writing an argument so that it is read back\<close>

text \<open>Output with \<open>std::quoted\<close>.\<close>

definition escape_char :: "char \<Rightarrow> string" where
  "escape_char c = (if c = DQUOTE \<or> c = ESCAPE then [ESCAPE, c] else [c])"

definition quote_arg :: "string \<Rightarrow> string" where
  "quote_arg t = DQUOTE # concat (map escape_char t) @ [DQUOTE]"

definition plain_arg :: "string \<Rightarrow> bool" where
  "plain_arg t \<longleftrightarrow> t \<noteq> [] \<and> hd t \<noteq> DQUOTE \<and> (\<forall>c \<in> set t. \<not> is_space c)"

text \<open>The two ways of writing one argument.\<close>

definition writes :: "string \<Rightarrow> string \<Rightarrow> bool" where
  "writes s t \<longleftrightarrow> s = quote_arg t \<or> plain_arg t \<and> s = t"

lemma DQUOTE_ESCAPE [simp]: "DQUOTE \<noteq> ESCAPE" "ESCAPE \<noteq> DQUOTE"
  by (simp_all add: DQUOTE_def ESCAPE_def)

lemma is_space_quote [simp]: "\<not> is_space DQUOTE" "is_space CHR '' ''"
  by (simp_all add: is_space_def DQUOTE_def)

lemma read_quoted_escaped:
  "read_quoted (concat (map escape_char t) @ DQUOTE # rest) = Some (t, rest)"
  by (induction t) (auto simp: escape_char_def)

lemma extract_quote_arg: "extract_quoted (quote_arg t @ rest) = Some (t, rest)"
  by (simp add: extract_quoted_def quote_arg_def read_quoted_escaped)

lemma extract_plain_arg:
  assumes "plain_arg t" and "rest = [] \<or> is_space (hd rest)"
  shows "extract_quoted (t @ rest) = Some (t, rest)"
proof -
  obtain c t' where t: "t = c # t'" and c: "\<not> is_space c" "c \<noteq> DQUOTE"
    and t': "\<forall>c \<in> set t'. \<not> is_space c"
    using assms(1) by (cases t) (auto simp: plain_arg_def)
  have "takeWhile (\<lambda>c. \<not> is_space c) (t' @ rest) = t'"
    and "dropWhile (\<lambda>c. \<not> is_space c) (t' @ rest) = rest"
    using t' assms(2) by (cases rest; simp)+
  then show ?thesis
    using c by (simp add: t extract_quoted_def)
qed

lemma extract_writes:
  "writes s t \<Longrightarrow> rest = [] \<or> is_space (hd rest) \<Longrightarrow> extract_quoted (s @ rest) = Some (t, rest)"
  unfolding writes_def by (elim disjE conjE) (simp_all only: extract_quote_arg extract_plain_arg simp_thms)

lemma extract_space: "is_space c \<Longrightarrow> extract_quoted (c # s) = extract_quoted s"
  by (simp add: extract_quoted_def)

lemma parseCommand_space: "is_space c \<Longrightarrow> parseCommand (c # s) = parseCommand s"
  by (simp add: parseCommand.simps [of "c # s"] parseCommand.simps [of s] extract_space)

lemma parseCommand_writes:
  "writes s t \<Longrightarrow> rest = [] \<or> is_space (hd rest) \<Longrightarrow> parseCommand (s @ rest) = t # parseCommand rest"
  by (simp add: parseCommand.simps [of "s @ rest"] extract_writes)

lemma parseCommand_Nil [simp]: "parseCommand [] = []"
  by (simp add: parseCommand.simps extract_quoted_def)

lemma read_quoted_open:
  "DQUOTE \<notin> set s \<Longrightarrow> read_quoted s = None"
  by (induction s rule: read_quoted.induct) (auto split: list.splits)

lemma parseCommand_open: "DQUOTE \<notin> set s \<Longrightarrow> parseCommand (DQUOTE # s) = []"
  by (simp add: parseCommand.simps extract_quoted_def read_quoted_open)

text \<open>A line: each argument with the white space before it, and what follows the last one.\<close>

fun line_of :: "(string \<times> string) list \<Rightarrow> string \<Rightarrow> string" where
  "line_of [] rest = rest"
| "line_of ((gap, s) # args) rest = gap @ s @ line_of args rest"

definition blanks :: "string \<Rightarrow> bool" where
  "blanks s \<longleftrightarrow> (\<forall>c \<in> set s. is_space c)"

lemma parseCommand_blanks: "blanks gap \<Longrightarrow> parseCommand (gap @ s) = parseCommand s"
  by (induction gap) (simp_all add: blanks_def parseCommand_space)

lemma parseCommand_line:
  assumes "list_all2 writes (map snd args) ts" and "\<forall>(gap, s) \<in> set args. blanks gap"
    and "\<forall>(gap, s) \<in> set (tl args). gap \<noteq> []" and "rest = [] \<or> is_space (hd rest)"
  shows "parseCommand (line_of args rest) = ts @ parseCommand rest"
  using assms
proof (induction args arbitrary: ts)
  case (Cons a args)
  obtain gap s where a: "a = (gap, s)"
    by (cases a)
  obtain t ts' where ts: "ts = t # ts'" "writes s t" "list_all2 writes (map snd args) ts'"
    using Cons.prems(1) by (auto simp: a list_all2_Cons1)
  have "line_of args rest = [] \<or> is_space (hd (line_of args rest))"
  proof (cases args)
    case (Cons b bs)
    then show ?thesis
      using Cons.prems(2,3) by (cases b) (auto simp: a blanks_def hd_append)
  qed (use Cons.prems(4) in simp)
  then have "parseCommand (s @ line_of args rest) = t # parseCommand (line_of args rest)"
    by (rule parseCommand_writes [OF ts(2)])
  moreover have "\<forall>(gap, s) \<in> set (tl args). gap \<noteq> []"
    using Cons.prems(3) by (cases args) auto
  ultimately show ?case
    using Cons.IH [OF ts(3)] Cons.prems(2,4) parseCommand_blanks [of gap]
    by (simp add: a ts(1))
qed simp

text \<open>
  C28. Whatever the arguments are, empty ones and ones with spaces, quotes and backslashes
  included, a line that writes each of them quoted (or plain, when it has no white space and
  does not begin with a quote), with white space between them and any or none at the two ends,
  is split into exactly these arguments; and a last quote that is never closed drops the text
  after it and nothing else.
\<close>

theorem command_line_roundtrip:
  assumes "list_all2 writes (map snd args) ts" and "\<forall>(gap, s) \<in> set args. blanks gap"
    and "\<forall>(gap, s) \<in> set (tl args). gap \<noteq> []" and "blanks tail" and "DQUOTE \<notin> set unclosed"
  shows "parseCommand (line_of args tail) = ts \<and>
    (tail \<noteq> [] \<longrightarrow> parseCommand (line_of args (tail @ DQUOTE # unclosed)) = ts)"
proof -
  have "tail = [] \<or> is_space (hd tail)" and "tail \<noteq> [] \<longrightarrow> is_space (hd (tail @ DQUOTE # unclosed))"
    using assms(4) by (cases tail; simp add: blanks_def)+
  then show ?thesis
    using parseCommand_line [OF assms(1-3), of tail] parseCommand_line [OF assms(1-3), of "tail @ DQUOTE # unclosed"]
      parseCommand_blanks [OF assms(4), of "[]"] parseCommand_blanks [OF assms(4), of "DQUOTE # unclosed"]
      parseCommand_open [OF assms(5)]
    by auto
qed

theorem command_line_roundtrip_witness:
  "parseCommand ''get a.txt'' = [''get'', ''a.txt''] \<and>
   parseCommand ('' get '' @ quote_arg ''my file.txt'' @ '' '' @ quote_arg []) =
     [''get'', ''my file.txt'', []] \<and>
   parseCommand (''get '' @ DQUOTE # ''my file.txt'') = [''get'']"
proof -
  have plain: "writes ''get'' ''get''" "writes ''a.txt'' ''a.txt''"
    by (simp_all add: writes_def plain_arg_def is_space_def DQUOTE_def)
  have quoted: "writes (quote_arg t) t" for t
    by (simp add: writes_def)
  show ?thesis
    using command_line_roundtrip [of "[([], ''get''), ('' '', ''a.txt'')]" "[''get'', ''a.txt'']" "[]" "[]"]
      command_line_roundtrip
        [of "[('' '', ''get''), ('' '', quote_arg ''my file.txt''), ('' '', quote_arg [])]"
          "[''get'', ''my file.txt'', []]" "[]" "[]"]
      command_line_roundtrip [of "[([], ''get'')]" "[''get'']" "'' ''" "''my file.txt''"] plain quoted
    by (simp add: blanks_def DQUOTE_def)
qed

section \<open>Tables\<close>

text \<open>\<open>std::left << std::setw(n)\<close>: a longer text is not cut.\<close>

definition setw :: "nat \<Rightarrow> string \<Rightarrow> string" where
  "setw n s = s @ replicate (n - length s) (CHR '' '')"

abbreviation endl :: string where
  "endl \<equiv> [CHR 0x0A]"

definition rule_line :: string where
  "rule_line = replicate 80 (CHR ''-'') @ endl"

lemma length_setw [simp]: "length (setw n s) = max n (length s)"
  by (simp add: setw_def)

lemma take_setw [simp]: "take (length s) (setw n s) = s"
  by (simp add: setw_def)

text \<open>The size of a file as the list shows it; the division is that of \<open>size_t\<close>.\<close>

definition size_text :: "u64 \<Rightarrow> string" where
  "size_text sz =
     (if sz < 1024 then show_nat (unat sz) @ '' B''
      else if sz < 1024 * 1024 then show_nat (unat (sz div 1024)) @ '' KB''
      else show_nat (unat (sz div (1024 * 1024))) @ '' MB'')"

text \<open>A line of the file list. \<open>ctime\<close> is that of the C library, whose text ends with a newline;
  the date part is what \<open>substr(4, 12)\<close> leaves.\<close>

definition date_text :: "(64 word \<Rightarrow> string) \<Rightarrow> 64 word \<Rightarrow> string" where
  "date_text ctime t = take 12 (drop 4 (butlast (ctime t)))"

definition file_row :: "(64 word \<Rightarrow> string) \<Rightarrow> FileInfo \<Rightarrow> string" where
  "file_row ctime f =
     setw 35 (take 34 (filename f)) @ setw 12 (size_text (file_size f)) @
     setw 20 (take 16 (file_hash f)) @ date_text ctime (last_modified f) @ endl"

definition printFileList :: "(64 word \<Rightarrow> string) \<Rightarrow> FileInfo list \<Rightarrow> string" where
  "printFileList ctime files =
     (if files = [] then ''No files available.'' @ endl
      else rule_line @ setw 35 ''Filename'' @ setw 12 ''Size'' @ setw 20 ''Hash (first 16)'' @
        ''Modified'' @ endl @ rule_line @ concat (map (file_row ctime) files))"

text \<open>The number shown is the size in the unit shown, rounded down, and below 1024 except for
  megabytes, the largest unit.\<close>

definition size_unit :: "u64 \<Rightarrow> nat" where
  "size_unit sz = (if sz < 1024 then 1 else if sz < 1024 * 1024 then 1024 else 1024 * 1024)"

lemma takeWhile_number_suffix:
  "\<not> is_digit c \<Longrightarrow> takeWhile is_digit (show_nat n @ c # s) = show_nat n"
  using show_nat_digits [of n] by (simp add: takeWhile_append)

lemma size_text_number:
  "number (takeWhile is_digit (size_text sz)) = unat sz div size_unit sz \<and>
   (size_unit sz \<noteq> 1024 * 1024 \<longrightarrow> unat sz div size_unit sz < 1024)"
proof -
  have sp: "\<not> is_digit CHR '' ''"
    by (simp add: is_digit_def)
  have "unat sz < 1024 \<longleftrightarrow> sz < 1024" "unat sz < 1024 * 1024 \<longleftrightarrow> sz < 1024 * 1024"
    by (simp_all add: word_less_nat_alt)
  then show ?thesis
    by (auto simp: size_text_def size_unit_def takeWhile_number_suffix [OF sp] unat_div_distrib)
qed

end
