(* ===== verification/CLI.thy ===== *)
theory CLI
  imports HPServer Console
begin

text \<open>
  \<open>include/CLI.h\<close> and \<open>src/CLI.cpp\<close>: the node that owns a server, a client, a table of peers
  and a list of files, and the commands that work on them. What a command writes to the
  console is part of the state, and so are the downloads it leaves to detached threads.

  Arguments of the model (\<open>cli_env\<close>): the file system, whose state is a type of its own \<open>'w\<close>;
  OpenSSL; \<open>ctime\<close>; and \<open>handleConnectCommand\<close>, which the source declares and calls but does not
  define, and of which nothing is assumed.
  Between two of its reads the \<open>get\<close> command can be overtaken by the threads of the peer manager;
  what they do then is the argument \<open>others\<close>.
\<close>

section \<open>State and environment\<close>

text \<open>A detached thread of the \<open>get\<close> command.\<close>

record job =
  jb_filename :: string
  jb_peer :: nat
  jb_destination :: string

record 'w CLI =
  cli_server :: HPServer
  cli_client :: Client
  cli_peers :: PeerManager
  cli_files :: FileManager
  cli_running :: bool
  local_port :: int
  cli_directory :: string
  cli_jobs :: "job list"
  cli_out :: string
  cli_err :: string
  cli_world :: 'w

record 'w filesystem =
  fs_exists :: "string \<Rightarrow> 'w \<Rightarrow> exn + bool"
  fs_is_regular_file :: "string \<Rightarrow> 'w \<Rightarrow> exn + bool"
  fs_create_directories :: "string \<Rightarrow> 'w \<Rightarrow> (exn + unit) \<times> 'w"
  fs_copy_file :: "string \<Rightarrow> string \<Rightarrow> 'w \<Rightarrow> (exn + unit) \<times> 'w"
  fs_open_output :: "'w \<Rightarrow> string \<Rightarrow> dest_file"
  fs_get_disk :: "'w \<Rightarrow> disk"
  fs_put_disk :: "disk \<Rightarrow> 'w \<Rightarrow> 'w"
  fs_view_of :: "'w \<Rightarrow> fs_view"

record ('w, 'x) cli_env =
  env_fs :: "'w filesystem"
  env_sha :: "'x sha256"
  env_ctime :: "64 word \<Rightarrow> string"
  handleConnectCommand :: "string list \<Rightarrow> 'w CLI \<Rightarrow> (exn + unit) \<times> 'w CLI"

definition print :: "string \<Rightarrow> 'w CLI \<Rightarrow> 'w CLI" where
  "print s c = c\<lparr>cli_out := cli_out c @ s\<rparr>"

definition print_err :: "string \<Rightarrow> 'w CLI \<Rightarrow> 'w CLI" where
  "print_err s c = c\<lparr>cli_err := cli_err c @ s\<rparr>"

text \<open>Text made of whole lines.\<close>

definition text_lines :: "string list \<Rightarrow> string" where
  "text_lines ls = concat (map (\<lambda>l. l @ endl) ls)"

section \<open>Start and end\<close>

text \<open>The constructors of the server and of the file manager both create the default directory.\<close>

definition new_CLI :: "('w, 'x) cli_env \<Rightarrow> int \<Rightarrow> string \<Rightarrow> 'w \<Rightarrow> exn + 'w CLI" where
  "new_CLI E port share_dir w =
     (case new_FileManager (fs_view_of (env_fs E) w) of
        Inl e \<Rightarrow> Inl e
      | Inr fm \<Rightarrow>
          Inr \<lparr>cli_server = new_HPServer port fm, cli_client = new_Client,
            cli_peers = new_PeerManager, cli_files = fm, cli_running = False, local_port = port,
            cli_directory = share_dir, cli_jobs = [], cli_out = [], cli_err = [], cli_world = w\<rparr>)"

text \<open>\<open>initialize\<close> calls \<open>HighPerformanceServer::setSharedDirectory\<close>, which is not declared in the
  source; it is the argument \<open>set_dir\<close>.\<close>

definition cli_initialize ::
  "('w, 'x) cli_env \<Rightarrow> (string \<Rightarrow> HPServer \<Rightarrow> (exn + unit) \<times> HPServer) \<Rightarrow> start_env \<Rightarrow>
   'w CLI \<Rightarrow> (exn + bool) \<times> 'w CLI" where
  "cli_initialize E set_dir v c =
     (case fm_setSharedDirectory (env_sha E) (fs_view_of (env_fs E) (cli_world c))
             (cli_directory c) (cli_files c) of
        (Inl e, fm) \<Rightarrow> (Inl e, c\<lparr>cli_files := fm\<rparr>)
      | (Inr _, fm) \<Rightarrow>
          (let c1 = c\<lparr>cli_files := fm\<rparr>
           in case set_dir (cli_directory c1) (cli_server c1) of
                (Inl e, s) \<Rightarrow> (Inl e, c1\<lparr>cli_server := s\<rparr>)
              | (Inr _, s) \<Rightarrow>
                  (case hp_start v s of
                     (False, s') \<Rightarrow>
                       (Inr False,
                        print_err (''Failed to start server on port '' @ show_int (local_port c1) @ endl)
                          (c1\<lparr>cli_server := s'\<rparr>))
                   | (True, s') \<Rightarrow>
                       (Inr True,
                        c1\<lparr>cli_server := s',
                          cli_peers :=
                            addBootstrapNode ''127.0.0.1'' 8890
                              (addBootstrapNode ''127.0.0.1'' 8889 (pm_start (cli_peers c1))),
                          cli_running := True\<rparr>))))"

definition cli_shutdown :: "'w CLI \<Rightarrow> 'w CLI" where
  "cli_shutdown c =
     c\<lparr>cli_running := False, cli_server := hp_stop (cli_server c),
       cli_peers := pm_stop (cli_peers c)\<rparr>"

text \<open>\<open>CLI::~CLI\<close>, and the destructors of the members in reverse order.\<close>

definition cli_destroy :: "'w CLI \<Rightarrow> 'w CLI" where
  "cli_destroy c =
     (let c1 = cli_shutdown c
      in c1\<lparr>cli_peers := pm_destroy (cli_peers c1), cli_client := client_destroy (cli_client c1),
           cli_server := hp_destroy (cli_server c1)\<rparr>)"

lemma cli_destroy_eq:
  "cli_destroy c =
     (cli_shutdown c)\<lparr>cli_client := disconnect (cli_client c),
       cli_server := (hp_stop (cli_server c))
         \<lparr>hp_peers := pm_stop (hp_peers (hp_stop (cli_server c)))\<rparr>\<rparr>"
  by (simp add: cli_destroy_def cli_shutdown_def pm_destroy_def client_destroy_def hp_destroy_def
      pm_service.stop_stop hp_service.stop_stop Let_def)

section \<open>Commands that show the state\<close>

text \<open>\<open>duration_cast<seconds>\<close> of a difference in nanoseconds truncates towards zero.\<close>

definition seconds_of :: "int \<Rightarrow> int" where
  "seconds_of d = sgn d * (\<bar>d\<bar> div 1000000000)"

text \<open>The clock is read for every row: \<open>now r\<close> is its value at the row of the peer at \<open>r\<close>.\<close>

definition peer_row :: "int \<Rightarrow> Peer \<Rightarrow> string" where
  "peer_row now p =
     setw 20 (take 19 (peer_id p)) @ setw 20 (getAddress p) @
     setw 10 (if is_active p then ''Active'' else ''Inactive'') @
     setw 10 (show_nat (length (getFiles p))) @
     show_int (seconds_of (now - getLastSeen p)) @ ''s ago'' @ endl"

definition peers_text :: "(nat \<Rightarrow> int) \<Rightarrow> PeerManager \<Rightarrow> string" where
  "peers_text now m =
     (let ps = getAllPeers m
      in if ps = [] then ''No peers connected.'' @ endl
         else ''Connected Peers ('' @ show_nat (length ps) @ ''):'' @ endl @ rule_line @
           setw 20 ''Peer ID'' @ setw 20 ''Address'' @ setw 10 ''Status'' @ setw 10 ''Files'' @
           ''Last Seen'' @ endl @ rule_line @ concat (map (\<lambda>r. peer_row (now r) (deref m r)) ps))"

definition handlePeersCommand :: "(nat \<Rightarrow> int) \<Rightarrow> string list \<Rightarrow> 'w CLI \<Rightarrow> (exn + unit) \<times> 'w CLI" where
  "handlePeersCommand now args c = (Inr (), print (peers_text now (cli_peers c)) c)"

text \<open>\<open>file_sources[file.filename].push_back(peer->getId())\<close> for every file of every active peer.\<close>

definition add_source :: "string \<Rightarrow> string list table \<Rightarrow> FileInfo \<Rightarrow> string list table" where
  "add_source i t f =
     table_put (filename f)
       ((case table_find (filename f) t of None \<Rightarrow> [] | Some is \<Rightarrow> is) @ [i]) t"

definition file_sources :: "PeerManager \<Rightarrow> string list table" where
  "file_sources m =
     foldl (\<lambda>t r. foldl (add_source (peer_id (deref m r))) t (getFiles (deref m r))) []
       (getActivePeers m)"

definition source_row :: "string \<times> string list \<Rightarrow> string" where
  "source_row e =
     (case e of (name, sources) \<Rightarrow>
        setw 40 (take 39 name) @ setw 15 (show_nat (length sources)) @
        concat (map (\<lambda>i. take 8 i @ '' '') (take 3 sources)) @
        (if length sources > 3 then ''...'' else []) @ endl)"

definition all_files_text :: "PeerManager \<Rightarrow> string" where
  "all_files_text m =
     (let t = file_sources m
      in if t = [] then ''No files available from peers.'' @ endl
         else ''Available Files ('' @ show_nat (length t) @ ''):'' @ endl @ rule_line @
           setw 40 ''Filename'' @ setw 15 ''Sources'' @ ''Peer IDs'' @ endl @ rule_line @
           concat (map source_row t))"

definition handleFilesCommand ::
  "('w, 'x) cli_env \<Rightarrow> string list \<Rightarrow> 'w CLI \<Rightarrow> (exn + unit) \<times> 'w CLI" where
  "handleFilesCommand E args c =
     (Inr (),
      print
        (if length args > 1 \<and> args ! 1 = ''local'' then
           (let files = getFileList (cli_files c)
            in ''Local Files ('' @ show_nat (length files) @ ''):'' @ endl @
               printFileList (env_ctime E) files)
         else if length args > 1 then
           (case getPeer (args ! 1) (cli_peers c) of
              Some r \<Rightarrow>
                (let files = getFiles (deref (cli_peers c) r)
                 in ''Files from peer '' @ args ! 1 @ '' ('' @ show_nat (length files) @ ''):'' @ endl @
                    printFileList (env_ctime E) files)
            | None \<Rightarrow> ''Peer not found: '' @ args ! 1 @ endl)
         else all_files_text (cli_peers c)) c)"

definition active_download :: "DownloadProgress \<Rightarrow> bool" where
  "active_download d \<longleftrightarrow> \<not> completed d \<and> \<not> failed d"

definition handleStatusCommand :: "string list \<Rightarrow> 'w CLI \<Rightarrow> (exn + unit) \<times> 'w CLI" where
  "handleStatusCommand args c =
     (Inr (),
      print (text_lines
        [''=== P2P Node Status ==='',
         ''Local Port: '' @ show_int (local_port c),
         ''Shared Directory: '' @ cli_directory c,
         ''Active Connections: '' @ show_nat (getActiveConnectionCount (cli_server c)),
         ''Known Peers: '' @ show_nat (getTotalPeerCount (cli_peers c)),
         ''Active Peers: '' @ show_nat (getActivePeerCount (cli_peers c)),
         ''Local Files: '' @ show_nat (length (getFileList (cli_files c))),
         ''Active Downloads: '' @
           show_nat (length (filter active_download (getAllDownloads (cli_client c))))]) c)"

text \<open>\<open>(double)downloaded_size / total_size * 100.0\<close>.\<close>

definition download_percent :: "DownloadProgress \<Rightarrow> double" where
  "download_percent d =
     (if total_size d > 0
      then fmul (fdiv (double_of (downloaded_size d)) (double_of (total_size d))) 100 else 0)"

definition download_row :: "DownloadProgress \<Rightarrow> string" where
  "download_row d =
     setw 30 (take 29 (dl_filename d)) @
     setw 12 (show_int (int_of_double (download_percent d)) @ ''%'') @
     setw 15 (show_double (speed_mbps d) @ '' MB/s'') @
     (if completed d then ''Completed''
      else if failed d then ''Failed: '' @ error_message d else ''Downloading'') @ endl"

definition downloads_text :: "Client \<Rightarrow> string" where
  "downloads_text k =
     (let ds = getAllDownloads k
      in if ds = [] then ''No downloads.'' @ endl
         else ''Downloads:'' @ endl @ rule_line @ setw 30 ''Filename'' @ setw 12 ''Progress'' @
           setw 15 ''Speed'' @ ''Status'' @ endl @ rule_line @ concat (map download_row ds))"

definition handleDownloadsCommand :: "string list \<Rightarrow> 'w CLI \<Rightarrow> (exn + unit) \<times> 'w CLI" where
  "handleDownloadsCommand args c = (Inr (), print (downloads_text (cli_client c)) c)"

section \<open>get\<close>

text \<open>\<open>path::parent_path\<close>: the path without its last part and the slashes before it.\<close>

definition parent_path :: "string \<Rightarrow> string" where
  "parent_path p =
     (if \<forall>c \<in> set p. c = CHR ''/'' then p
      else
        let dir = rev (dropWhile (\<lambda>c. c \<noteq> CHR ''/'') (rev p));
            parent = rev (dropWhile (\<lambda>c. c = CHR ''/'') (rev dir))
        in if parent = [] \<and> dir \<noteq> [] then ''/'' else parent)"

definition get_destination :: "string list \<Rightarrow> string" where
  "get_destination args = (if length args > 2 then args ! 2 else ''./downloads/'' @ args ! 1)"

definition handleGetCommand ::
  "('w, 'x) cli_env \<Rightarrow> (PeerManager \<Rightarrow> PeerManager) \<Rightarrow> string list \<Rightarrow> 'w CLI \<Rightarrow>
   (exn + unit) \<times> 'w CLI" where
  "handleGetCommand E others args c =
     (if length args < 2 then (Inr (), print (''Usage: get <filename> [destination_path]'' @ endl) c)
      else
        let name = args ! 1;
            destination = get_destination args;
            peers_with_file = findPeersWithFile name (cli_peers c)
        in if peers_with_file = [] then
             (Inr (), print (''File not found on any connected peers: '' @ name @ endl) c)
           else
             let c1 = print (''Found '' @ show_nat (length peers_with_file) @
                   '' peer(s) with file: '' @ name @ endl) c
             in case fs_create_directories (env_fs E) (parent_path destination) (cli_world c1) of
                  (Inl e, w) \<Rightarrow> (Inl e, c1\<lparr>cli_world := w\<rparr>)
                | (Inr _, w) \<Rightarrow>
                    (let c2 = c1\<lparr>cli_world := w, cli_peers := others (cli_peers c1)\<rparr>
                     in case find (\<lambda>r. is_active (deref (cli_peers c2) r)) peers_with_file of
                          None \<Rightarrow> (Inr (), print (''No active peers found with the file.'' @ endl) c2)
                        | Some r \<Rightarrow>
                            (let p = deref (cli_peers c2) r
                             in (Inr (),
                                 (print (''Downloading from peer: '' @ peer_id p @ '' ('' @ getAddress p @
                                    '')'' @ endl) c2)
                                   \<lparr>cli_jobs := cli_jobs c2 @
                                      [\<lparr>jb_filename = name, jb_peer = r, jb_destination = destination\<rparr>]\<rparr>))))"

text \<open>The body of the detached thread. A download reports its failures by its result.\<close>

definition run_job ::
  "('w, 'x) cli_env \<Rightarrow> endian \<Rightarrow> (nat \<Rightarrow> int) \<Rightarrow> dialer \<Rightarrow> int \<Rightarrow> job \<Rightarrow> 'w CLI \<Rightarrow> 'w CLI" where
  "run_job E e clk dial fd j c =
     (let p = deref (cli_peers c) (jb_peer j);
          (success, k, d) =
            downloadFileFromPeer e clk (fs_open_output (env_fs E) (cli_world c)) dial fd (jb_filename j)
              (ip_address p) (peer_port p) (jb_destination j) (cli_client c)
              (fs_get_disk (env_fs E) (cli_world c));
          mark = (if success then [CHR 0xE2, CHR 0x9C, CHR 0x93] @ '' Download completed: ''
                  else [CHR 0xE2, CHR 0x9C, CHR 0x97] @ '' Download failed: '')
      in print (endl @ mark @ jb_filename j @ endl @ ''p2p> '')
           (c\<lparr>cli_client := k, cli_world := fs_put_disk (env_fs E) d (cli_world c)\<rparr>))"

section \<open>share\<close>

text \<open>The handler catches \<open>filesystem_error\<close> only.\<close>

definition share_failed :: "exn \<Rightarrow> 'w CLI \<Rightarrow> (exn + unit) \<times> 'w CLI" where
  "share_failed e c =
     (if is_filesystem_error e then (Inr (), print (''Failed to share file: '' @ what e @ endl) c)
      else (Inl e, c))"

definition handleShareCommand ::
  "('w, 'x) cli_env \<Rightarrow> string list \<Rightarrow> 'w CLI \<Rightarrow> (exn + unit) \<times> 'w CLI" where
  "handleShareCommand E args c =
     (if length args < 2 then (Inr (), print (''Usage: share <filepath>'' @ endl) c)
      else
        let file = args ! 1
        in case fs_exists (env_fs E) file (cli_world c) of
             Inl e \<Rightarrow> (Inl e, c)
           | Inr there \<Rightarrow>
               (if \<not> there then (Inr (), print (''File not found: '' @ file @ endl) c)
                else
                  case fs_is_regular_file (env_fs E) file (cli_world c) of
                    Inl e \<Rightarrow> (Inl e, c)
                  | Inr regular \<Rightarrow>
                      (if \<not> regular then (Inr (), print (''Path is not a regular file: '' @ file @ endl) c)
                       else
                         let name = path_filename file;
                             dest_path = cli_directory c @ name
                         in case fs_copy_file (env_fs E) file dest_path (cli_world c) of
                              (Inl e, w) \<Rightarrow> share_failed e (c\<lparr>cli_world := w\<rparr>)
                            | (Inr _, w) \<Rightarrow>
                                (case refreshFileList (env_sha E) (fs_view_of (env_fs E) w) (cli_files c) of
                                   (Inl e, fm) \<Rightarrow> share_failed e (c\<lparr>cli_world := w, cli_files := fm\<rparr>)
                                 | (Inr _, fm) \<Rightarrow>
                                     (Inr (),
                                      print (''File shared successfully: '' @ name @ endl @
                                        ''Location: '' @ dest_path @ endl)
                                        (c\<lparr>cli_world := w, cli_files := fm\<rparr>))))))"

section \<open>Other commands\<close>

definition help_text :: string where
  "help_text = text_lines
     [[],
      ''Available Commands:'',
      ''=================='',
      [],
      ''    peers                    - List all connected peers'',
      ''    files [local|peer_id]   - List files (local, from specific peer, or all)'',
      ''    get <filename> [dest]   - Download file from peers'',
      ''    share <filepath>        - Share a file with the network'',
      ''    connect <ip> <port>     - Connect to a specific peer'',
      ''    status                  - Show node status and statistics'',
      ''    downloads               - Show download progress'',
      ''    help                    - Show this help message'',
      ''    exit / quit             - Exit the application'',
      [],
      ''Examples:'',
      ''========='',
      ''    files local             - Show your shared files'',
      ''    files                   - Show all available files from peers'',
      ''    get example.txt         - Download example.txt to ./downloads/'',
      ''    get video.mp4 ~/Videos/ - Download video.mp4 to ~/Videos/'',
      ''    share /home/user/doc.pdf - Share doc.pdf with the network'',
      []]"

definition handleHelpCommand :: "string list \<Rightarrow> 'w CLI \<Rightarrow> (exn + unit) \<times> 'w CLI" where
  "handleHelpCommand args c = (Inr (), print help_text c)"

definition handleExitCommand :: "string list \<Rightarrow> 'w CLI \<Rightarrow> (exn + unit) \<times> 'w CLI" where
  "handleExitCommand args c =
     (Inr (), (print (''Shutting down P2P node...'' @ endl) c)\<lparr>cli_running := False\<rparr>)"

text \<open>The box-drawing characters of the banner, in UTF-8.\<close>

definition box :: "char \<Rightarrow> string" where
  "box b = [CHR 0xE2, CHR 0x95, b]"

definition banner_row :: "string \<Rightarrow> string" where
  "banner_row s = box (CHR 0x91) @ setw 79 s @ box (CHR 0x91)"

definition banner_edge :: "char \<Rightarrow> char \<Rightarrow> string" where
  "banner_edge l r = box l @ concat (replicate 79 (box (CHR 0x90))) @ box r"

definition displayWelcome :: "'w CLI \<Rightarrow> 'w CLI" where
  "displayWelcome c =
     print (text_lines
       [[],
        banner_edge (CHR 0x94) (CHR 0x97),
        banner_row (replicate 27 (CHR '' '') @ ''P2P File Sharing System''),
        banner_row [],
        banner_row (replicate 12 (CHR '' '') @ ''A high-performance peer-to-peer file sharing application''),
        banner_row [],
        banner_edge (CHR 0x9A) (CHR 0x9D),
        [],
        ''Server started on port: '' @ show_int (local_port c),
        ''Shared directory: '' @ cli_directory c,
        [],
        ''Type '' @ [CHR 0x27] @ ''help'' @ [CHR 0x27] @ '' for available commands.'',
        []]) c"

section \<open>One line of input\<close>

datatype command =
    Cmd_peers | Cmd_files | Cmd_get | Cmd_share | Cmd_connect | Cmd_status | Cmd_downloads
  | Cmd_help | Cmd_exit | Cmd_unknown

text \<open>The chain of comparisons on the lower-cased first argument.\<close>

definition command_of :: "string \<Rightarrow> command" where
  "command_of s =
     (if s = ''peers'' then Cmd_peers
      else if s = ''files'' then Cmd_files
      else if s = ''get'' then Cmd_get
      else if s = ''share'' then Cmd_share
      else if s = ''connect'' then Cmd_connect
      else if s = ''status'' then Cmd_status
      else if s = ''downloads'' then Cmd_downloads
      else if s = ''help'' then Cmd_help
      else if s = ''exit'' \<or> s = ''quit'' then Cmd_exit
      else Cmd_unknown)"

fun dispatch ::
  "('w, 'x) cli_env \<Rightarrow> (nat \<Rightarrow> int) \<Rightarrow> (PeerManager \<Rightarrow> PeerManager) \<Rightarrow> command \<Rightarrow> string list \<Rightarrow> 'w CLI \<Rightarrow>
   (exn + unit) \<times> 'w CLI" where
  "dispatch E now others Cmd_peers args c = handlePeersCommand now args c"
| "dispatch E now others Cmd_files args c = handleFilesCommand E args c"
| "dispatch E now others Cmd_get args c = handleGetCommand E others args c"
| "dispatch E now others Cmd_share args c = handleShareCommand E args c"
| "dispatch E now others Cmd_connect args c = handleConnectCommand E args c"
| "dispatch E now others Cmd_status args c = handleStatusCommand args c"
| "dispatch E now others Cmd_downloads args c = handleDownloadsCommand args c"
| "dispatch E now others Cmd_help args c = handleHelpCommand args c"
| "dispatch E now others Cmd_exit args c = handleExitCommand args c"
| "dispatch E now others Cmd_unknown args c =
     (Inr (), print (''Unknown command: '' @ map to_lower (hd args) @ ''. Type '' @ [CHR 0x27] @ ''help'' @
        [CHR 0x27] @ '' for available commands.'' @ endl) c)"

definition run_line ::
  "('w, 'x) cli_env \<Rightarrow> (nat \<Rightarrow> int) \<Rightarrow> (PeerManager \<Rightarrow> PeerManager) \<Rightarrow> string \<Rightarrow> 'w CLI \<Rightarrow> 'w CLI" where
  "run_line E now others command_line c =
     (if command_line = [] then c
      else
        case parseCommand command_line of
          [] \<Rightarrow> c
        | a # as \<Rightarrow>
            (case dispatch E now others (command_of (map to_lower a)) (a # as) c of
               (Inl e, c') \<Rightarrow> print_err (''Error: '' @ what e @ endl) c'
             | (Inr _, c') \<Rightarrow> c'))"

text \<open>The input is its lines. While \<open>readline\<close> waits for one, the other threads of the node go on:
  \<open>in_before\<close> is what they do to the node until the line is there, \<open>in_others\<close> what they do to the
  peers during the command, \<open>in_clock\<close> the clock it reads.\<close>

record 'w input_line =
  in_text :: string
  in_clock :: "nat \<Rightarrow> int"
  in_others :: "PeerManager \<Rightarrow> PeerManager"
  in_before :: "'w CLI \<Rightarrow> 'w CLI"

text \<open>The loop of \<open>run\<close>; after the last line comes the end of file, which \<open>readline\<close> waits for as
  well (\<open>waiting\<close>).\<close>

fun command_loop ::
  "('w, 'x) cli_env \<Rightarrow> ('w CLI \<Rightarrow> 'w CLI) \<Rightarrow> 'w input_line list \<Rightarrow> 'w CLI \<Rightarrow> 'w CLI" where
  "command_loop E waiting [] c =
     (if cli_running c then print (endl @ ''Goodbye!'' @ endl) (waiting c) else c)"
| "command_loop E waiting (l # ls) c =
     (if cli_running c
      then command_loop E waiting ls
             (run_line E (in_clock l) (in_others l) (in_text l) (in_before l c))
      else c)"

definition cli_run ::
  "('w, 'x) cli_env \<Rightarrow> ('w CLI \<Rightarrow> 'w CLI) \<Rightarrow> 'w input_line list \<Rightarrow> 'w CLI \<Rightarrow> 'w CLI" where
  "cli_run E waiting ls c = command_loop E waiting ls (displayWelcome c)"

section \<open>The list of downloads\<close>

lemma shown_percents: "show_int 0 = ''0''" "show_int 100 = ''100''"
  by code_simp+

lemma percent_of_progress:
  assumes "progress_ok d"
  shows "int_of_double (download_percent d) = (if completed d \<and> 0 < downloaded_size d then 100 else 0)"
  using assms percent_full [of "downloaded_size d"]
  by (auto simp: progress_ok_def download_percent_def int_of_double_def)

text \<open>
  C37. The list of downloads shows no progress: between the client's operations and after every
  message of a running download, the row of a download says 0% until the download is complete
  and 100% from then on (0% for an empty file), because the total is written only at the end.
\<close>

theorem progress_is_all_or_nothing:
  assumes "client_seen c" and "d \<in> set (getAllDownloads c)"
  shows "download_row d =
    setw 30 (take 29 (dl_filename d)) @
    setw 12 (if completed d \<and> 0 < downloaded_size d then ''100%'' else ''0%'') @
    setw 15 (show_double (speed_mbps d) @ '' MB/s'') @
    (if completed d then ''Completed''
     else if failed d then ''Failed: '' @ error_message d else ''Downloading'') @ endl"
  using percent_of_progress [OF client_seen_progress [OF assms]]
  by (simp add: download_row_def shown_percents)

theorem progress_is_all_or_nothing_witness:
  "\<exists>c d. client_seen c \<and> getAllDownloads c = [d] \<and> downloaded_size d = 2 \<and>
    download_row d = setw 30 ''f'' @ setw 12 ''0%'' @ setw 15 ''0.000000 MB/s'' @ ''Downloading'' @ endl"
proof -
  let ?es = "[Data (frame FILE_CHUNK [1, 2])]" and ?p = "new_progress 0 ''f''"
  let ?q = "?p\<lparr>downloaded_size := 2\<rparr>" and ?clk = "\<lambda>_ :: nat. 0 :: int"
  let ?c = "set_progress ''f'' ?p (client_on ?es)"
  obtain c0 where c0: "client_sendMessage LittleEndian FILE_REQUEST (to_bytes ''f'') ?c = (Inr (), c0)"
    using client_on_send(2) by (metis prod.collapse)
  then have on: "connected c0" "rx (sock c0) = ?es" "active_downloads c0 = [(''f'', ?p)]"
    using send_writes_frame [OF _ c0] client_send_downloads [OF c0]
    by (auto dest!: arg_cong [where f = connected]
        simp: set_progress_def client_on_def new_Client_def table_put_def calm_def)
  obtain es where "client_receiveMessage LittleEndian c0 = (Inr (type_byte FILE_CHUNK # [1, 2]), set_rx es c0)"
    using receive_frame [of c0 FILE_CHUNK "[1, 2]" "[]" LittleEndian] on by auto
  moreover have "chunk_received ?clk (vsize [1, 2]) (dl_start ?clk) ?p =
      ((dl_start ?clk)\<lparr>total_downloaded := 2, readings := 3\<rparr>, ?q)"
    by (simp add: chunk_received_def dl_start_def vsize_def)
  ultimately have "download_turn LittleEndian ?clk Unbounded ''f'' ''d'' (dl_start ?clk, ?p, c0, [''d'' \<mapsto> []])
      ((dl_start ?clk)\<lparr>total_downloaded := 2, readings := 3\<rparr>, ?q, set_progress ''f'' ?q (set_rx es c0),
       [''d'' \<mapsto> [], ''d'' \<mapsto> stored Unbounded (the ([''d'' \<mapsto> []] ''d'') @ [1, 2])])"
    by (rule download_turn.chunk)
  then have seen: "client_seen (set_progress ''f'' ?q (set_rx es c0))"
    by (rule client_seen.during [OF client_on_reach c0 r_into_rtranclp])
  have all: "getAllDownloads (set_progress ''f'' ?q (set_rx es c0)) = [?q]"
    by (simp add: getAllDownloads_def set_progress_def on table_put_def table_values_def)
  have "download_row ?q = setw 30 ''f'' @ setw 12 ''0%'' @ setw 15 ''0.000000 MB/s'' @ ''Downloading'' @ endl"
    using progress_is_all_or_nothing [OF seen, of ?q] all
    by (simp add: new_progress_def show_double_0)
  with seen all show ?thesis
    by (intro exI [of _ "set_progress ''f'' ?q (set_rx es c0)"] exI [of _ ?q]) simp
qed

end
