(* ===== verification/Transfers.thy ===== *)
theory Transfers
  imports CLI
begin

text \<open>
  The downloads that \<open>get\<close> leaves to detached threads (\<open>handleGetCommand\<close> of \<open>src/CLI.cpp\<close>), running
  \<open>downloadFileFromPeer\<close> of \<open>src/Client.cpp\<close> at the same time. Every thread has a \<open>Client\<close> of its
  own; what they share is the disk. A step starts a thread, up to the opening of its file, or is
  one turn of the receiving loop of one thread. Every stream has its own position in its file, so
  two threads that write to one path overwrite each other; threads with different paths end as if
  they had run one after the other. The room of each path (\<open>dest_file\<close>) is what its stream gets to
  write before its first failed write, after which it writes nothing. On one disk that number
  comes out of the competition with the other streams; here it is given with the run, so every
  run on a full disk is one of these, and the one-after-the-other run it is compared with has the
  same room for each path. How the disk shares out its space is not modelled. The network of
  a thread is a script that ends; a peer that keeps a download for ever is \<open>download_outcome\<close> of
  the client.
\<close>

section \<open>Threads\<close>

text \<open>The arguments of a thread, with what the system gives it: the clock, the connection and the
  descriptor.\<close>

record request =
  rq_name :: string
  rq_address :: string
  rq_port :: int
  rq_dest :: string
  rq_clk :: "nat \<Rightarrow> int"
  rq_dial :: dialer
  rq_fd :: int

text \<open>\<open>tr_pos\<close> is the position of the output stream, \<open>tr_result\<close> what the thread has returned.\<close>

record transfer =
  tr_request :: request
  tr_client :: Client
  tr_progress :: DownloadProgress
  tr_vars :: dl_vars
  tr_pos :: nat
  tr_result :: "bool option"

abbreviation tr_dest :: "transfer \<Rightarrow> string" where
  "tr_dest t \<equiv> rq_dest (tr_request t)"

text \<open>Writing at a position of a file that others may have cut or extended: the hole before the
  position is zero, and what follows the written bytes stays.\<close>

fun room :: "dest_file \<Rightarrow> nat \<Rightarrow> byte list \<Rightarrow> byte list" where
  "room (Bounded n) pos data = take (n - pos) data"
| "room _ pos data = data"

definition write_at :: "dest_file \<Rightarrow> nat \<Rightarrow> byte list \<Rightarrow> byte list \<Rightarrow> byte list" where
  "write_at out pos data old =
     (let bs = room out pos data
      in if bs = [] then old
         else take pos (old @ replicate (pos - length old) 0) @ bs @ drop (pos + length bs) old)"

text \<open>The end of a thread: the result is there, and its client is disconnected.\<close>

definition finish :: "bool \<Rightarrow> Client \<Rightarrow> transfer \<Rightarrow> transfer" where
  "finish r c t = t\<lparr>tr_client := disconnect c, tr_result := Some r\<rparr>"

text \<open>Connecting, sending the request and creating the file.\<close>

definition start_transfer ::
  "endian \<Rightarrow> (string \<Rightarrow> dest_file) \<Rightarrow> request \<Rightarrow> disk \<Rightarrow> transfer \<times> disk" where
  "start_transfer e opens q d =
     (let p = new_progress (rq_clk q 0) (rq_name q);
          fresh = (\<lambda>c. \<lparr>tr_request = q, tr_client = c, tr_progress = p,
                       tr_vars = dl_start (rq_clk q), tr_pos = 0, tr_result = None\<rparr>)
      in case client_connect (rq_dial q) (rq_fd q) (rq_address q) (rq_port q) new_Client of
           (False, k) \<Rightarrow> (finish False k (fresh k), d)
         | (True, k) \<Rightarrow>
             (let k0 = set_progress (rq_name q) p k
              in case client_sendMessage e FILE_REQUEST (to_bytes (rq_name q)) k0 of
                   (Inl err, k1) \<Rightarrow>
                     (let (r, k2, d2) = download_failed (rq_name q) p err k1 d
                      in (finish r k2 (fresh k2), d2))
                 | (Inr _, k1) \<Rightarrow>
                     (if opens (rq_dest q) = Cannot_create
                      then
                        let (r, k2, d2) = download_failed (rq_name q) p
                              (Runtime_error (''Cannot create destination file: '' @ rq_dest q)) k1 d
                        in (finish r k2 (fresh k2), d2)
                      else (fresh k1, d(rq_dest q \<mapsto> [])))))"

text \<open>One turn of the loop: a message is received and handled.\<close>

definition transfer_turn ::
  "endian \<Rightarrow> (string \<Rightarrow> dest_file) \<Rightarrow> transfer \<Rightarrow> disk \<Rightarrow> transfer \<times> disk" where
  "transfer_turn e opens t d =
     (let name = rq_name (tr_request t);
          dest = tr_dest t;
          p = tr_progress t;
          v = tr_vars t
      in case client_receiveMessage e (tr_client t) of
           (Inl err, c1) \<Rightarrow>
             (let (r, c2, d2) = download_failed name p err c1 d in (finish r c2 t, d2))
         | (Inr [], c1) \<Rightarrow> (finish False c1 t, d)
         | (Inr (b # data), c1) \<Rightarrow>
             (case byte_type b of
                FILE_CHUNK \<Rightarrow>
                  (let (v', p') = chunk_received (rq_clk (tr_request t)) (vsize data) v p
                   in (t\<lparr>tr_client := set_progress name p' c1, tr_progress := p', tr_vars := v',
                         tr_pos := tr_pos t + length data\<rparr>,
                       d(dest \<mapsto> write_at (opens dest) (tr_pos t) data (the (d dest)))))
              | FILE_COMPLETE \<Rightarrow>
                  (finish True
                     (set_progress name (p\<lparr>completed := True, total_size := total_downloaded v\<rparr>) c1) t,
                   d)
              | ERROR_MESSAGE \<Rightarrow>
                  (let (r, c2, d2) =
                     download_failed name (p\<lparr>failed := True, error_message := to_string data\<rparr>)
                       (Runtime_error (''Server error: '' @ to_string data)) c1 d
                   in (finish r c2 t, d2))
              | _ \<Rightarrow> (t\<lparr>tr_client := c1\<rparr>, d)))"

type_synonym transfers = "transfer list \<times> disk"

inductive transfers_step ::
  "endian \<Rightarrow> (string \<Rightarrow> dest_file) \<Rightarrow> transfers \<Rightarrow> transfers \<Rightarrow> bool" for e opens where
  start: "start_transfer e opens q d = (t, d') \<Longrightarrow> transfers_step e opens (ts, d) (ts @ [t], d')"
| turn: "i < length ts \<Longrightarrow> tr_result (ts ! i) = None \<Longrightarrow>
    transfer_turn e opens (ts ! i) d = (t, d') \<Longrightarrow>
    transfers_step e opens (ts, d) (ts[i := t], d')"

inductive_cases transfers_stepE: "transfers_step e opens (ts, d) s"

text \<open>The reference: the same requests served one after the other by \<open>downloadFileFromPeer\<close>.\<close>

definition run_request ::
  "endian \<Rightarrow> (string \<Rightarrow> dest_file) \<Rightarrow> request \<Rightarrow> disk \<Rightarrow> bool \<times> disk" where
  "run_request e opens q d =
     (let (r, c, d') =
        downloadFileFromPeer e (rq_clk q) opens (rq_dial q) (rq_fd q) (rq_name q) (rq_address q)
          (rq_port q) (rq_dest q) new_Client d
      in (r, d'))"

fun run_requests ::
  "endian \<Rightarrow> (string \<Rightarrow> dest_file) \<Rightarrow> request list \<Rightarrow> disk \<Rightarrow> bool list \<times> disk" where
  "run_requests e opens [] d = ([], d)"
| "run_requests e opens (q # qs) d =
     (let (r, d1) = run_request e opens q d;
          (rs, d2) = run_requests e opens qs d1
      in (r # rs, d2))"

section \<open>The threads of the command line\<close>

text \<open>What the thread that \<open>get\<close> starts passes to \<open>downloadFileFromPeer\<close>.\<close>

definition job_request :: "(nat \<Rightarrow> int) \<Rightarrow> dialer \<Rightarrow> int \<Rightarrow> 'w CLI \<Rightarrow> job \<Rightarrow> request" where
  "job_request clk dial fd c j =
     (let p = deref (cli_peers c) (jb_peer j)
      in \<lparr>rq_name = jb_filename j, rq_address = ip_address p, rq_port = peer_port p,
          rq_dest = jb_destination j, rq_clk = clk, rq_dial = dial, rq_fd = fd\<rparr>)"

text \<open>The thread of a node, run at once, changes the disk as its request does.\<close>

lemma run_job_request:
  assumes "run_request e (fs_open_output (env_fs E) (cli_world c)) (job_request clk dial fd c j)
      (fs_get_disk (env_fs E) (cli_world c)) = (r, d)"
  shows "cli_world (run_job E e clk dial fd j c) = fs_put_disk (env_fs E) d (cli_world c)"
  using assms
  by (auto simp: run_job_def run_request_def job_request_def downloadFileFromPeer_def print_def Let_def
      split: prod.splits bool.splits)

section \<open>One turn\<close>

lemma write_at_end [simp]:
  "write_at out (length full) data (stored out full) = stored out (full @ data)"
  by (cases out) (auto simp: write_at_def Let_def min_def)

text \<open>What a running thread has put into its file: all that it has received, or the part of it that
  fits.\<close>

definition file_kept :: "(string \<Rightarrow> dest_file) \<Rightarrow> transfer \<Rightarrow> disk \<Rightarrow> bool" where
  "file_kept opens t d \<longleftrightarrow>
     (\<exists>full. length full = tr_pos t \<and> d (tr_dest t) = Some (stored (opens (tr_dest t)) full))"

text \<open>What a thread will return and leave in its file when nothing else runs.\<close>

definition fate :: "endian \<Rightarrow> (string \<Rightarrow> dest_file) \<Rightarrow> transfer \<Rightarrow> disk \<Rightarrow> bool \<times> byte list option" where
  "fate e opens t d =
     (case tr_result t of
        Some r \<Rightarrow> (r, d (tr_dest t))
      | None \<Rightarrow>
          (let (r, c, d') =
             download_loop e (rq_clk (tr_request t)) (opens (tr_dest t)) (rq_name (tr_request t))
               (tr_dest t) (tr_vars t) (tr_progress t) (tr_client t) d
           in (r, d' (tr_dest t))))"

lemma finish_fields [simp]:
  "tr_request (finish r c t) = tr_request t" "tr_result (finish r c t) = Some r"
  "tr_client (finish r c t) = disconnect c"
  by (simp_all add: finish_def)

lemma write_at_kept:
  assumes "file_kept opens t d"
  shows "write_at (opens (tr_dest t)) (tr_pos t) data (the (d (tr_dest t))) =
    stored (opens (tr_dest t)) (the (d (tr_dest t)) @ data)"
proof -
  obtain full where "length full = tr_pos t" and "d (tr_dest t) = Some (stored (opens (tr_dest t)) full)"
    using assms by (auto simp: file_kept_def)
  then show ?thesis
    by (metis option.sel stored_stored write_at_end)
qed

lemma turn_cases:
  assumes "transfer_turn e opens t d = (t', d')" and "tr_result t = None"
  obtains (ended) r where "tr_request t' = tr_request t" and "tr_result t' = Some r" and "d' = d"
      and "fate e opens t d = (r, d (tr_dest t))"
  | (chunk) data where "tr_request t' = tr_request t" and "tr_result t' = None"
      and "rx_size (rx (sock (tr_client t'))) < rx_size (rx (sock (tr_client t)))"
      and "tr_pos t' = tr_pos t + length data"
      and "d' = d(tr_dest t \<mapsto> write_at (opens (tr_dest t)) (tr_pos t) data (the (d (tr_dest t))))"
      and "file_kept opens t d \<Longrightarrow> fate e opens t' d' = fate e opens t d"
  | (other) "tr_request t' = tr_request t" and "tr_result t' = None"
      and "rx_size (rx (sock (tr_client t'))) < rx_size (rx (sock (tr_client t)))"
      and "tr_pos t' = tr_pos t" and "d' = d" and "fate e opens t' d' = fate e opens t d"
proof -
  obtain x c1 where r: "client_receiveMessage e (tr_client t) = (x, c1)"
    by (cases "client_receiveMessage e (tr_client t)")
  note unfolds = transfer_turn_def fate_def download_failed_def Let_def
    download_loop.simps [of e _ _ _ _ _ _ "tr_client t"]
  consider err where "x = Inl err" | "x = Inr []" | b data where "x = Inr (b # data)"
    by (metis old.sum.exhaust list.exhaust)
  then show ?thesis
  proof cases
    case (3 b data)
    note r = r [unfolded 3] and smaller = rx_size_receive [OF r [unfolded 3]]
    show ?thesis
    proof (cases "byte_type b")
      case FILE_CHUNK
      obtain v' p' where q: "chunk_received (rq_clk (tr_request t)) (vsize data) (tr_vars t) (tr_progress t) = (v', p')"
        by fastforce
      show ?thesis
        by (rule chunk [of data])
          (use assms r q FILE_CHUNK smaller write_at_kept in \<open>auto simp: unfolds\<close>)
    next
      case FILE_COMPLETE
      show ?thesis
        by (rule ended [of True]) (use assms r FILE_COMPLETE in \<open>auto simp: unfolds\<close>)
    next
      case ERROR_MESSAGE
      show ?thesis
        by (rule ended [of False]) (use assms r ERROR_MESSAGE in \<open>auto simp: unfolds\<close>)
    qed (rule other, (use assms r smaller in \<open>auto simp: unfolds\<close>)[6])+
  qed (rule ended [of False], (use assms r in \<open>auto simp: unfolds\<close>)[4])+
qed

section \<open>A thread and the rest of the disk\<close>

text \<open>A download reads and writes its own file only.\<close>

lemma download_loop_frame:
  "download_loop e clk out name dest v p c d = (r, c', d') \<Longrightarrow> other dest = d dest \<Longrightarrow>
   download_loop e clk out name dest v p c other = (r, c', other(dest := d' dest))"
proof (induction "rx_size (rx (sock c))" arbitrary: v p c d other rule: less_induct)
  case less
  note steps = download_loop.simps [of e clk out name dest v p c] download_failed_def Let_def
  obtain x c1 where r: "client_receiveMessage e c = (x, c1)"
    by (cases "client_receiveMessage e c")
  have same: "other(dest := d dest) = other"
    using less.prems(2) by auto
  consider err where "x = Inl err" | "x = Inr []" | b data where "x = Inr (b # data)"
    by (metis old.sum.exhaust list.exhaust)
  then show ?case
  proof cases
    case (3 b data)
    note r = r [unfolded 3]
    show ?thesis
    proof (cases "byte_type b")
      case FILE_CHUNK
      obtain v' p' where q: "chunk_received clk (vsize data) v p = (v', p')"
        by fastforce
      have "rx_size (rx (sock (set_progress name p' c1))) < rx_size (rx (sock c))"
        using rx_size_receive [OF r] by simp
      from less.hyps [OF this, of v' p' "d(dest \<mapsto> stored out (the (d dest) @ data))"
          "other(dest \<mapsto> stored out (the (other dest) @ data))"] less.prems r q FILE_CHUNK
      show ?thesis by (simp add: steps)
    qed (use r same less.prems less.hyps [OF rx_size_receive [OF r], of v p d other] in
        \<open>auto simp: steps\<close>)
  qed (use r same less.prems in \<open>auto simp: steps\<close>)
qed

lemma fate_frame: "other (tr_dest t) = d (tr_dest t) \<Longrightarrow> fate e opens t other = fate e opens t d"
  using download_loop_frame
  by (auto simp: fate_def split: option.split prod.splits)

lemma file_kept_frame: "other (tr_dest t) = d (tr_dest t) \<Longrightarrow> file_kept opens t other = file_kept opens t d"
  by (simp add: file_kept_def)

lemma run_request_frame:
  assumes "run_request e opens q d = (r, d')" and "other (rq_dest q) = d (rq_dest q)"
  shows "run_request e opens q other = (r, other(rq_dest q := d' (rq_dest q)))"
proof -
  have same: "other(rq_dest q := d (rq_dest q)) = other"
    using assms(2) by auto
  show ?thesis
    using assms(1) same
    by (auto simp: run_request_def downloadFileFromPeer_def downloadFile_def download_failed_def Let_def
        dest: download_loop_frame [where other = "other(rq_dest q \<mapsto> [])"]
        split: prod.splits bool.splits sum.splits if_splits)
qed

text \<open>What a request does alone: its result and its file.\<close>

definition alone :: "endian \<Rightarrow> (string \<Rightarrow> dest_file) \<Rightarrow> disk \<Rightarrow> request \<Rightarrow> bool \<times> byte list option" where
  "alone e opens d q = (let (r, d') = run_request e opens q d in (r, d' (rq_dest q)))"

lemma run_requests_distinct:
  assumes "distinct (map rq_dest qs)" and "run_requests e opens qs d = (rs, d')"
  shows "rs = map (fst \<circ> alone e opens d) qs"
    and "q \<in> set qs \<Longrightarrow> d' (rq_dest q) = snd (alone e opens d q)"
    and "f \<notin> rq_dest ` set qs \<Longrightarrow> d' f = d f"
proof -
  have "rs = map (fst \<circ> alone e opens d) qs \<and>
      (\<forall>q \<in> set qs. d' (rq_dest q) = snd (alone e opens d q)) \<and>
      (\<forall>f. f \<notin> rq_dest ` set qs \<longrightarrow> d' f = d f)"
    using assms
  proof (induction qs arbitrary: d rs d')
    case (Cons q qs)
    obtain r d1 where q: "run_request e opens q d = (r, d1)"
      by fastforce
    obtain rs1 where qs: "run_requests e opens qs d1 = (rs1, d')" and rs: "rs = r # rs1"
      using Cons.prems(2) q by (auto split: prod.splits)
    have d1: "d1 = d(rq_dest q := d1 (rq_dest q))"
      using run_request_frame [OF q, of d] q by simp
    have elsewhere: "d1 f = d f" if "f \<noteq> rq_dest q" for f
      using that by (subst d1) simp
    have "alone e opens d1 q' = alone e opens d q'" if "q' \<in> set qs" for q'
    proof -
      have "rq_dest q' \<noteq> rq_dest q"
        using Cons.prems(1) that by (metis distinct.simps(2) image_eqI list.set_map list.simps(9))
      then show ?thesis
        using run_request_frame [of e opens q' d _ _ d1] elsewhere
        by (auto simp: alone_def split: prod.splits)
    qed
    then show ?case
      using Cons.IH [OF _ qs] Cons.prems(1) q rs elsewhere by (auto simp: alone_def)
  qed simp
  then show "rs = map (fst \<circ> alone e opens d) qs"
    and "q \<in> set qs \<Longrightarrow> d' (rq_dest q) = snd (alone e opens d q)"
    and "f \<notin> rq_dest ` set qs \<Longrightarrow> d' f = d f"
    by blast+
qed

section \<open>All threads\<close>

lemma start_transfer_alone:
  assumes "start_transfer e opens q d = (t, d')"
  shows "tr_request t = q" and "f \<noteq> rq_dest q \<Longrightarrow> d' f = d f"
    and "tr_result t = None \<Longrightarrow> file_kept opens t d'" and "fate e opens t d' = alone e opens d q"
  using assms
  by (auto simp: start_transfer_def run_request_def downloadFileFromPeer_def downloadFile_def alone_def
      fate_def file_kept_def download_failed_def Let_def split: prod.splits bool.splits sum.splits if_splits)

lemma turn_alone:
  assumes "transfer_turn e opens t d = (t', d')" and "tr_result t = None" and "file_kept opens t d"
  shows "tr_request t' = tr_request t" and "f \<noteq> tr_dest t \<Longrightarrow> d' f = d f"
    and "tr_result t' = None \<Longrightarrow> file_kept opens t' d'" and "fate e opens t' d' = fate e opens t d"
proof -
  obtain full where full: "length full = tr_pos t" "d (tr_dest t) = Some (stored (opens (tr_dest t)) full)"
    using assms(3) by (auto simp: file_kept_def)
  have "tr_request t' = tr_request t \<and> (f \<noteq> tr_dest t \<longrightarrow> d' f = d f) \<and>
      (tr_result t' = None \<longrightarrow> file_kept opens t' d') \<and> fate e opens t' d' = fate e opens t d"
    using assms(1,2)
  proof (cases rule: turn_cases)
    case (ended r)
    then show ?thesis by (simp add: fate_def)
  next
    case (chunk data)
    moreover have "file_kept opens t' d'"
      unfolding file_kept_def
      by (rule exI [where x = "full @ data"]) (use chunk full(2) in \<open>simp add: full(1) [symmetric]\<close>)
    ultimately show ?thesis
      using assms(3) by simp
  next
    case other
    then show ?thesis
      using assms(3) by (simp add: file_kept_def)
  qed
  then show "tr_request t' = tr_request t" and "f \<noteq> tr_dest t \<Longrightarrow> d' f = d f"
    and "tr_result t' = None \<Longrightarrow> file_kept opens t' d'" and "fate e opens t' d' = fate e opens t d"
    by blast+
qed

text \<open>The invariant of threads with different files: each of them is on its way to what its request
  does alone on the disk they all began with.\<close>

definition on_their_way ::
  "endian \<Rightarrow> (string \<Rightarrow> dest_file) \<Rightarrow> disk \<Rightarrow> transfers \<Rightarrow> bool" where
  "on_their_way e opens d0 s \<longleftrightarrow>
     (\<forall>t \<in> set (fst s). fate e opens t (snd s) = alone e opens d0 (tr_request t) \<and>
        (tr_result t = None \<longrightarrow> file_kept opens t (snd s))) \<and>
     (\<forall>f. f \<notin> tr_dest ` set (fst s) \<longrightarrow> snd s f = d0 f)"

lemma on_their_way_start:
  assumes "start_transfer e opens q d = (t, d')" and "distinct (map tr_dest (ts @ [t]))"
    and "on_their_way e opens d0 (ts, d)"
  shows "on_their_way e opens d0 (ts @ [t], d')"
proof -
  note t = start_transfer_alone [OF assms(1)]
  have "d (rq_dest q) = d0 (rq_dest q)"
    using assms(2,3) t(1) by (auto simp: on_their_way_def)
  then have "alone e opens d q = alone e opens d0 q"
    using run_request_frame [of e opens q d0 _ _ d] by (auto simp: alone_def split: prod.splits)
  moreover have "fate e opens t' d' = fate e opens t' d \<and> file_kept opens t' d' = file_kept opens t' d"
    if "t' \<in> set ts" for t'
  proof -
    have "tr_dest t' \<noteq> rq_dest q"
      using assms(2) t(1) that by (auto simp: image_iff)
    then show ?thesis
      using t(2) fate_frame file_kept_frame by blast
  qed
  ultimately show ?thesis
    using assms(3) t by (auto simp: on_their_way_def)
qed

text \<open>A turn keeps the request of its thread, and so the paths.\<close>

lemma turn_same_requests:
  assumes "transfer_turn e opens (ts ! i) d = (t, d')" and "tr_result (ts ! i) = None" and "i < length ts"
  shows "map tr_request (ts[i := t]) = map tr_request ts" and "map tr_dest (ts[i := t]) = map tr_dest ts"
proof -
  have "tr_request t = tr_request (ts ! i)"
    using assms(1,2) by (cases rule: turn_cases)
  then show "map tr_request (ts[i := t]) = map tr_request ts" and "map tr_dest (ts[i := t]) = map tr_dest ts"
    using assms(3) by (metis list_update_id map_update)+
qed

lemma on_their_way_turn:
  assumes "i < length ts" and "tr_result (ts ! i) = None" and "transfer_turn e opens (ts ! i) d = (t, d')"
    and "distinct (map tr_dest ts)" and "on_their_way e opens d0 (ts, d)"
  shows "on_their_way e opens d0 (ts[i := t], d')"
proof -
  have way: "fate e opens (ts ! j) d = alone e opens d0 (tr_request (ts ! j)) \<and>
      (tr_result (ts ! j) = None \<longrightarrow> file_kept opens (ts ! j) d)" if "j < length ts" for j
    using assms(5) that by (simp add: on_their_way_def)
  have "file_kept opens (ts ! i) d"
    using way [OF assms(1)] assms(2) by simp
  note t = turn_alone [OF assms(3,2) this]
  have others: "fate e opens (ts ! j) d' = fate e opens (ts ! j) d \<and>
      file_kept opens (ts ! j) d' = file_kept opens (ts ! j) d" if "j < length ts" "j \<noteq> i" for j
  proof -
    have "tr_dest (ts ! j) \<noteq> tr_dest (ts ! i)"
      using assms(1,4) that by (auto simp: distinct_conv_nth)
    then show ?thesis
      using t(2) fate_frame file_kept_frame by blast
  qed
  have "fate e opens t' d' = alone e opens d0 (tr_request t') \<and>
      (tr_result t' = None \<longrightarrow> file_kept opens t' d')" if t': "t' \<in> set (ts[i := t])" for t'
  proof -
    obtain j where "j < length ts" and "t' = ts[i := t] ! j"
      using t' by (metis in_set_conv_nth length_list_update)
    then show ?thesis
      using way [of j] others [of j] t by (cases "j = i") simp_all
  qed
  moreover have "d' f = d0 f" if "f \<notin> tr_dest ` set ts" for f
    using assms(1,5) t(2) [of f] that by (auto simp: on_their_way_def image_iff)
  moreover have "tr_dest ` set (ts[i := t]) = tr_dest ` set ts"
    using turn_same_requests(2) [OF assms(3,2,1)] by (metis list.set_map)
  ultimately show ?thesis
    by (simp add: on_their_way_def)
qed

lemma on_their_way_step:
  assumes "transfers_step e opens s s'" and "distinct (map tr_dest (fst s'))"
  shows "distinct (map tr_dest (fst s))" and "on_their_way e opens d0 s \<Longrightarrow> on_their_way e opens d0 s'"
  using assms
  by (induction rule: transfers_step.induct)
    (simp_all add: turn_same_requests on_their_way_turn on_their_way_start)

lemma on_their_way_reach:
  "(transfers_step e opens)\<^sup>*\<^sup>* ([], d0) s \<Longrightarrow> distinct (map tr_dest (fst s)) \<Longrightarrow> on_their_way e opens d0 s"
proof (induction rule: rtranclp_induct)
  case base
  then show ?case by (simp add: on_their_way_def)
next
  case (step s s')
  then show ?case
    using on_their_way_step by blast
qed

section \<open>Termination\<close>

text \<open>What is left to receive bounds the turns that are left.\<close>

definition work :: "transfer \<Rightarrow> nat" where
  "work t = (if tr_result t = None then Suc (rx_size (rx (sock (tr_client t)))) else 0)"

lemma turn_works:
  "transfer_turn e opens t d = (t', d') \<Longrightarrow> tr_result t = None \<Longrightarrow> work t' < work t"
  by (cases rule: turn_cases) (auto simp: work_def)

lemma work_total:
  assumes "i < length ts" and "work t < work (ts ! i)"
  shows "sum_list (map work (ts[i := t])) < sum_list (map work ts)"
proof -
  have "sum_list (map work ts) =
      sum_list (map work (take i ts)) + work (ts ! i) + sum_list (map work (drop (Suc i) ts))"
    using arg_cong [OF id_take_nth_drop [OF assms(1)], of "\<lambda>xs. sum_list (map work xs)"] by simp
  with assms show ?thesis
    by (simp add: upd_conv_take_nth_drop)
qed

lemma transfers_can_end:
  "\<exists>ts' d'. (transfers_step e opens)\<^sup>*\<^sup>* (ts, d) (ts', d') \<and> (\<forall>t \<in> set ts'. tr_result t \<noteq> None) \<and>
     map tr_request ts' = map tr_request ts"
proof (induction "sum_list (map work ts)" arbitrary: ts d rule: less_induct)
  case less
  show ?case
  proof (cases "\<forall>t \<in> set ts. tr_result t \<noteq> None")
    case False
    then obtain i where i: "i < length ts" "tr_result (ts ! i) = None"
      by (auto simp: in_set_conv_nth)
    obtain t d1 where t: "transfer_turn e opens (ts ! i) d = (t, d1)"
      by fastforce
    note requests = turn_same_requests(1) [OF t i(2,1)]
    have "transfers_step e opens (ts, d) (ts[i := t], d1)"
      using i t by (rule transfers_step.turn)
    with less [OF work_total [OF i(1) turn_works [OF t i(2)]], of d1] requests show ?thesis
      by (metis converse_rtranclp_into_rtranclp)
  qed blast
qed

section \<open>Descriptors\<close>

text \<open>A running thread holds the descriptor of its connection, one that has returned holds none.\<close>

definition thread_ok :: "transfer \<Rightarrow> bool" where
  "thread_ok t \<longleftrightarrow>
     client_wf (tr_client t) \<and> (tr_result t \<noteq> None \<longrightarrow> open_fds (tr_client t) = [])"

lemma thread_ok_finish: "client_wf c \<Longrightarrow> thread_ok (finish r c t)"
  using client_wf_disconnect [of c] disconnect_not_connected [of c]
  by (simp add: thread_ok_def client_wf_def)

lemma thread_ok_start: "start_transfer e opens q d = (t, d') \<Longrightarrow> thread_ok t"
  using client_wf_connect [OF client_wf_new, of "rq_dial q" "rq_fd q" "rq_address q" "rq_port q"]
  by (auto simp: start_transfer_def download_failed_def Let_def thread_ok_finish client_wf_send_eq
      split: prod.splits bool.splits sum.splits if_splits) (auto simp: thread_ok_def client_wf_send_eq)

lemma thread_ok_turn: "transfer_turn e opens t d = (t', d') \<Longrightarrow> thread_ok t \<Longrightarrow> tr_result t = None \<Longrightarrow> thread_ok t'"
  by (auto simp: transfer_turn_def download_failed_def Let_def thread_ok_finish
      split: prod.splits sum.splits list.splits MessageType.splits dest!: client_wf_receive_eq)
    (auto simp: thread_ok_def)

lemma transfers_close_their_sockets:
  "(transfers_step e opens)\<^sup>*\<^sup>* ([], d0) s \<Longrightarrow> t \<in> set (fst s) \<Longrightarrow> thread_ok t"
proof (induction arbitrary: t rule: rtranclp_induct)
  case (step s s')
  from step.hyps(2) show ?case
  proof (cases rule: transfers_step.cases)
    case (start q d u d' ts)
    then show ?thesis
      using step.IH step.prems thread_ok_start by auto
  next
    case (turn i ts d u d')
    then show ?thesis
      using step.IH step.prems thread_ok_turn [of e opens "ts ! i" d u d'] set_update_subset_insert [of ts i u]
      by fastforce
  qed
qed simp

section \<open>Two threads on one path\<close>

text \<open>A request whose connection, request and file succeed, with the bytes its server sends.\<close>

definition answered :: "endian \<Rightarrow> (string \<Rightarrow> dest_file) \<Rightarrow> request \<Rightarrow> byte list \<Rightarrow> bool" where
  "answered e opens q bs \<longleftrightarrow>
     (\<exists>k. client_connect (rq_dial q) (rq_fd q) (rq_address q) (rq_port q) new_Client = (True, k) \<and>
        connected k \<and> fst (client_sendMessage e FILE_REQUEST (to_bytes (rq_name q)) k) = Inr () \<and>
        pending (rx (sock k)) = bs) \<and> opens (rq_dest q) \<noteq> Cannot_create"

definition awaits :: "request \<Rightarrow> byte list \<Rightarrow> nat \<Rightarrow> transfer \<Rightarrow> bool" where
  "awaits q rest n t \<longleftrightarrow>
     tr_request t = q \<and> tr_result t = None \<and> connected (tr_client t) \<and>
     pending (rx (sock (tr_client t))) = rest \<and> tr_pos t = n"

lemma start_awaits:
  assumes "answered e opens q bs"
  obtains t where "start_transfer e opens q d = (t, d(rq_dest q \<mapsto> []))" and "awaits q bs 0 t"
proof -
  let ?p = "new_progress (rq_clk q 0) (rq_name q)"
  obtain k where k: "client_connect (rq_dial q) (rq_fd q) (rq_address q) (rq_port q) new_Client = (True, k)"
      "connected k" "fst (client_sendMessage e FILE_REQUEST (to_bytes (rq_name q)) k) = Inr ()"
      "pending (rx (sock k)) = bs" and can: "opens (rq_dest q) \<noteq> Cannot_create"
    using assms by (auto simp: answered_def)
  let ?k0 = "set_progress (rq_name q) ?p k"
  obtain k1 where sent: "client_sendMessage e FILE_REQUEST (to_bytes (rq_name q)) ?k0 = (Inr (), k1)"
    using k(3) client_send_set_progress [of e FILE_REQUEST "to_bytes (rq_name q)" "rq_name q" ?p k]
    by (metis prod.collapse)
  then have "rx (sock k1) = rx (sock k)" and same: "k1\<lparr>sock := sock ?k0\<rparr> = ?k0"
    using send_writes_frame [OF _ sent] k(2) by auto
  moreover have "connected k1"
    using arg_cong [OF same, of connected] k(2) by simp
  ultimately show ?thesis
    using that k(1,4) sent can by (simp add: start_transfer_def awaits_def)
qed

lemma chunk_awaits:
  assumes "awaits q (frame FILE_CHUNK data @ rest) n t" and "Suc (length data) \<le> 10485760"
  obtains t' where "transfer_turn e opens t d =
      (t', d(rq_dest q \<mapsto> write_at (opens (rq_dest q)) n data (the (d (rq_dest q)))))"
    and "awaits q rest (n + length data) t'"
proof -
  obtain es where r: "client_receiveMessage e (tr_client t) =
      (Inr (type_byte FILE_CHUNK # data), set_rx es (tr_client t))" and es: "pending es = rest"
    using receive_frame [OF _ _ assms(2), where c = "tr_client t" and t = FILE_CHUNK] assms(1)
    by (auto simp: awaits_def)
  obtain v' p' where "chunk_received (rq_clk q) (vsize data) (tr_vars t) (tr_progress t) = (v', p')"
    by fastforce
  with r es assms(1) that show ?thesis
    by (simp add: transfer_turn_def awaits_def byte_type_def Let_def)
qed

lemma complete_awaits:
  assumes "awaits q (frame FILE_COMPLETE [] @ rest) n t"
  obtains t' where "transfer_turn e opens t d = (t', d)" and "tr_request t' = q" and "tr_result t' = Some True"
proof -
  obtain es where "client_receiveMessage e (tr_client t) =
      (Inr [type_byte FILE_COMPLETE], set_rx es (tr_client t))"
    using receive_frame [of "tr_client t" FILE_COMPLETE "[]" rest e] assms by (auto simp: awaits_def)
  with assms that show ?thesis
    by (simp add: transfer_turn_def awaits_def byte_type_def Let_def)
qed

lemma step_start:
  assumes "answered e opens q bs"
  obtains t where "transfers_step e opens (ts, d) (ts @ [t], d(rq_dest q \<mapsto> []))" and "awaits q bs 0 t"
  using start_awaits [OF assms] transfers_step.start by metis

lemma step_chunk:
  assumes "awaits q (frame FILE_CHUNK data @ rest) n (ts ! i)" and "i < length ts"
    and "Suc (length data) \<le> 10485760"
  obtains t where "transfers_step e opens (ts, d)
      (ts[i := t], d(rq_dest q \<mapsto> write_at (opens (rq_dest q)) n data (the (d (rq_dest q)))))"
    and "awaits q rest (n + length data) t"
proof -
  have "tr_result (ts ! i) = None"
    using assms(1) by (simp add: awaits_def)
  with that show ?thesis
    using chunk_awaits [OF assms(1,3)] transfers_step.turn [OF assms(2)] by metis
qed

lemma step_complete:
  assumes "awaits q (frame FILE_COMPLETE []) n (ts ! i)" and "i < length ts"
  obtains t where "transfers_step e opens (ts, d) (ts[i := t], d)"
    and "tr_request t = q" and "tr_result t = Some True"
proof -
  have "tr_result (ts ! i) = None"
    using assms(1) by (simp add: awaits_def)
  with that show ?thesis
    using complete_awaits [of q "[]" n "ts ! i"] assms(1) transfers_step.turn [OF assms(2)]
    by (metis append_Nil2)
qed

text \<open>One thread writes \<open>a\<close>; the other cuts the file, writes \<open>x\<close> and ends; the first goes on at its
  own position with \<open>b\<close>. Both report success.\<close>

lemma same_path_mixes:
  assumes "answered e opens q (frame FILE_CHUNK a @ frame FILE_CHUNK b @ frame FILE_COMPLETE [])"
    and "answered e opens q' (frame FILE_CHUNK x @ frame FILE_COMPLETE [])"
    and "rq_dest q' = rq_dest q"
    and "\<forall>bs \<in> {a, b, x}. Suc (length bs) \<le> 10485760"
  shows "\<exists>ts d. (transfers_step e opens)\<^sup>*\<^sup>* ([], d0) (ts, d) \<and> map tr_request ts = [q, q'] \<and>
    map tr_result ts = [Some True, Some True] \<and>
    d (rq_dest q) = Some (write_at (opens (rq_dest q)) (length a) b
      (write_at (opens (rq_dest q)) 0 x []))"
proof -
  let ?f = "rq_dest q" and ?W = "write_at (opens (rq_dest q))" and ?S = "transfers_step e opens"
  obtain t1 where 1: "?S ([], d0) ([t1], d0(?f \<mapsto> []))"
      "awaits q (frame FILE_CHUNK a @ frame FILE_CHUNK b @ frame FILE_COMPLETE []) 0 t1"
    using step_start [OF assms(1), of "[]" d0] by auto
  obtain t2 where 2: "?S ([t1], d0(?f \<mapsto> [])) ([t2], d0(?f \<mapsto> ?W 0 a []))"
      "awaits q (frame FILE_CHUNK b @ frame FILE_COMPLETE []) (length a) t2"
    using step_chunk [of q a _ 0 "[t1]" 0 e opens "d0(?f \<mapsto> [])"] 1(2) assms(4) by auto
  obtain u1 where 3: "?S ([t2], d0(?f \<mapsto> ?W 0 a [])) ([t2, u1], d0(?f \<mapsto> []))"
      "awaits q' (frame FILE_CHUNK x @ frame FILE_COMPLETE []) 0 u1"
    using step_start [OF assms(2), of "[t2]" "d0(?f \<mapsto> ?W 0 a [])"] assms(3) by auto
  obtain u2 where 4: "?S ([t2, u1], d0(?f \<mapsto> [])) ([t2, u2], d0(?f \<mapsto> ?W 0 x []))"
      "awaits q' (frame FILE_COMPLETE []) (length x) u2"
    using step_chunk [of q' x _ 0 "[t2, u1]" 1 e opens "d0(?f \<mapsto> [])"] 3(2) assms(3,4) by auto
  obtain u3 where 5: "?S ([t2, u2], d0(?f \<mapsto> ?W 0 x [])) ([t2, u3], d0(?f \<mapsto> ?W 0 x []))"
      "tr_request u3 = q'" "tr_result u3 = Some True"
    using step_complete [of q' _ "[t2, u2]" 1 e opens "d0(?f \<mapsto> ?W 0 x [])"] 4(2) by auto
  obtain t3 where 6: "?S ([t2, u3], d0(?f \<mapsto> ?W 0 x []))
        ([t3, u3], d0(?f \<mapsto> ?W (length a) b (?W 0 x [])))"
      "awaits q (frame FILE_COMPLETE []) (length a + length b) t3"
    using step_chunk [of q b _ "length a" "[t2, u3]" 0 e opens "d0(?f \<mapsto> ?W 0 x [])"] 2(2) assms(4) by auto
  obtain t4 where 7: "?S ([t3, u3], d0(?f \<mapsto> ?W (length a) b (?W 0 x [])))
        ([t4, u3], d0(?f \<mapsto> ?W (length a) b (?W 0 x [])))" "tr_request t4 = q" "tr_result t4 = Some True"
    using step_complete [of q _ "[t3, u3]" 0 e opens "d0(?f \<mapsto> ?W (length a) b (?W 0 x []))"] 6(2) by auto
  have "?S\<^sup>*\<^sup>* ([], d0) ([t4, u3], d0(?f \<mapsto> ?W (length a) b (?W 0 x [])))"
    by (meson 1(1) 2(1) 3(1) 4(1) 5(1) 6(1) 7(1) converse_rtranclp_into_rtranclp rtranclp.rtrancl_refl)
  with 5 7 show ?thesis
    by (intro exI [of _ "[t4, u3]"] exI [of _ "d0(?f \<mapsto> ?W (length a) b (?W 0 x []))"] conjI) simp_all
qed

text \<open>Requests for the examples.\<close>

definition example_request :: "string \<Rightarrow> byte list \<Rightarrow> request" where
  "example_request dest bs =
     \<lparr>rq_name = ''f'', rq_address = ''127.0.0.1'', rq_port = 8888, rq_dest = dest, rq_clk = (\<lambda>_. 0),
      rq_dial = (\<lambda>_ _. Some (calm [Data bs])), rq_fd = 5\<rparr>"

lemma example_request_fields [simp]: "rq_dest (example_request dest bs) = dest"
  by (simp add: example_request_def)

lemma example_answered: "opens dest \<noteq> Cannot_create \<Longrightarrow> answered e opens (example_request dest bs) bs"
  by (simp add: answered_def example_request_def)

text \<open>Served one after the other, the two downloads would leave \<open>[9]\<close> or \<open>[1, 2, 3]\<close>.\<close>

lemma one_path_two_downloads:
  "\<exists>ts d. (transfers_step LittleEndian (\<lambda>_. Unbounded))\<^sup>*\<^sup>* ([], Map.empty) (ts, d) \<and>
    map tr_result ts = [Some True, Some True] \<and> d ''g'' = Some [9, 0, 3]"
proof -
  let ?q = "example_request ''g'' (frame FILE_CHUNK [1, 2] @ frame FILE_CHUNK [3] @ frame FILE_COMPLETE [])"
  let ?q' = "example_request ''g'' (frame FILE_CHUNK [9] @ frame FILE_COMPLETE [])"
  obtain ts d where "(transfers_step LittleEndian (\<lambda>_. Unbounded))\<^sup>*\<^sup>* ([], Map.empty) (ts, d)"
    and "map tr_result ts = [Some True, Some True]" and "d ''g'' = Some [9, 0, 3]"
    using same_path_mixes [of LittleEndian "\<lambda>_. Unbounded" ?q "[1, 2]" "[3]" ?q' "[9]" Map.empty]
    by (auto simp: example_answered write_at_def simp del: map_eq_Cons_conv)
  then show ?thesis
    by (intro exI [of _ ts] exI [of _ d]) simp
qed

section \<open>Properties\<close>

lemma ended_as_in_turn:
  assumes "(transfers_step e opens)\<^sup>*\<^sup>* ([], d0) (ts, d)" and "distinct (map tr_dest ts)"
    and "\<forall>t \<in> set ts. tr_result t \<noteq> None"
  shows "run_requests e opens (map tr_request ts) d0 = (map (the \<circ> tr_result) ts, d)"
proof -
  obtain rs d' where run: "run_requests e opens (map tr_request ts) d0 = (rs, d')"
    by fastforce
  have "distinct (map rq_dest (map tr_request ts))"
    using assms(2) by (simp add: comp_def)
  note run_alone = run_requests_distinct [OF this run]
  have way: "on_their_way e opens d0 (ts, d)"
    using on_their_way_reach [OF assms(1)] assms(2) by simp
  have ended: "alone e opens d0 (tr_request t) = (the (tr_result t), d (tr_dest t))" if "t \<in> set ts" for t
    using way assms(3) that by (auto simp: on_their_way_def fate_def split: option.splits)
  have "rs = map (the \<circ> tr_result) ts"
    using ended by (simp add: run_alone(1))
  moreover have "d' f = d f" for f
  proof (cases "f \<in> tr_dest ` set ts")
    case True
    then show ?thesis
      using run_alone(2) ended by auto
  next
    case False
    then show ?thesis
      using run_alone(3) [of f] way by (auto simp: on_their_way_def image_iff)
  qed
  ultimately show ?thesis
    using run by auto
qed

text \<open>
  C13. The downloads that \<open>get\<close> starts do not disturb each other as long as no two of them write to
  the same path; each path has its own room on the disk, and the network of each thread ends. However the starts and the turns of their threads interleave, when all of them
  have returned, their results and the disk are what the same requests give when they are served
  one after the other; and from every point on they can all come to an end, with that result.
\<close>

theorem downloads_serializable:
  assumes "(transfers_step e opens)\<^sup>*\<^sup>* ([], d0) (ts, d)" and "distinct (map tr_dest ts)"
  shows "((\<forall>t \<in> set ts. tr_result t \<noteq> None) \<longrightarrow>
      run_requests e opens (map tr_request ts) d0 = (map (the \<circ> tr_result) ts, d)) \<and>
    (\<exists>ts' d'. (transfers_step e opens)\<^sup>*\<^sup>* (ts, d) (ts', d') \<and>
      (\<forall>t \<in> set ts'. tr_result t \<noteq> None) \<and>
      run_requests e opens (map tr_request ts) d0 = (map (the \<circ> tr_result) ts', d'))"
proof -
  obtain ts' d' where later: "(transfers_step e opens)\<^sup>*\<^sup>* (ts, d) (ts', d')"
      "\<forall>t \<in> set ts'. tr_result t \<noteq> None" "map tr_request ts' = map tr_request ts"
    using transfers_can_end by blast
  have "map tr_dest ts' = map tr_dest ts"
    using arg_cong [OF later(3), of "map rq_dest"] by (simp add: comp_def)
  then have "run_requests e opens (map tr_request ts') d0 = (map (the \<circ> tr_result) ts', d')"
    using ended_as_in_turn [of e opens d0 ts' d'] assms later(1,2) by (metis rtranclp_trans)
  with later ended_as_in_turn [OF assms] show ?thesis
    by auto
qed

text \<open>Two downloads that take turns: the second one starts, receives and ends within the first.\<close>

theorem downloads_serializable_witness:
  "run_requests LittleEndian (\<lambda>_. Unbounded)
     [example_request ''g'' (frame FILE_CHUNK [1, 2] @ frame FILE_COMPLETE []),
      example_request ''h'' (frame FILE_CHUNK [3] @ frame FILE_COMPLETE [])] Map.empty =
   ([True, True], [''g'' \<mapsto> [1, 2], ''h'' \<mapsto> [3]])"
proof -
  let ?o = "\<lambda>_ :: string. Unbounded"
  let ?S = "transfers_step LittleEndian ?o"
  let ?g = "example_request ''g'' (frame FILE_CHUNK [1, 2] @ frame FILE_COMPLETE [])"
  let ?h = "example_request ''h'' (frame FILE_CHUNK [3] @ frame FILE_COMPLETE [])"
  obtain t1 where 1: "?S ([], Map.empty) ([t1], [''g'' \<mapsto> []])"
      "awaits ?g (frame FILE_CHUNK [1, 2] @ frame FILE_COMPLETE []) 0 t1"
    using step_start [OF example_answered, of ?o "''g''" LittleEndian "[]" Map.empty] by auto
  obtain u1 where 2: "?S ([t1], [''g'' \<mapsto> []]) ([t1, u1], [''g'' \<mapsto> [], ''h'' \<mapsto> []])"
      "awaits ?h (frame FILE_CHUNK [3] @ frame FILE_COMPLETE []) 0 u1"
    using step_start [OF example_answered, of ?o "''h''" LittleEndian "[t1]" "[''g'' \<mapsto> []]"] by auto
  obtain t2 where 3: "?S ([t1, u1], [''g'' \<mapsto> [], ''h'' \<mapsto> []]) ([t2, u1], [''g'' \<mapsto> [1, 2], ''h'' \<mapsto> []])"
      "awaits ?g (frame FILE_COMPLETE []) (Suc (Suc 0)) t2"
    using step_chunk [of ?g "[1, 2]" _ 0 "[t1, u1]" 0 LittleEndian ?o "[''g'' \<mapsto> [], ''h'' \<mapsto> []]"] 1(2)
    by (auto simp: write_at_def fun_upd_twist)
  obtain u2 where 4: "?S ([t2, u1], [''g'' \<mapsto> [1, 2], ''h'' \<mapsto> []]) ([t2, u2], [''g'' \<mapsto> [1, 2], ''h'' \<mapsto> [3]])"
      "awaits ?h (frame FILE_COMPLETE []) (Suc 0) u2"
    using step_chunk [of ?h "[3]" _ 0 "[t2, u1]" 1 LittleEndian ?o "[''g'' \<mapsto> [1, 2], ''h'' \<mapsto> []]"] 2(2)
    by (auto simp: write_at_def)
  obtain u3 where 5: "?S ([t2, u2], [''g'' \<mapsto> [1, 2], ''h'' \<mapsto> [3]]) ([t2, u3], [''g'' \<mapsto> [1, 2], ''h'' \<mapsto> [3]])"
      "tr_request u3 = ?h" "tr_result u3 = Some True"
    using step_complete [of ?h _ "[t2, u2]" 1 LittleEndian ?o "[''g'' \<mapsto> [1, 2], ''h'' \<mapsto> [3]]"] 4(2) by auto
  obtain t3 where 6: "?S ([t2, u3], [''g'' \<mapsto> [1, 2], ''h'' \<mapsto> [3]]) ([t3, u3], [''g'' \<mapsto> [1, 2], ''h'' \<mapsto> [3]])"
      "tr_request t3 = ?g" "tr_result t3 = Some True"
    using step_complete [of ?g _ "[t2, u3]" 0 LittleEndian ?o "[''g'' \<mapsto> [1, 2], ''h'' \<mapsto> [3]]"] 3(2) by auto
  note step = rtranclp.rtrancl_into_rtrancl [of ?S]
  have "?S\<^sup>*\<^sup>* ([], Map.empty) ([t3, u3], [''g'' \<mapsto> [1, 2], ''h'' \<mapsto> [3]])"
    by (rule step [OF step [OF step [OF step [OF step [OF step [OF rtranclp.rtrancl_refl 1(1)]
      2(1)] 3(1)] 4(1)] 5(1)] 6(1)])
  from conjunct1 [OF downloads_serializable [OF this]] 5(2,3) 6(2,3) show ?thesis
    by (simp del: run_requests.simps not_None_eq)
qed

end
