(* ===== verification/Node.thy ===== *)
theory Node
  imports CLI "HOL-Library.Sublist"
begin

text \<open>
  \<open>src/main.cpp\<close>, and the node as a whole: the steps that the command loop, the threads of the
  peer manager, the event thread of the server and the detached downloads take on one state,
  and what holds in every state they reach.
\<close>

section \<open>The command line of the program\<close>

text \<open>\<open>atoi\<close> of the C library: \<open>strtol\<close>, which saturates at 64 bits, cut to an \<open>int\<close>.\<close>

definition atoi :: "string \<Rightarrow> int" where
  "atoi s =
     (case scan_number s of
        None \<Rightarrow> 0
      | Some (neg, n) \<Rightarrow>
          (let v = (if neg then max (- int n) (- (2 ^ 63)) else min (int n) (2 ^ 63 - 1))
           in sint (word_of_int v :: 32 word)))"

text \<open>The arguments after the program's name; \<open>None\<close> is the help option.\<close>

fun parse_args :: "string list \<Rightarrow> int \<times> string \<Rightarrow> (int \<times> string) option" where
  "parse_args [] (port, dir) = Some (port, dir)"
| "parse_args (arg # as) (port, dir) =
     (if arg = ''-p'' \<or> arg = ''--port'' then
        (case as of
           [] \<Rightarrow> Some (port, dir)
         | v # as' \<Rightarrow> parse_args as' (atoi v, dir))
      else if arg = ''-d'' \<or> arg = ''--directory'' then
        (case as of
           [] \<Rightarrow> Some (port, dir)
         | v # as' \<Rightarrow> parse_args as' (port, v))
      else if arg = ''-h'' \<or> arg = ''--help'' then None
      else parse_args as (port, dir))"

definition usage_text :: "string \<Rightarrow> string" where
  "usage_text argv0 = text_lines
     [''Usage: '' @ argv0 @ '' [OPTIONS]'',
      ''Options:'',
      ''  -p, --port PORT       Set listen port (default: '' @ show_int DEFAULT_PORT @ '')'',
      ''  -d, --directory DIR   Set shared directory (default: ./shared/)'',
      ''  -h, --help           Show this help message'']"

text \<open>What \<open>main\<close> returns and prints by itself, and the node as its destructor leaves it; there
  is no node when the help is shown or the constructor throws.\<close>

record 'w main_result =
  exit_code :: int
  m_out :: string
  m_err :: string
  m_node :: "'w CLI option"

text \<open>\<open>waiting\<close> is what the other threads do before the end of file, \<open>leaving\<close> what they do between
  the end of \<open>run\<close> and the destructor.\<close>

definition cli_main ::
  "('w, 'x) cli_env \<Rightarrow> (string \<Rightarrow> HPServer \<Rightarrow> (exn + unit) \<times> HPServer) \<Rightarrow> start_env \<Rightarrow>
   'w input_line list \<Rightarrow> ('w CLI \<Rightarrow> 'w CLI) \<Rightarrow> ('w CLI \<Rightarrow> 'w CLI) \<Rightarrow> string \<Rightarrow> string list \<Rightarrow> 'w \<Rightarrow>
   'w main_result" where
  "cli_main E set_dir v input waiting leaving argv0 args w =
     (case parse_args args (DEFAULT_PORT, ''./shared/'') of
        None \<Rightarrow> \<lparr>exit_code = 0, m_out = usage_text argv0, m_err = [], m_node = None\<rparr>
      | Some (port, dir) \<Rightarrow>
          (case new_CLI E port dir w of
             Inl e \<Rightarrow>
               \<lparr>exit_code = 1, m_out = [], m_err = ''Fatal error: '' @ what e @ endl, m_node = None\<rparr>
           | Inr c \<Rightarrow>
               (case cli_initialize E set_dir v c of
                  (Inl e, c1) \<Rightarrow>
                    \<lparr>exit_code = 1, m_out = [], m_err = ''Fatal error: '' @ what e @ endl,
                     m_node = Some (cli_destroy c1)\<rparr>
                | (Inr False, c1) \<Rightarrow>
                    \<lparr>exit_code = 1, m_out = [], m_err = ''Failed to initialize P2P node'' @ endl,
                     m_node = Some (cli_destroy c1)\<rparr>
                | (Inr True, c1) \<Rightarrow>
                    \<lparr>exit_code = 0, m_out = [], m_err = [],
                     m_node = Some (cli_destroy (leaving (cli_run E waiting input c1)))\<rparr>)))"

text \<open>The signal handler, on the node that \<open>g_cli\<close> points to; \<open>exit(0)\<close> follows.\<close>

fun signalHandler :: "int \<Rightarrow> 'w CLI option \<Rightarrow> 'w CLI option" where
  "signalHandler signal None = None"
| "signalHandler signal (Some c) =
     Some (cli_shutdown
       (print (endl @ ''Received signal '' @ show_int signal @ ''. Shutting down gracefully...'' @ endl) c))"

section \<open>Steps of the node\<close>

text \<open>What the threads of a peer manager do to it.\<close>

inductive pm_thread :: "PeerManager \<Rightarrow> PeerManager \<Rightarrow> bool" where
  bootstrap: "pm_thread m (bootstrap_line t_new t_active m line)"
| stale: "pm_running m \<Longrightarrow> probing m = [] \<Longrightarrow> pm_thread m (removeStalePeers now m)"
| snapshot: "pm_running m \<Longrightarrow> probing m = [] \<Longrightarrow> pm_thread m (m\<lparr>probing := getActivePeers m\<rparr>)"
| probe: "probing m = r # rs \<Longrightarrow> pm_thread m ((probe_peer e dial fd now r m)\<lparr>probing := rs\<rparr>)"

text \<open>What goes on beside the command loop: the threads of the two peer managers, the event thread of
  the server, and the detached downloads. A download is one step: \<open>Transfers\<close> shows that downloads to
  different paths end as if each were.\<close>

inductive node_thread ::
  "('w, 'x) cli_env \<Rightarrow> hp_handlers \<Rightarrow> 'w CLI \<Rightarrow> 'w CLI \<Rightarrow> bool" for E h where
  peers: "pm_thread (cli_peers c) m \<Longrightarrow> node_thread E h c (c\<lparr>cli_peers := m\<rparr>)"
| server_peers: "pm_thread (hp_peers (cli_server c)) m \<Longrightarrow>
    node_thread E h c (c\<lparr>cli_server := (cli_server c)\<lparr>hp_peers := m\<rparr>\<rparr>)"
| served: "hp_running (cli_server c) \<Longrightarrow> hp_run h (cli_server c) s \<Longrightarrow>
    node_thread E h c (c\<lparr>cli_server := s\<rparr>)"
| download: "cli_jobs c = js1 @ j # js2 \<Longrightarrow>
    node_thread E h c (run_job E e clk dial fd j (c\<lparr>cli_jobs := js1 @ js2\<rparr>))"

text \<open>A line that runs the one command without a definition.\<close>

definition connects :: "string \<Rightarrow> bool" where
  "connects l = (case parseCommand l of [] \<Rightarrow> False | a # as \<Rightarrow> command_of (map to_lower a) = Cmd_connect)"

text \<open>The states after \<open>initialize\<close> and after each step: a line of input, a step of another thread,
  the end of the program (by the destructor or the signal handler), or other output (the banner,
  the farewell).\<close>

inductive cli_reach ::
  "('w, 'x) cli_env \<Rightarrow> (string \<Rightarrow> HPServer \<Rightarrow> (exn + unit) \<times> HPServer) \<Rightarrow> hp_handlers \<Rightarrow>
   'w CLI \<Rightarrow> bool" for E set_dir h where
  created: "new_CLI E port dir w = Inr c \<Longrightarrow> cli_reach E set_dir h (snd (cli_initialize E set_dir v c))"
| command: "cli_reach E set_dir h c \<Longrightarrow> cli_running c \<Longrightarrow> \<not> connects l \<Longrightarrow>
    (\<And>m. pm_thread\<^sup>*\<^sup>* m (others m)) \<Longrightarrow> cli_reach E set_dir h (run_line E now others l c)"
| thread: "cli_reach E set_dir h c \<Longrightarrow> node_thread E h c c' \<Longrightarrow> cli_reach E set_dir h c'"
| ended: "cli_reach E set_dir h c \<Longrightarrow> cli_reach E set_dir h (cli_shutdown c)"
| printed: "cli_reach E set_dir h c \<Longrightarrow> cli_reach E set_dir h (print t c)"

lemma reach_threads:
  "(node_thread E h)\<^sup>*\<^sup>* c c' \<Longrightarrow> cli_reach E set_dir h c \<Longrightarrow> cli_reach E set_dir h c'"
  by (induction rule: rtranclp_induct) (auto intro: cli_reach.thread)

lemma reach_signal:
  "cli_reach E set_dir h c \<Longrightarrow> \<exists>c'. signalHandler signal (Some c) = Some c' \<and> cli_reach E set_dir h c'"
  by (simp add: cli_reach.ended cli_reach.printed)

section \<open>Well-formed nodes\<close>

definition peers_wf :: "PeerManager \<Rightarrow> bool" where
  "peers_wf m \<longleftrightarrow> pm_wf m \<and> (\<forall>p \<in> set (heap m). peer_wf p)"

text \<open>The server owns its descriptors, and none when it is not running.\<close>

definition server_wf :: "HPServer \<Rightarrow> bool" where
  "server_wf s \<longleftrightarrow> (if hp_running s then hp_wf [] s else hp_fds s = [] \<and> connections s = [])"

definition slashed :: "string \<Rightarrow> string" where
  "slashed dir = (if dir \<noteq> [] \<and> last dir \<noteq> CHR ''/'' then dir @ ''/'' else dir)"

definition files_wf :: "string \<Rightarrow> FileManager \<Rightarrow> bool" where
  "files_wf dir m \<longleftrightarrow>
     shared_directory m = slashed dir \<and>
     (\<forall>f \<in> set (local_files m). isValidFile (filepath f) \<and> filename f = path_filename (filepath f))"

definition parts_wf :: "'w CLI \<Rightarrow> bool" where
  "parts_wf c \<longleftrightarrow>
     peers_wf (cli_peers c) \<and> files_wf (cli_directory c) (cli_files c) \<and>
     cli_client c = new_Client \<and> (\<forall>j \<in> set (cli_jobs c). jb_peer j < length (heap (cli_peers c)))"

text \<open>\<open>HighPerformanceServer::setSharedDirectory\<close> is called and not declared. Where the server's
  descriptors matter it is asked to change nothing of the server but its list of files, as the
  method of that name of the older server does, and as the performance test expects, which calls it
  on a fresh server and starts the server afterwards.\<close>

definition sets_files_only :: "(string \<Rightarrow> HPServer \<Rightarrow> (exn + unit) \<times> HPServer) \<Rightarrow> bool" where
  "sets_files_only set_dir \<longleftrightarrow> (\<forall>dir s. \<exists>fm. snd (set_dir dir s) = s\<lparr>hp_files := fm\<rparr>)"

definition set_dir_like_server ::
  "'x sha256 \<Rightarrow> fs_view \<Rightarrow> string \<Rightarrow> HPServer \<Rightarrow> (exn + unit) \<times> HPServer" where
  "set_dir_like_server sha fs dir s =
     (let (r, m) = fm_setSharedDirectory sha fs dir (hp_files s) in (r, s\<lparr>hp_files := m\<rparr>))"

lemma sets_files_only_like_server [simp]: "sets_files_only (set_dir_like_server sha fs)"
  by (auto simp: sets_files_only_def set_dir_like_server_def split: prod.split)

section \<open>What the steps keep\<close>

lemma connect_connected: "client_connect dial fd address port k = (True, k') \<Longrightarrow> connected k'"
  by (auto simp: client_connect_def Let_def split: prod.splits if_splits option.splits)

lemma pm_thread_step: "pm_thread m m' \<Longrightarrow> pm_step m m'"
  by (induction rule: pm_thread.induct) (auto intro: pm_step.intros)

lemma heap_modify: "\<forall>p \<in> set (heap m). peer_wf p \<Longrightarrow> (\<And>p. peer_wf p \<Longrightarrow> peer_wf (f p)) \<Longrightarrow>
    r < length (heap m) \<Longrightarrow> \<forall>p \<in> set (heap (modify r f m)). peer_wf p"
  by (auto simp: modify_def deref_def dest!: set_update_subset_insert [THEN subsetD])

lemma peer_wf_probed: "peer_wf p \<Longrightarrow> peer_wf (probed e env p)"
  by (simp add: probed_def split: prod.split)

lemma pm_thread_heap:
  "pm_thread m m' \<Longrightarrow> peers_wf m \<Longrightarrow>
   (\<forall>p \<in> set (heap m'). peer_wf p) \<and> length (heap m) \<le> length (heap m')"
proof (induction rule: pm_thread.induct)
  case (bootstrap m t_new t_active line)
  then show ?case
    by (auto simp: bootstrap_line_def make_shared_def addPeer_def peers_wf_def dest: deserialize_wf
        split: sum.split)
next
  case (probe m r rs e dial fd now)
  then have "r < length (heap m)"
    by (auto simp: peers_wf_def pm_wf_def)
  with probe show ?case
    using heap_modify [of m "probed e (dial, fd, now)" r]
    by (simp add: probe_peer_eq peers_wf_def peer_wf_probed)
qed (simp_all add: peers_wf_def removeStalePeers_def)

lemma pm_thread_wf:
  "pm_thread m m' \<Longrightarrow> peers_wf m \<Longrightarrow> peers_wf m' \<and> length (heap m) \<le> length (heap m')"
  using pm_thread_heap pm_thread_step pm_step_wf unfolding peers_wf_def by blast

lemma pm_threads_wf:
  "pm_thread\<^sup>*\<^sup>* m m' \<Longrightarrow> peers_wf m \<Longrightarrow> peers_wf m' \<and> length (heap m) \<le> length (heap m')"
  by (induction rule: rtranclp_induct) (auto dest: pm_thread_wf)

lemma refresh_files:
  "snd (refreshFileList sha fs m) =
   m\<lparr>local_files := snd (scan_loop sha fs (fst (listing fs (shared_directory m)))
      (snd (listing fs (shared_directory m))) [])\<rparr>"
  by (simp add: refreshFileList_def scanDirectory_def Let_def split: prod.split option.split)

lemma files_wf_scan: "files_wf dir m \<Longrightarrow> files_wf dir (snd (refreshFileList sha fs m))"
  using scan_loop_truthful [of "[]" sha fs "fst (listing fs (shared_directory m))"
      "snd (listing fs (shared_directory m))"]
  by (simp add: refresh_files files_wf_def truthful_def)

lemma files_wf_set_directory:
  assumes "local_files m = []"
  shows "files_wf dir (snd (fm_setSharedDirectory sha fs dir m))"
proof -
  have "files_wf dir (m\<lparr>shared_directory := slashed dir\<rparr>)"
    using assms by (simp add: files_wf_def)
  then show ?thesis
    using files_wf_scan [of dir "m\<lparr>shared_directory := slashed dir\<rparr>" sha fs]
    unfolding fm_setSharedDirectory_def Let_def slashed_def [symmetric] by (simp split: sum.split)
qed

lemma server_wf_start:
  assumes "\<not> hp_running s" and "hp_fds s = []" and "connections s = []"
  shows "server_wf (snd (hp_start v s))"
proof -
  have c: "connections (snd (hp_start v s)) = []"
    using assms(3) by (simp add: hp_start_def hp_close_def Let_def)
  obtain b s' where "hp_start v s = (b, s')"
    by (cases "hp_start v s")
  with hp_start_cases [where v = v and s = s] assms c show ?thesis
    by (cases b) (auto simp: server_wf_def hp_wf_def)
qed

lemma server_wf_stop: "server_wf s \<Longrightarrow> server_wf (hp_stop s) \<and> \<not> hp_running (hp_stop s) \<and> hp_fds (hp_stop s) = []"
  using hp_stop_wf [of "[]" s] by (cases "hp_running s") (auto simp: server_wf_def hp_stop_def)

lemma parts_wf_frame [simp]:
  "parts_wf (print t c) = parts_wf c" "parts_wf (print_err t c) = parts_wf c"
  "parts_wf (c\<lparr>cli_running := b\<rparr>) = parts_wf c" "parts_wf (c\<lparr>cli_world := w\<rparr>) = parts_wf c"
  "parts_wf (c\<lparr>cli_server := s\<rparr>) = parts_wf c"
  by (simp_all add: parts_wf_def print_def print_err_def)

lemma print_fields [simp]:
  "cli_server (print t c) = cli_server c" "cli_client (print t c) = cli_client c"
  "cli_peers (print t c) = cli_peers c" "cli_files (print t c) = cli_files c"
  "cli_running (print t c) = cli_running c" "cli_directory (print t c) = cli_directory c"
  "cli_jobs (print t c) = cli_jobs c" "cli_world (print t c) = cli_world c"
  "cli_out (print t c) = cli_out c @ t" "cli_err (print t c) = cli_err c"
  by (simp_all add: print_def)

lemma parts_wf_peers:
  "parts_wf c \<Longrightarrow> peers_wf m \<and> length (heap (cli_peers c)) \<le> length (heap m) \<Longrightarrow>
   parts_wf (c\<lparr>cli_peers := m\<rparr>)"
  by (auto simp: parts_wf_def)

lemma parts_wf_job:
  "parts_wf c \<Longrightarrow> jb_peer j < length (heap (cli_peers c)) \<Longrightarrow> parts_wf (c\<lparr>cli_jobs := cli_jobs c @ [j]\<rparr>)"
  by (auto simp: parts_wf_def)

lemma parts_wf_files:
  "parts_wf c \<Longrightarrow> parts_wf (c\<lparr>cli_world := w, cli_files := snd (refreshFileList sha fs (cli_files c))\<rparr>)"
  by (auto simp: parts_wf_def files_wf_scan)

lemma found_peer: "pm_wf m \<Longrightarrow> r \<in> set (findPeersWithFile name m) \<Longrightarrow> r < length (heap m)"
  by (auto simp: findPeersWithFile_def table_values_def pm_wf_def)

text \<open>The ways a \<open>get\<close> with enough arguments ends.\<close>

lemma get_cases [case_names nowhere nodir inactive started]:
  fixes c :: "'w CLI"
  assumes "length args \<ge> 2"
  obtains
    "findPeersWithFile (args ! 1) (cli_peers c) = []"
    "handleGetCommand E others args c =
      (Inr (), print (''File not found on any connected peers: '' @ args ! 1 @ endl) c)"
  | e w t where "handleGetCommand E others args c = (Inl e, (print t c)\<lparr>cli_world := w\<rparr>)"
  | w t where
    "handleGetCommand E others args c =
      (Inr (), print t (c\<lparr>cli_world := w, cli_peers := others (cli_peers c)\<rparr>))"
  | r w t where
    "r \<in> set (findPeersWithFile (args ! 1) (cli_peers c))" "is_active (deref (others (cli_peers c)) r)"
    "handleGetCommand E others args c =
      (Inr (), (print t (c\<lparr>cli_world := w, cli_peers := others (cli_peers c)\<rparr>))
        \<lparr>cli_jobs := cli_jobs c @
          [\<lparr>jb_filename = args ! 1, jb_peer = r,
            jb_destination = get_destination args\<rparr>]\<rparr>)"
proof -
  let ?found = "findPeersWithFile (args ! 1) (cli_peers c)"
  let ?dest = "get_destination args"
  let ?f = "find (\<lambda>r. is_active (deref (others (cli_peers c)) r)) ?found"
  obtain res w where mk: "fs_create_directories (env_fs E) (parent_path ?dest) (cli_world c) = (res, w)"
    by (cases "fs_create_directories (env_fs E) (parent_path ?dest) (cli_world c)")
  consider "?found = []" | e where "?found \<noteq> []" "res = Inl e"
    | "?found \<noteq> []" "res = Inr ()" "?f = None" | r where "?found \<noteq> []" "res = Inr ()" "?f = Some r"
    by (cases res; cases ?f) auto
  then show thesis
  proof cases
    case 1
    with assms show thesis by (intro that(1)) (simp_all add: handleGetCommand_def)
  next
    case 2
    with assms mk show thesis by (intro that(2)) (simp add: handleGetCommand_def Let_def)
  next
    case 3
    with assms mk show thesis
      by (intro that(3)) (simp add: handleGetCommand_def Let_def print_def)
  next
    case (4 r)
    then have "r \<in> set ?found" and "is_active (deref (others (cli_peers c)) r)"
      by (auto simp: find_Some_iff)
    with 4 assms mk show thesis
      by (intro that(4)) (simp_all add: handleGetCommand_def Let_def print_def)
  qed
qed

lemma parts_wf_get:
  assumes "parts_wf c" and "\<And>m. pm_thread\<^sup>*\<^sup>* m (others m)"
  shows "parts_wf (snd (handleGetCommand E others args c))"
proof (cases "length args \<ge> 2")
  case True
  let ?m = "others (cli_peers c)"
  have m: "peers_wf ?m \<and> length (heap (cli_peers c)) \<le> length (heap ?m)"
    using pm_threads_wf [OF assms(2)] assms(1) by (simp add: parts_wf_def)
  then have c2: "parts_wf (c\<lparr>cli_world := w, cli_peers := ?m\<rparr>)" for w
    using parts_wf_peers [of "c\<lparr>cli_world := w\<rparr>" ?m] assms(1) by simp
  from True show ?thesis
  proof (cases rule: get_cases [where c = c and E = E and others = others])
    case (started r w t)
    then have "r < length (heap ?m)"
      using found_peer [of "cli_peers c" r] assms(1) m by (fastforce simp: parts_wf_def peers_wf_def)
    then show ?thesis
      using parts_wf_job [of "print t (c\<lparr>cli_world := w, cli_peers := ?m\<rparr>)"] c2 started(3) by simp
  qed (use assms(1) c2 in simp_all)
qed (use assms(1) in \<open>simp add: handleGetCommand_def\<close>)

lemma parts_wf_share_failed: "parts_wf c \<Longrightarrow> parts_wf (snd (share_failed e c))"
  by (simp add: share_failed_def)

lemma parts_wf_share:
  assumes "parts_wf c"
  shows "parts_wf (snd (handleShareCommand E args c))"
proof -
  obtain w x where "fs_copy_file (env_fs E) (args ! 1) (cli_directory c @ path_filename (args ! 1))
      (cli_world c) = (x, w)"
    by (cases "fs_copy_file (env_fs E) (args ! 1) (cli_directory c @ path_filename (args ! 1))
      (cli_world c)")
  moreover obtain y fm where fm: "refreshFileList (env_sha E) (fs_view_of (env_fs E) w) (cli_files c) = (y, fm)"
    by (cases "refreshFileList (env_sha E) (fs_view_of (env_fs E) w) (cli_files c)")
  moreover have "parts_wf (c\<lparr>cli_world := w, cli_files := fm\<rparr>)"
    using parts_wf_files [OF assms, where w = w and sha = "env_sha E" and fs = "fs_view_of (env_fs E) w"]
      fm by simp
  ultimately show ?thesis
    using assms
    by (simp add: handleShareCommand_def Let_def parts_wf_share_failed split: sum.split)
qed

lemma parts_wf_dispatch:
  assumes "parts_wf c" and "cmd \<noteq> Cmd_connect" and "\<And>m. pm_thread\<^sup>*\<^sup>* m (others m)"
  shows "parts_wf (snd (dispatch E now others cmd args c))"
  using assms
  by (cases cmd)
    (simp_all add: parts_wf_get parts_wf_share handlePeersCommand_def handleFilesCommand_def
      handleStatusCommand_def handleDownloadsCommand_def handleHelpCommand_def handleExitCommand_def)

lemma parts_wf_line:
  assumes "parts_wf c" and "\<not> connects l" and "\<And>m. pm_thread\<^sup>*\<^sup>* m (others m)"
  shows "parts_wf (run_line E now others l c)"
proof (cases "l = [] \<or> parseCommand l = []")
  case False
  then obtain a as where "l \<noteq> []" and args: "parseCommand l = a # as"
    by (auto simp: neq_Nil_conv)
  with assms(2) have "command_of (map to_lower a) \<noteq> Cmd_connect"
    by (simp add: connects_def)
  then show ?thesis
    using parts_wf_dispatch [OF assms(1) _ assms(3), of "command_of (map to_lower a)" E now "a # as"]
      \<open>l \<noteq> []\<close> args
    by (auto simp: run_line_def split: prod.split sum.split)
qed (use assms(1) in \<open>auto simp: run_line_def\<close>)

lemma parts_wf_run_job:
  "parts_wf c \<Longrightarrow> parts_wf (run_job E e clk dial fd j c)"
  by (simp add: run_job_def Let_def downloadFileFromPeer_def parts_wf_def print_def
      split: prod.split bool.split)

lemma new_CLI_fields:
  assumes "new_CLI E port dir w = Inr c"
  shows "\<exists>fm. local_files fm = [] \<and> cli_server c = new_HPServer port fm \<and> cli_client c = new_Client \<and>
    cli_peers c = new_PeerManager \<and> cli_files c = fm \<and> cli_jobs c = [] \<and> cli_directory c = dir"
  using assms by (auto simp: new_CLI_def new_FileManager_def split: sum.splits)

lemma parts_wf_initialize:
  assumes "new_CLI E port dir w = Inr c"
  shows "parts_wf (snd (cli_initialize E set_dir v c))"
proof -
  obtain fm where fm: "local_files fm = []" and c: "cli_server c = new_HPServer port fm"
      "cli_client c = new_Client" "cli_peers c = new_PeerManager" "cli_files c = fm" "cli_jobs c = []"
      "cli_directory c = dir"
    using new_CLI_fields [OF assms] by auto
  let ?fs = "fs_view_of (env_fs E) (cli_world c)"
  obtain x fmi where x: "fm_setSharedDirectory (env_sha E) ?fs dir fm = (x, fmi)"
    by (cases "fm_setSharedDirectory (env_sha E) ?fs dir fm")
  then have files: "files_wf dir fmi"
    using files_wf_set_directory [OF fm, of dir "env_sha E" ?fs] by simp
  obtain y s where y: "set_dir dir (new_HPServer port fm) = (y, s)"
    by (cases "set_dir dir (new_HPServer port fm)")
  obtain ok si where si: "hp_start v s = (ok, si)"
    by (cases "hp_start v s")
  have new: "peers_wf new_PeerManager"
    by (simp add: peers_wf_def pm_wf_def new_PeerManager_def)
  then have "peers_wf (addBootstrapNode aj nj (addBootstrapNode ai ni (pm_start new_PeerManager)))"
    for ai ni aj nj
    by (simp add: peers_wf_def addBootstrapNode_def pm_start_def)
  then show ?thesis
    using c x y si files new
    by (cases x; cases y; cases ok)
      (simp_all add: cli_initialize_def Let_def parts_wf_def print_err_def)
qed

lemma parts_wf_shutdown: "parts_wf c \<Longrightarrow> parts_wf (cli_shutdown c)"
  by (simp add: parts_wf_def cli_shutdown_def peers_wf_def pm_stop_def)

lemma parts_wf_thread:
  assumes "node_thread E h c c'" and "parts_wf c"
  shows "parts_wf c'"
  using assms
proof (induction rule: node_thread.induct)
  case (peers c m)
  then have "peers_wf m \<and> length (heap (cli_peers c)) \<le> length (heap m)"
    using pm_thread_wf by (auto simp: parts_wf_def)
  with peers.prems show ?case
    by (rule parts_wf_peers)
next
  case (download c jsa j jsb e clk dial fd)
  then have "parts_wf (c\<lparr>cli_jobs := jsa @ jsb\<rparr>)"
    by (auto simp: parts_wf_def)
  then show ?case
    by (rule parts_wf_run_job)
qed simp_all

text \<open>The peers, the files, the client and the downloads, whatever the server does and whatever
  \<open>set_dir\<close> is.\<close>

lemma cli_reach_parts: "cli_reach E set_dir h c \<Longrightarrow> parts_wf c"
  by (induction rule: cli_reach.induct)
    (auto intro: parts_wf_initialize parts_wf_line parts_wf_thread parts_wf_shutdown)

section \<open>The server's descriptors\<close>

lemma server_wf_run: "server_wf s \<Longrightarrow> hp_running s \<Longrightarrow> hp_run h s s' \<Longrightarrow> server_wf s'"
  using hp_wf_run [of h s s' "[]"] by (auto simp: server_wf_def hp_wf_def)

lemma server_wf_peers [simp]: "server_wf (s\<lparr>hp_peers := m\<rparr>) = server_wf s"
  by (simp add: server_wf_def hp_wf_def)

lemma server_run_job [simp]: "cli_server (run_job E e clk dial fd j c) = cli_server c"
  by (simp add: run_job_def Let_def print_def split: prod.split bool.split)

lemma server_thread: "node_thread E h c c' \<Longrightarrow> server_wf (cli_server c) \<Longrightarrow> server_wf (cli_server c')"
  by (induction rule: node_thread.induct) (auto dest: server_wf_run)

lemma server_share_failed [simp]: "cli_server (snd (share_failed e c)) = cli_server c"
  by (simp add: share_failed_def)

lemma server_dispatch:
  "cmd \<noteq> Cmd_connect \<Longrightarrow> cli_server (snd (dispatch E now others cmd args c)) = cli_server c"
  by (cases cmd)
    (simp_all add: handleGetCommand_def handleShareCommand_def handlePeersCommand_def
      handleFilesCommand_def handleStatusCommand_def handleDownloadsCommand_def handleHelpCommand_def
      handleExitCommand_def Let_def split: prod.split sum.split option.split)

lemma server_line:
  assumes "\<not> connects l"
  shows "cli_server (run_line E now others l c) = cli_server c"
proof (cases "l = [] \<or> parseCommand l = []")
  case False
  then obtain a as where "l \<noteq> []" and args: "parseCommand l = a # as"
    by (auto simp: neq_Nil_conv)
  with assms have "command_of (map to_lower a) \<noteq> Cmd_connect"
    by (simp add: connects_def)
  then show ?thesis
    using server_dispatch [of "command_of (map to_lower a)" E now others "a # as" c] \<open>l \<noteq> []\<close> args
    by (auto simp: run_line_def print_err_def split: prod.split sum.split)
qed (auto simp: run_line_def)

lemma server_initialize:
  assumes "new_CLI E port dir w = Inr c" and "sets_files_only set_dir"
  shows "server_wf (cli_server (snd (cli_initialize E set_dir v c)))"
proof -
  obtain fm where c: "cli_server c = new_HPServer port fm" "cli_directory c = dir"
    using new_CLI_fields [OF assms(1)] by auto
  obtain y s where y: "set_dir dir (new_HPServer port fm) = (y, s)"
    by (cases "set_dir dir (new_HPServer port fm)")
  obtain fmi where "snd (set_dir dir (new_HPServer port fm)) = (new_HPServer port fm)\<lparr>hp_files := fmi\<rparr>"
    using assms(2) unfolding sets_files_only_def by blast
  with y have s: "\<not> hp_running s" "hp_fds s = []" "connections s = []"
    by (simp_all add: new_HPServer_def)
  then have "server_wf s" "server_wf (snd (hp_start v s))"
    using server_wf_start [of s v] by (simp_all add: server_wf_def)
  moreover have "server_wf (new_HPServer port fm)"
    by (simp add: server_wf_def new_HPServer_def)
  ultimately show ?thesis
    using c y by (auto simp: cli_initialize_def Let_def print_err_def split: prod.split sum.split bool.split)
qed

lemma cli_reach_server:
  assumes "cli_reach E set_dir h c" and "sets_files_only set_dir"
  shows "server_wf (cli_server c)"
  using assms(1)
proof (induction rule: cli_reach.induct)
  case (created port dir w c v)
  then show ?case
    using assms(2) by (rule server_initialize)
next
  case (thread c c')
  then show ?case
    using server_thread by blast
qed (simp_all add: server_line server_wf_stop cli_shutdown_def)

section \<open>The files of the peers\<close>

definition sources_in :: "string list table \<Rightarrow> string \<Rightarrow> string list" where
  "sources_in t name = (case table_find name t of None \<Rightarrow> [] | Some is \<Rightarrow> is)"

lemma find_add_source:
  "table_find name (add_source i t f) =
   (if name = filename f then Some (sources_in t name @ [i]) else table_find name t)"
  by (simp add: add_source_def sources_in_def tbl.find_put)

lemma find_add_sources:
  "distinct (map filename fs) \<Longrightarrow>
   table_find name (foldl (add_source i) t fs) =
   (if name \<in> filename ` set fs then Some (sources_in t name @ [i]) else table_find name t)"
proof (induction fs arbitrary: t)
  case (Cons f fs)
  have "filename f \<notin> filename ` set fs"
    using Cons.prems by simp
  then have ne: "name \<noteq> filename f" if "name \<in> filename ` set fs"
    using that by blast
  then have "sources_in (add_source i t f) name = sources_in t name" if "name \<in> filename ` set fs"
    using that by (simp add: sources_in_def find_add_source)
  with ne Cons.IH [of "add_source i t f"] Cons.prems show ?case
    by (simp add: find_add_source)
qed simp

lemma find_file_sources:
  assumes "\<forall>r \<in> set rs. distinct (map filename (getFiles (deref m r)))"
  shows "table_find name
      (foldl (\<lambda>t r. foldl (add_source (peer_id (deref m r))) t (getFiles (deref m r))) t rs) =
    (if filter (\<lambda>r. hasFile (deref m r) name) rs = [] then table_find name t
     else Some (sources_in t name @
       map (\<lambda>r. peer_id (deref m r)) (filter (\<lambda>r. hasFile (deref m r) name) rs)))"
  using assms
proof (induction rs arbitrary: t)
  case (Cons r rs)
  let ?t = "foldl (add_source (peer_id (deref m r))) t (getFiles (deref m r))"
  have t: "table_find name ?t =
      (if hasFile (deref m r) name then Some (sources_in t name @ [peer_id (deref m r)])
       else table_find name t)"
    using Cons.prems find_add_sources [of "getFiles (deref m r)" name]
    by (auto simp: peer_files.has_iff getFiles_def)
  then have "sources_in ?t name =
      (if hasFile (deref m r) name then sources_in t name @ [peer_id (deref m r)] else sources_in t name)"
    by (simp add: sources_in_def)
  with t Cons show ?case
    by simp
qed simp

section \<open>Sharing a file\<close>

lemma isValidFile_same_name: "path_filename p = path_filename q \<Longrightarrow> isValidFile p = isValidFile q"
  by (simp add: isValidFile_def path_extension_def)

lemma no_slash_in_name: "CHR ''/'' \<notin> set (path_filename p)"
  by (auto simp: path_filename_def dest: set_takeWhileD)

lemma path_filename_below: "last dir = CHR ''/'' \<Longrightarrow> dir \<noteq> [] \<Longrightarrow> CHR ''/'' \<notin> set name \<Longrightarrow>
    path_filename (dir @ name) = name"
proof (cases dir rule: rev_cases)
  case (snoc ys y)
  assume "last dir = CHR ''/''" and "CHR ''/'' \<notin> set name"
  then have "y = CHR ''/''" and "\<forall>c \<in> set (rev name). c \<noteq> CHR ''/''"
    using snoc by auto
  then show ?thesis
    using takeWhile_append2 [of "rev name" "\<lambda>c. c \<noteq> CHR ''/''" "CHR ''/'' # rev ys"] snoc
    by (simp add: path_filename_def)
qed simp

lemma not_below_without_slash:
  assumes "CHR ''/'' \<notin> set name"
  shows "\<not> prefix (dir @ ''/'') (dir @ name)"
  using assms by (cases name) auto

lemma hash_of_contents:
  "contents fs p = Some bytes \<Longrightarrow> contents fs' q = Some bytes \<Longrightarrow>
   calculateFileHash sha fs p = calculateFileHash sha fs' q"
  by (simp add: calculateFileHash_def)

text \<open>A \<open>share\<close> whose copy succeeds and whose rescan reads everything.\<close>

lemma share_succeeds:
  assumes "length args \<ge> 2" and "file = args ! 1" and "dest = cli_directory c @ path_filename file"
    and "fs_exists (env_fs E) file (cli_world c) = Inr True"
    and "fs_is_regular_file (env_fs E) file (cli_world c) = Inr True"
    and "fs_copy_file (env_fs E) file dest (cli_world c) = (Inr (), w)"
    and "listing (fs_view_of (env_fs E) w) (shared_directory (cli_files c)) = (entries, None)"
    and "\<forall>en \<in> set entries. readable (fs_view_of (env_fs E) w) en"
  shows "\<exists>fm. handleShareCommand E args c =
      (Inr (), print (''File shared successfully: '' @ path_filename file @ endl @ ''Location: '' @ dest @ endl)
        (c\<lparr>cli_world := w, cli_files := fm\<rparr>)) \<and>
    fm = snd (refreshFileList (env_sha E) (fs_view_of (env_fs E) w) (cli_files c)) \<and>
    map filepath (getFileList fm) = map path (filter shared_entry entries)"
proof -
  let ?v = "fs_view_of (env_fs E) w"
  obtain found where loop: "scan_loop (env_sha E) ?v entries None [] = (None, found)"
      and found: "map filepath found = map path (filter shared_entry entries)"
    using scan_loop_readable [OF assms(8), of "env_sha E" "[]" None "[]"] by auto
  then have "refreshFileList (env_sha E) ?v (cli_files c) =
      (Inr (), (cli_files c)\<lparr>local_files := found\<rparr>)"
    using assms(7) by (simp add: refreshFileList_def scanDirectory_def)
  then show ?thesis
    using assms(1-6) found by (auto simp: handleShareCommand_def Let_def getFileList_def)
qed

end
