(* ===== verification/Node_Theorems.thy ===== *)
theory Node_Theorems
  imports Node
begin

text \<open>
  What the node guarantees in every state it can reach, and what its commands do: the types of
  its parts, the end of the program, the listing of the peers' files against the search that
  \<open>get\<close> makes, a \<open>get\<close> followed by its download, and \<open>share\<close>.
\<close>

section \<open>A small world for the examples\<close>

text \<open>A flat file system: the names that a listing can show, and the contents.\<close>

definition flat_fs :: "(string list \<times> disk) filesystem" where
  "flat_fs =
     \<lparr>fs_exists = (\<lambda>p w. Inr (snd w p \<noteq> None)),
      fs_is_regular_file = (\<lambda>p w. Inr (snd w p \<noteq> None)),
      fs_create_directories = (\<lambda>p w.
        (if p = [] then Inl (Filesystem_error ''cannot create directories'') else Inr (), w)),
      fs_copy_file = (\<lambda>p q w.
        (case snd w p of
           None \<Rightarrow> (Inl (Filesystem_error ''cannot copy file''), w)
         | Some b \<Rightarrow> (Inr (), (q # removeAll q (fst w), (snd w)(q \<mapsto> b))))),
      fs_open_output = (\<lambda>w p. Unbounded), fs_get_disk = snd, fs_put_disk = (\<lambda>d w. (fst w, d)),
      fs_view_of = (\<lambda>w.
        \<lparr>listing = (\<lambda>dir.
           (map (\<lambda>p. \<lparr>path = p, is_regular = Inr True, mtime = Inr 7\<rparr>) (filter (prefix dir) (fst w)), None)),
         contents = snd w,
         size_of = (\<lambda>p.
           (case snd w p of
              None \<Rightarrow> Inl (Filesystem_error ''cannot get file size'')
            | Some b \<Rightarrow> Inr (vsize b))),
         create_directories = (\<lambda>_. Inr ())\<rparr>)\<rparr>"

definition flat_env :: "(string list \<times> disk, byte list) cli_env" where
  "flat_env =
     \<lparr>env_fs = flat_fs, env_sha = toy_sha, env_ctime = (\<lambda>_. ''Thu Jan  1 00:00:07 1970'' @ endl),
      handleConnectCommand = (\<lambda>args c. (Inr (), c))\<rparr>"

definition keep_dir :: "string \<Rightarrow> HPServer \<Rightarrow> (exn + unit) \<times> HPServer" where
  "keep_dir dir s = (Inr (), s)"

definition good_start :: start_env where
  "good_start =
     \<lparr>r_socket = 3, r_setsockopt = 0, r_bind = 0, r_listen = 0, r_epoll = 4, r_ctl = 0\<rparr>"

lemma keep_dir_files_only [simp]: "sets_files_only keep_dir"
proof -
  have "s = s\<lparr>hp_files := hp_files s\<rparr>" for s :: HPServer
    by simp
  then show ?thesis
    unfolding sets_files_only_def keep_dir_def by (metis snd_conv)
qed

text \<open>A node started on the default port that has learnt of one peer and its two files.\<close>

definition fresh_node :: "(string list \<times> disk) CLI" where
  "fresh_node =
     \<lparr>cli_server = new_HPServer 8888 \<lparr>shared_directory = ''./shared/'', local_files = []\<rparr>,
      cli_client = new_Client, cli_peers = new_PeerManager,
      cli_files = \<lparr>shared_directory = ''./shared/'', local_files = []\<rparr>, cli_running = False,
      local_port = 8888, cli_directory = ''./shared/'', cli_jobs = [], cli_out = [], cli_err = [],
      cli_world = ([], [''/h/c.txt'' \<mapsto> [1, 2]])\<rparr>"

definition example_server :: HPServer where
  "example_server =
     snd (hp_start good_start (new_HPServer 8888 \<lparr>shared_directory = ''./shared/'', local_files = []\<rparr>))"

lemma example_server_starts:
  "hp_start good_start (new_HPServer 8888 \<lparr>shared_directory = ''./shared/'', local_files = []\<rparr>) =
    (True, example_server)"
  by (simp add: example_server_def hp_start_def good_start_def Let_def)

lemma example_server_fields [simp]:
  "hp_socket example_server = 3" "hp_epoll example_server = 4" "hp_fds example_server = [4, 3]"
  "hp_running example_server" "connections example_server = []"
  by (simp_all add: example_server_def hp_start_def good_start_def new_HPServer_def Let_def)

definition started_node :: "(string list \<times> disk) CLI" where
  "started_node = snd (cli_initialize flat_env keep_dir good_start fresh_node)"

definition example_node :: "(string list \<times> disk) CLI" where
  "example_node =
     started_node\<lparr>cli_peers := bootstrap_line 7 8 (cli_peers started_node) (serialize example_peer)\<rparr>"

lemma example_node_created:
  "new_CLI flat_env 8888 ''./shared/'' ([], [''/h/c.txt'' \<mapsto> [1, 2]]) = Inr fresh_node"
  by (simp add: new_CLI_def flat_env_def flat_fs_def new_FileManager_def fresh_node_def)

lemma started_node_initialized:
  "cli_initialize flat_env keep_dir good_start fresh_node =
    (Inr True, fresh_node
      \<lparr>cli_server := example_server,
       cli_peers := new_PeerManager
        \<lparr>bootstrap_nodes := [(''127.0.0.1'', 8889), (''127.0.0.1'', 8890)], pm_running := True\<rparr>,
       cli_running := True\<rparr>)"
  by (simp add: cli_initialize_def fresh_node_def flat_env_def flat_fs_def
      fm_setSharedDirectory_def refreshFileList_def scanDirectory_def keep_dir_def
      example_server_starts addBootstrapNode_def pm_start_def new_PeerManager_def Let_def)

lemma started_node_running: "cli_running started_node"
  by (simp add: started_node_def started_node_initialized)

lemma example_node_reach: "cli_reach flat_env keep_dir example_handlers example_node"
proof -
  have "cli_reach flat_env keep_dir example_handlers started_node"
    unfolding started_node_def using example_node_created by (rule cli_reach.created)
  then show ?thesis
    unfolding example_node_def by (rule cli_reach.thread) (rule node_thread.peers, rule pm_thread.bootstrap)
qed

lemma example_node_fields:
  "cli_peers example_node =
    \<lparr>peers = [(peer_id example_peer, 0)],
     heap = [received_peer 7 8 example_peer (shared_files example_peer)],
     bootstrap_nodes = [(''127.0.0.1'', 8889), (''127.0.0.1'', 8890)], pm_running = True, probing = []\<rparr>"
  "cli_server example_node = example_server"
  "cli_files example_node = \<lparr>shared_directory = ''./shared/'', local_files = []\<rparr>"
  "cli_directory example_node = ''./shared/''" "cli_running example_node = True"
  "cli_jobs example_node = []" "cli_world example_node = ([], [''/h/c.txt'' \<mapsto> [1, 2]])"
  "cli_out example_node = []"
proof -
  have d: "deserialize 7 8 (serialize example_peer) =
      Inr (received_peer 7 8 example_peer (shared_files example_peer))"
    by (rule deserialize_serialize)
      (simp_all add: example_peer_def peer_wf_def peer_printable_def no_bar_def)
  have s: "started_node = fresh_node
      \<lparr>cli_server := example_server,
       cli_peers := new_PeerManager
        \<lparr>bootstrap_nodes := [(''127.0.0.1'', 8889), (''127.0.0.1'', 8890)], pm_running := True\<rparr>,
       cli_running := True\<rparr>"
    by (simp add: started_node_def started_node_initialized)
  show "cli_server example_node = example_server"
  "cli_files example_node = \<lparr>shared_directory = ''./shared/'', local_files = []\<rparr>"
  "cli_directory example_node = ''./shared/''" "cli_running example_node = True"
  "cli_jobs example_node = []" "cli_world example_node = ([], [''/h/c.txt'' \<mapsto> [1, 2]])"
  "cli_out example_node = []"
    unfolding example_node_def s by (simp_all add: fresh_node_def)
  show "cli_peers example_node =
    \<lparr>peers = [(peer_id example_peer, 0)],
     heap = [received_peer 7 8 example_peer (shared_files example_peer)],
     bootstrap_nodes = [(''127.0.0.1'', 8889), (''127.0.0.1'', 8890)], pm_running = True, probing = []\<rparr>"
    unfolding example_node_def s
    by (simp add: bootstrap_line_def d make_shared_def addPeer_def deref_def new_PeerManager_def
        received_peer_def table_put_def fresh_node_def)
qed

section \<open>Properties\<close>

text \<open>
  C21. Every state that the node can reach, by any sequence of input lines other than \<open>connect\<close>,
  steps of the peer managers' threads, server events with a definition and ends of downloads, is
  well typed: each identifier names one existing peer whose file names are distinct and whose
  port is an \<open>int\<close>; every detached download refers to an existing peer; and the file list is that
  of the shared directory and holds records of shareable files under their own names. If setting
  the server's directory changes its list of files only, the server moreover owns its two sockets
  and one descriptor per connection, or nothing when it is not running.
\<close>

theorem cli_state_typed:
  assumes "cli_reach E set_dir h c"
  shows "distinct (getAllPeers (cli_peers c)) \<and>
    (\<forall>i r. getPeer i (cli_peers c) = Some r \<longrightarrow>
       r < length (heap (cli_peers c)) \<and> peer_id (deref (cli_peers c) r) = i \<and>
       peer_wf (deref (cli_peers c) r)) \<and>
    (\<forall>j \<in> set (cli_jobs c). jb_peer j < length (heap (cli_peers c))) \<and>
    shared_directory (cli_files c) = slashed (cli_directory c) \<and>
    (\<forall>f \<in> set (getFileList (cli_files c)).
       isValidFile (filepath f) \<and> filename f = path_filename (filepath f)) \<and>
    (sets_files_only set_dir \<longrightarrow>
     mset (hp_fds (cli_server c)) =
      (if hp_running (cli_server c)
       then {#hp_socket (cli_server c), hp_epoll (cli_server c)#} +
         mset (map fst (connections (cli_server c)))
       else {#}))"
proof -
  have wf: "parts_wf c"
    using assms by (rule cli_reach_parts)
  then have pm: "pm_wf (cli_peers c)" and heap: "\<forall>p \<in> set (heap (cli_peers c)). peer_wf p"
    by (simp_all add: parts_wf_def peers_wf_def)
  have "r < length (heap (cli_peers c)) \<and> peer_id (deref (cli_peers c) r) = i \<and>
      peer_wf (deref (cli_peers c) r)" if "getPeer i (cli_peers c) = Some r" for i r
    using pm_wf_find [OF pm, of i r] heap that by (auto simp: getPeer_def deref_def)
  then show ?thesis
    using wf distinct_values [OF pm] cli_reach_server [OF assms]
    by (auto simp: parts_wf_def files_wf_def getFileList_def server_wf_def hp_wf_def simp del: mset_map)
qed

theorem cli_state_typed_witness:
  "getPeer ''p1'' (cli_peers example_node) = Some 0 \<and> peer_wf (deref (cli_peers example_node) 0) \<and>
   mset (hp_fds (cli_server example_node)) = {#3, 4#}"
proof -
  have "getPeer ''p1'' (cli_peers example_node) = Some 0"
    by (simp add: example_node_fields getPeer_def table_find_def example_peer_def)
  then show ?thesis
    using cli_state_typed [OF example_node_reach]
    by (simp add: example_node_fields new_HPServer_def)
qed

text \<open>
  C23. \<open>shutdown\<close> leaves nothing behind, from whatever state the node can reach without \<open>connect\<close>: a
  start that failed half way, a running node with open connections and pending downloads, or one
  that the signal handler has already shut down. If setting the server's directory changes its
  list of files only, no descriptor of the server stays open and no connection is counted; in any
  case both loops are told to end, and a second \<open>shutdown\<close> changes nothing.
\<close>

theorem shutdown_releases:
  assumes "cli_reach E set_dir h c" and "c' = cli_shutdown c"
  shows "(sets_files_only set_dir \<longrightarrow>
      hp_fds (cli_server c') = [] \<and> getActiveConnectionCount (cli_server c') = 0) \<and>
    \<not> hp_running (cli_server c') \<and> \<not> pm_running (cli_peers c') \<and> \<not> cli_running c' \<and>
    cli_shutdown c' = c'"
proof -
  have "hp_fds (hp_stop (cli_server c)) = [] \<and> connections (hp_stop (cli_server c)) = []"
    if "sets_files_only set_dir"
    using server_wf_stop [OF cli_reach_server [OF assms(1) that]] by (simp add: server_wf_def)
  moreover have "\<not> hp_running (hp_stop (cli_server c))"
    by (rule hp_service.stop_stops)
  ultimately show ?thesis
    by (simp add: assms(2) cli_shutdown_def getActiveConnectionCount_def
        hp_service.stop_stop pm_service.stop_stop pm_service.stop_stops)
qed

theorem shutdown_releases_witness:
  "hp_fds (cli_server example_node) = [4, 3] \<and> hp_fds (cli_server (cli_shutdown example_node)) = []"
  using shutdown_releases [OF example_node_reach refl]
  by (simp add: example_node_fields)



text \<open>
  C27. Downloads are invisible to the user who started them. Every download of the command line
  runs on a client of its own, so in every state that commands other than \<open>connect\<close> and the node's
  threads can lead to, however many downloads are running or have ended, \<open>downloads\<close> prints "No
  downloads." and \<open>status\<close> counts none.
\<close>

theorem downloads_never_listed:
  assumes "cli_reach E set_dir h c"
  shows "handleDownloadsCommand args c = (Inr (), print (''No downloads.'' @ endl) c) \<and>
    filter active_download (getAllDownloads (cli_client c)) = []"
  using cli_reach_parts [OF assms]
  by (simp add: parts_wf_def handleDownloadsCommand_def downloads_text_def getAllDownloads_def
      new_Client_def table_values_def Let_def)

lemma get_line: "parseCommand ''get a.txt'' = [''get'', ''a.txt'']"
  by (simp add: parseCommand.simps extract_quoted_def is_space_def DQUOTE_def)

lemma exit_line: "parseCommand ''exit'' = [''exit'']"
  by (simp add: parseCommand.simps extract_quoted_def is_space_def DQUOTE_def)

definition getting_node :: "(string list \<times> disk) CLI" where
  "getting_node = run_line flat_env (\<lambda>_. 0) (\<lambda>m. m) ''get a.txt'' example_node"

lemma getting_node_job:
  "cli_jobs getting_node =
    [\<lparr>jb_filename = ''a.txt'', jb_peer = 0, jb_destination = ''./downloads/a.txt''\<rparr>]"
  by (simp add: getting_node_def run_line_def get_line to_lower_def command_of_def
      handleGetCommand_def findPeersWithFile_def table_values_def deref_def received_peer_def
      example_peer_def peer_files.has_iff example_node_fields get_destination_def flat_env_def
      flat_fs_def parent_path_def Let_def)

lemma getting_node_peers: "cli_peers getting_node = cli_peers example_node"
  by (simp add: getting_node_def run_line_def get_line to_lower_def command_of_def
      handleGetCommand_def findPeersWithFile_def table_values_def deref_def received_peer_def
      example_peer_def peer_files.has_iff example_node_fields get_destination_def flat_env_def
      flat_fs_def parent_path_def Let_def)

lemma getting_node_reach: "cli_reach flat_env keep_dir example_handlers getting_node"
  unfolding getting_node_def
  by (rule cli_reach.command [OF example_node_reach])
    (simp_all add: example_node_fields connects_def get_line to_lower_def command_of_def)

theorem downloads_never_listed_witness:
  "length (cli_jobs getting_node) = 1 \<and>
   handleDownloadsCommand [''downloads''] getting_node =
     (Inr (), print (''No downloads.'' @ endl) getting_node)"
  using downloads_never_listed [OF getting_node_reach]
    getting_node_job
  by simp

text \<open>
  C22. A \<open>get\<close> fetches the file. If some peer found to have the name is still active when the
  directory of the destination has been created, the command starts one download from the first
  such peer, to the given path or below \<open>./downloads/\<close>. Whatever state the node is in when that
  thread runs: if the peer's address can be dialled, the request is sent, the destination file
  can be created and the peer answers with framed messages, the download leaves the bytes of its
  chunks at that path, as far as the path has room, says so on the console, and changes nothing
  else of the node.
\<close>

theorem get_delivers_the_file:
  assumes "length args \<ge> 2" and "dest = get_destination args"
    and "find (\<lambda>r. is_active (deref (others (cli_peers c)) r))
        (findPeersWithFile (args ! 1) (cli_peers c)) = Some r"
    and "fs_create_directories (env_fs E) (parent_path dest) (cli_world c) = (Inr (), w)"
    and "p = deref (cli_peers c2) r"
    and "client_connect dial fd (ip_address p) (peer_port p) new_Client = (True, k)"
    and "fst (client_sendMessage e FILE_REQUEST (to_bytes (args ! 1)) k) = Inr ()"
    and "fs_open_output (env_fs E) (cli_world c2) dest = room" and "room \<noteq> Cannot_create"
    and "pending (rx (sock k)) = frames ms @ frame FILE_COMPLETE [] @ rest" and "in_flight ms"
  shows "\<exists>t. handleGetCommand E others args c =
      (Inr (), print t (c\<lparr>cli_world := w, cli_peers := others (cli_peers c),
        cli_jobs := cli_jobs c @
          [\<lparr>jb_filename = args ! 1, jb_peer = r, jb_destination = dest\<rparr>]\<rparr>)) \<and>
    run_job E e clk dial fd \<lparr>jb_filename = args ! 1, jb_peer = r, jb_destination = dest\<rparr> c2 =
      print (endl @ [CHR 0xE2, CHR 0x9C, CHR 0x93] @ '' Download completed: '' @ args ! 1 @ endl @
          ''p2p> '')
        (c2\<lparr>cli_world := fs_put_disk (env_fs E)
            ((fs_get_disk (env_fs E) (cli_world c2))(dest \<mapsto> stored room (chunk_data ms)))
            (cli_world c2)\<rparr>)"
proof -
  let ?d = "fs_get_disk (env_fs E) (cli_world c2)"
  have "findPeersWithFile (args ! 1) (cli_peers c) \<noteq> []"
    using assms(3) by auto
  then have get: "\<exists>t. handleGetCommand E others args c =
      (Inr (), print t (c\<lparr>cli_world := w, cli_peers := others (cli_peers c),
        cli_jobs := cli_jobs c @ [\<lparr>jb_filename = args ! 1, jb_peer = r, jb_destination = dest\<rparr>]\<rparr>))"
    using assms(1-4)
    by (intro exI [of _ "''Found '' @ show_nat (length (findPeersWithFile (args ! 1) (cli_peers c))) @
        '' peer(s) with file: '' @ args ! 1 @ endl @
        ''Downloading from peer: '' @ peer_id (deref (others (cli_peers c)) r) @ '' ('' @
        getAddress (deref (others (cli_peers c)) r) @ '')'' @ endl"])
      (simp add: handleGetCommand_def Let_def print_def)
  have "connected k"
    using assms(6) by (rule connect_connected)
  then obtain k2 where "downloadFile e clk (fs_open_output (env_fs E) (cli_world c2)) (args ! 1) dest k ?d =
      (True, k2, ?d(dest \<mapsto> stored room (chunk_data ms)))"
    using download_in_full [of k "fs_open_output (env_fs E) (cli_world c2)" dest ms e "args ! 1" rest clk ?d]
      assms(7-11) by auto
  with get assms(5,6) show ?thesis
    by (simp add: run_job_def downloadFileFromPeer_def Let_def)
qed

theorem get_delivers_the_file_witness:
  "\<exists>c1 t. handleGetCommand flat_env (\<lambda>m. m) [''get'', ''a.txt''] example_node = (Inr (), c1) \<and>
    length (cli_jobs c1) = 1 \<and>
    cli_out (run_job flat_env LittleEndian (\<lambda>_. 0) (\<lambda>_ _. Some (calm [Data (frame FILE_CHUNK [1, 2]),
        Data (frame FILE_COMPLETE [])])) 5 (hd (cli_jobs c1)) getting_node) =
      t @ '' Download completed: a.txt'' @ endl @ ''p2p> ''"
proof -
  let ?es = "[Data (frame FILE_CHUNK [1, 2]), Data (frame FILE_COMPLETE [])]"
  let ?k = "(client_on ?es)\<lparr>remote_address := ''10.0.0.1''\<rparr>"
  have "find (\<lambda>r. is_active (deref (cli_peers example_node) r))
      (findPeersWithFile ''a.txt'' (cli_peers example_node)) = Some 0"
    by (simp add: example_node_fields findPeersWithFile_def table_values_def deref_def
        received_peer_def example_peer_def peer_files.has_iff)
  moreover have "fs_create_directories flat_fs (parent_path ''./downloads/a.txt'') (cli_world example_node) =
      (Inr (), cli_world example_node)"
    by (simp add: flat_fs_def parent_path_def Let_def)
  moreover have "ip_address (deref (cli_peers getting_node) 0) = ''10.0.0.1''"
      "peer_port (deref (cli_peers getting_node) 0) = 8888"
    by (simp_all add: getting_node_peers example_node_fields deref_def received_peer_def example_peer_def)
  moreover have "client_connect (\<lambda>_ _. Some (calm ?es)) 5 ''10.0.0.1'' 8888 new_Client = (True, ?k)"
    by (simp add: client_connect_def createSocket_def new_Client_def client_on_def inet_pton_def
        c_str_def octet_def number_def is_digit_def digit_value_def)
  moreover have "fst (client_sendMessage LittleEndian FILE_REQUEST (to_bytes ''a.txt'') ?k) = Inr ()"
    by (rule client_send_ok [where m = 100000]) (simp_all add: client_on_def calm_def willing_def)
  moreover have "in_flight [(FILE_CHUNK, [1, 2])]"
    by (simp add: in_flight_def)
  ultimately obtain t where get: "handleGetCommand flat_env (\<lambda>m. m) [''get'', ''a.txt''] example_node =
      (Inr (), print t (example_node\<lparr>cli_world := cli_world example_node,
        cli_peers := cli_peers example_node, cli_jobs := cli_jobs example_node @
          [\<lparr>jb_filename = ''a.txt'', jb_peer = 0, jb_destination = ''./downloads/a.txt''\<rparr>]\<rparr>))"
    and job: "run_job flat_env LittleEndian (\<lambda>_. 0) (\<lambda>_ _. Some (calm ?es)) 5
        \<lparr>jb_filename = ''a.txt'', jb_peer = 0, jb_destination = ''./downloads/a.txt''\<rparr> getting_node =
      print (endl @ [CHR 0xE2, CHR 0x9C, CHR 0x93] @ '' Download completed: '' @ ''a.txt'' @ endl @ ''p2p> '')
        (getting_node\<lparr>cli_world := fs_put_disk flat_fs
            ((fs_get_disk flat_fs (cli_world getting_node))
              (''./downloads/a.txt'' \<mapsto> chunk_data [(FILE_CHUNK, [1, 2])])) (cli_world getting_node)\<rparr>)"
    using get_delivers_the_file [of "[''get'', ''a.txt'']" "''./downloads/a.txt''" "\<lambda>m. m" example_node 0
        flat_env "cli_world example_node" _ getting_node "\<lambda>_ _. Some (calm ?es)" 5 ?k LittleEndian
        Unbounded "[(FILE_CHUNK, [1, 2])]" "[]" "\<lambda>_. 0", OF _ _ _ _ refl]
    by (auto simp: get_destination_def flat_env_def flat_fs_def)
  show ?thesis
    by (intro exI [of _ "snd (handleGetCommand flat_env (\<lambda>m. m) [''get'', ''a.txt''] example_node)"]
        exI [of _ "cli_out getting_node @ endl @ [CHR 0xE2, CHR 0x9C, CHR 0x93]"])
      (simp add: get example_node_fields job del: append_Cons)
qed

text \<open>
  C25. What \<open>share\<close> shares when the directory is written with its slash: after a copy that arrived
  and a rescan that met the new file and could read everything, the command reports success. If
  the name is neither hidden nor of an excluded extension, the node's list then has a record of
  that name whose hash is that of the file given to the command; otherwise it has no record of
  that name, although the report is the same. The list is the one that \<open>files local\<close> shows; the
  server's own list is not refreshed.
\<close>

theorem share_lists_the_file:
  assumes "length args \<ge> 2" and "file = args ! 1" and "dest = cli_directory c @ path_filename file"
    and "last (cli_directory c) = CHR ''/''" and "cli_directory c \<noteq> []"
    and "fs_exists (env_fs E) file (cli_world c) = Inr True"
    and "fs_is_regular_file (env_fs E) file (cli_world c) = Inr True"
    and "fs_copy_file (env_fs E) file dest (cli_world c) = (Inr (), w)"
    and "contents (fs_view_of (env_fs E) (cli_world c)) file = Some bytes"
    and "contents (fs_view_of (env_fs E) w) dest = Some bytes"
    and "listing (fs_view_of (env_fs E) w) (shared_directory (cli_files c)) = (entries, None)"
    and "\<forall>en \<in> set entries. readable (fs_view_of (env_fs E) w) en"
    and "en \<in> set entries" and "path en = dest" and "is_regular en = Inr True"
  shows "\<exists>c'. handleShareCommand E args c = (Inr (), c') \<and>
    cli_out c' = cli_out c @ ''File shared successfully: '' @ path_filename file @ endl @
      ''Location: '' @ dest @ endl \<and>
    (if isValidFile file
     then \<exists>f \<in> set (getFileList (cli_files c')). filename f = path_filename file \<and>
       calculateFileHash (env_sha E) (fs_view_of (env_fs E) (cli_world c)) file = Inr (file_hash f)
     else path_filename file \<notin> filename ` set (getFileList (cli_files c'))) \<and>
    cli_server c' = cli_server c"
proof -
  let ?v = "fs_view_of (env_fs E) w"
  obtain fm where run: "handleShareCommand E args c =
      (Inr (), print (''File shared successfully: '' @ path_filename file @ endl @ ''Location: '' @ dest @ endl)
        (c\<lparr>cli_world := w, cli_files := fm\<rparr>))"
    and fm: "fm = snd (refreshFileList (env_sha E) ?v (cli_files c))"
    and paths: "map filepath (getFileList fm) = map path (filter shared_entry entries)"
    using share_succeeds [OF assms(1-3,6-8,11,12)] by blast
  have name: "path_filename dest = path_filename file"
    unfolding assms(3) using assms(4,5) no_slash_in_name by (rule path_filename_below)
  have truth: "truthful (env_sha E) ?v f" if "f \<in> set (getFileList fm)" for f
    using that scan_loop_truthful [of "[]" "env_sha E" ?v entries None] assms(11)
    by (simp add: fm refresh_files getFileList_def)
  have "\<exists>f \<in> set (getFileList fm). filename f = path_filename file \<and>
      calculateFileHash (env_sha E) (fs_view_of (env_fs E) (cli_world c)) file = Inr (file_hash f)"
    if "isValidFile file"
  proof -
    have "dest \<in> filepath ` set (getFileList fm)"
      unfolding set_map [symmetric] paths
      using that assms(13-15) isValidFile_same_name [OF name] by (auto simp: shared_entry_def)
    then obtain f where f: "f \<in> set (getFileList fm)" "filepath f = dest"
      by auto
    then have "filename f = path_filename file" and "calculateFileHash (env_sha E) ?v dest = Inr (file_hash f)"
      using truth [OF f(1)] name by (simp_all add: truthful_def)
    then show ?thesis
      using f(1) hash_of_contents [OF assms(9,10), of "env_sha E"] by auto
  qed
  moreover have "isValidFile file" if "path_filename file \<in> filename ` set (getFileList fm)"
  proof -
    from that obtain f where "f \<in> set (getFileList fm)" and "filename f = path_filename file"
      by auto
    then have "isValidFile (filepath f)" and "path_filename (filepath f) = path_filename file"
      using truth by (simp_all add: truthful_def)
    then show ?thesis
      using isValidFile_same_name by blast
  qed
  ultimately show ?thesis
    using run by auto
qed

theorem share_lists_the_file_witness:
  "(\<exists>c' f. handleShareCommand flat_env [''share'', ''/h/c.txt''] example_node = (Inr (), c') \<and>
      f \<in> set (getFileList (cli_files c')) \<and> filename f = ''c.txt'') \<and>
   (\<exists>c'. handleShareCommand flat_env [''share'', ''/h/c.log'']
        (example_node\<lparr>cli_world := ([], [''/h/c.log'' \<mapsto> [1, 2]])\<rparr>) = (Inr (), c') \<and>
      cli_out c' = ''File shared successfully: c.log'' @ endl @ ''Location: ./shared/c.log'' @ endl \<and>
      ''c.log'' \<notin> filename ` set (getFileList (cli_files c')))"
  (is "?txt \<and> ?log")
proof
  let ?w = "\<lambda>p q. ([q], [p \<mapsto> [1, 2], q \<mapsto> [1, 2]]) :: string list \<times> disk"
  let ?en = "\<lambda>q. \<lparr>path = q, is_regular = Inr True, mtime = Inr 7\<rparr>"
  have "path_filename ''/h/c.txt'' = ''c.txt''" and "isValidFile ''/h/c.txt''"
    by (simp_all add: isValidFile_def path_filename_def path_extension_def skip_extensions_def)
  then show ?txt
    using share_lists_the_file [of "[''share'', ''/h/c.txt'']" "''/h/c.txt''" "''./shared/c.txt''" example_node
        flat_env "?w ''/h/c.txt'' ''./shared/c.txt''" "[1, 2]" "[?en ''./shared/c.txt'']" "?en ''./shared/c.txt''"]
    by (auto simp: example_node_fields flat_env_def flat_fs_def readable_def)
  have "path_filename ''/h/c.log'' = ''c.log''" and "\<not> isValidFile ''/h/c.log''"
    by (simp_all add: isValidFile_def path_filename_def path_extension_def skip_extensions_def)
  then show ?log
    using share_lists_the_file [of "[''share'', ''/h/c.log'']" "''/h/c.log''" "''./shared/c.log''"
        "example_node\<lparr>cli_world := ([], [''/h/c.log'' \<mapsto> [1, 2]])\<rparr>"
        flat_env "?w ''/h/c.log'' ''./shared/c.log''" "[1, 2]" "[?en ''./shared/c.log'']" "?en ''./shared/c.log''"]
    by (auto simp: example_node_fields flat_env_def flat_fs_def readable_def)
qed

text \<open>
  Without the slash \<open>share\<close> reports success and shares nothing. The file manager adds the
  slash to the directory it scans but the command does not, so the copy is written beside the
  directory, under the directory's name glued to the file's; an iteration that meets only paths
  below the directory does not find it.
\<close>

theorem share_misses_the_directory:
  assumes "length args \<ge> 2" and "file = args ! 1" and "dest = cli_directory c @ path_filename file"
    and "last (cli_directory c) \<noteq> CHR ''/''" and "cli_directory c \<noteq> []"
    and "files_wf (cli_directory c) (cli_files c)"
    and "fs_exists (env_fs E) file (cli_world c) = Inr True"
    and "fs_is_regular_file (env_fs E) file (cli_world c) = Inr True"
    and "fs_copy_file (env_fs E) file dest (cli_world c) = (Inr (), w)"
    and "listing (fs_view_of (env_fs E) w) (shared_directory (cli_files c)) = (entries, None)"
    and "\<forall>en \<in> set entries. readable (fs_view_of (env_fs E) w) en \<and>
      prefix (shared_directory (cli_files c)) (path en)"
  shows "\<exists>c'. handleShareCommand E args c = (Inr (), c') \<and>
    cli_out c' = cli_out c @ ''File shared successfully: '' @ path_filename file @ endl @
      ''Location: '' @ dest @ endl \<and>
    dest \<notin> filepath ` set (getFileList (cli_files c'))"
proof -
  let ?v = "fs_view_of (env_fs E) w"
  obtain fm where run: "handleShareCommand E args c =
      (Inr (), print (''File shared successfully: '' @ path_filename file @ endl @ ''Location: '' @ dest @ endl)
        (c\<lparr>cli_world := w, cli_files := fm\<rparr>))"
    and paths: "map filepath (getFileList fm) = map path (filter shared_entry entries)"
    using share_succeeds [OF assms(1-3,7-10)] assms(11) by blast
  have "shared_directory (cli_files c) = cli_directory c @ ''/''"
    using assms(4-6) by (simp add: files_wf_def slashed_def)
  then have "\<not> prefix (shared_directory (cli_files c)) dest"
    unfolding assms(3) using not_below_without_slash no_slash_in_name by metis
  then have "path en \<noteq> dest" if "en \<in> set entries" for en
    using assms(11) that by auto
  then have "dest \<notin> set (map filepath (getFileList fm))"
    unfolding paths by auto
  then show ?thesis
    using run by simp
qed

theorem share_misses_the_directory_witness:
  "\<exists>c'. handleShareCommand flat_env [''share'', ''/h/c.txt'']
      (example_node\<lparr>cli_directory := ''./shared''\<rparr>) = (Inr (), c') \<and>
    cli_out c' = ''File shared successfully: c.txt'' @ endl @ ''Location: ./sharedc.txt'' @ endl \<and>
    getFileList (cli_files c') = []"
proof -
  let ?c = "example_node\<lparr>cli_directory := ''./shared''\<rparr>"
  let ?w = "([''./sharedc.txt''], [''/h/c.txt'' \<mapsto> [1, 2], ''./sharedc.txt'' \<mapsto> [1, 2]]) :: string list \<times> disk"
  have name: "path_filename ''/h/c.txt'' = ''c.txt''"
    by (simp add: path_filename_def)
  obtain c' where c': "handleShareCommand flat_env [''share'', ''/h/c.txt''] ?c = (Inr (), c')"
      and "cli_out c' = ''File shared successfully: c.txt'' @ endl @ ''Location: ./sharedc.txt'' @ endl"
    using share_misses_the_directory [of "[''share'', ''/h/c.txt'']" "''/h/c.txt''" "''./sharedc.txt''" ?c
        flat_env ?w "[]"]
    by (auto simp: name example_node_fields flat_env_def flat_fs_def files_wf_def slashed_def)
  moreover have "getFileList (cli_files c') = []"
    using c' by (simp add: handleShareCommand_def example_node_fields flat_env_def flat_fs_def name
        refreshFileList_def scanDirectory_def getFileList_def print_def Let_def) force
  ultimately show ?thesis by blast
qed

text \<open>A destination without a directory asks the file system to create the empty path, and when
  that is an error nothing is downloaded.\<close>

lemma get_to_bare_name_fails:
  assumes "args = [a, name, dest]" and "CHR ''/'' \<notin> set dest" and "findPeersWithFile name (cli_peers c) \<noteq> []"
    and "fs_create_directories (env_fs E) [] (cli_world c) = (Inl e, w)"
  shows "\<exists>c'. handleGetCommand E others args c = (Inl e, c') \<and> cli_jobs c' = cli_jobs c"
proof -
  have "parent_path dest = []"
  proof (cases dest)
    case (Cons x xs)
    have dir: "dropWhile (\<lambda>c. c \<noteq> CHR ''/'') (rev dest) = []"
      using assms(2) by (simp only: dropWhile_eq_Nil_conv set_rev) blast
    have "\<not> (\<forall>c \<in> set dest. c = CHR ''/'')"
      using assms(2) Cons by auto
    then show ?thesis
      unfolding parent_path_def Let_def dir by auto
  qed (simp add: parent_path_def)
  then show ?thesis
    using assms(1,3,4) by (simp add: handleGetCommand_def get_destination_def Let_def)
qed

section \<open>The program\<close>

text \<open>What the other threads may do before each line, during a \<open>get\<close>, before the end of file and
  before the destructor: any number of steps of the node's threads. No line runs \<open>connect\<close>.\<close>

definition input_ok ::
  "('w, 'x) cli_env \<Rightarrow> hp_handlers \<Rightarrow> 'w input_line list \<Rightarrow> bool" where
  "input_ok E h input \<longleftrightarrow>
     (\<forall>l \<in> set input. \<not> connects (in_text l) \<and> (\<forall>m. pm_thread\<^sup>*\<^sup>* m (in_others l m)) \<and>
       (\<forall>c. (node_thread E h)\<^sup>*\<^sup>* c (in_before l c)))"

definition thread_steps :: "('w, 'x) cli_env \<Rightarrow> hp_handlers \<Rightarrow> ('w CLI \<Rightarrow> 'w CLI) \<Rightarrow> bool" where
  "thread_steps E h f \<longleftrightarrow> (\<forall>c. (node_thread E h)\<^sup>*\<^sup>* c (f c))"

lemma reach_steps: "thread_steps E h f \<Longrightarrow> cli_reach E set_dir h c \<Longrightarrow> cli_reach E set_dir h (f c)"
  using reach_threads [of E h c "f c" set_dir] by (simp add: thread_steps_def)

lemma running_thread: "node_thread E h c c' \<Longrightarrow> cli_running c' = cli_running c"
  by (induction rule: node_thread.induct) (simp_all add: run_job_def Let_def print_def split: prod.split bool.split)

lemma running_threads: "(node_thread E h)\<^sup>*\<^sup>* c c' \<Longrightarrow> cli_running c' = cli_running c"
  by (induction rule: rtranclp_induct) (auto dest: running_thread)

lemma reach_command_loop:
  "cli_reach E set_dir h c \<Longrightarrow> input_ok E h input \<Longrightarrow> thread_steps E h waiting \<Longrightarrow>
   cli_reach E set_dir h (command_loop E waiting input c)"
proof (induction E waiting input c rule: command_loop.induct)
  case (2 E waiting l ls c)
  show ?case
  proof (cases "cli_running c")
    case True
    have steps: "(node_thread E h)\<^sup>*\<^sup>* c (in_before l c)" and "\<not> connects (in_text l)"
        and "\<And>m. pm_thread\<^sup>*\<^sup>* m (in_others l m)" and "input_ok E h ls"
      using 2(3) by (simp_all add: input_ok_def)
    moreover have "cli_reach E set_dir h (in_before l c)" and "cli_running (in_before l c)"
      using reach_threads [OF steps 2(2)] running_threads [OF steps] True by simp_all
    ultimately have "cli_reach E set_dir h (run_line E (in_clock l) (in_others l) (in_text l) (in_before l c))"
      by (intro cli_reach.command)
    with True \<open>input_ok E h ls\<close> 2(1,4) show ?thesis
      by simp
  qed (use 2(2) in simp)
qed (simp add: cli_reach.printed reach_steps)

lemma reach_run:
  "cli_reach E set_dir h c \<Longrightarrow> input_ok E h input \<Longrightarrow> thread_steps E h waiting \<Longrightarrow>
   cli_reach E set_dir h (cli_run E waiting input c)"
  by (simp add: cli_run_def displayWelcome_def reach_command_loop cli_reach.printed)

text \<open>Every way through \<open>main\<close>: what it returns, and the node it leaves.\<close>

lemma main_cases [case_names usage thrown unstarted ran]:
  obtains "cli_main E set_dir v input waiting leaving argv0 args w =
      \<lparr>exit_code = 0, m_out = usage_text argv0, m_err = [], m_node = None\<rparr>"
  | t where "cli_main E set_dir v input waiting leaving argv0 args w =
      \<lparr>exit_code = 1, m_out = [], m_err = t @ endl, m_node = None\<rparr>"
  | port dir c t where "new_CLI E port dir w = Inr c"
      "cli_main E set_dir v input waiting leaving argv0 args w =
        \<lparr>exit_code = 1, m_out = [], m_err = t @ endl,
         m_node = Some (cli_destroy (snd (cli_initialize E set_dir v c)))\<rparr>"
  | port dir c where "new_CLI E port dir w = Inr c" "fst (cli_initialize E set_dir v c) = Inr True"
      "cli_main E set_dir v input waiting leaving argv0 args w =
        \<lparr>exit_code = 0, m_out = [], m_err = [],
         m_node = Some (cli_destroy (leaving (cli_run E waiting input (snd (cli_initialize E set_dir v c)))))\<rparr>"
proof (cases "parse_args args (DEFAULT_PORT, ''./shared/'')")
  case None
  then show thesis
    by (intro that(1)) (simp add: cli_main_def)
next
  case (Some q)
  obtain port dir where q: "q = (port, dir)"
    by (cases q)
  show thesis
  proof (cases "new_CLI E port dir w")
    case (Inl e)
    with Some q show thesis
      by (intro that(2) [where t = "''Fatal error: '' @ what e"]) (simp add: cli_main_def)
  next
    case (Inr c)
    obtain res c1 where init: "cli_initialize E set_dir v c = (res, c1)"
      by (cases "cli_initialize E set_dir v c")
    consider e where "res = Inl e" | "res = Inr False" | "res = Inr True"
      by (cases res) auto
    then show thesis
    proof cases
      case (1 e)
      with Some q Inr init show thesis
        by (intro that(3) [of port dir c "''Fatal error: '' @ what e"]) (simp_all add: cli_main_def)
    next
      case 2
      with Some q Inr init show thesis
        by (intro that(3) [of port dir c "''Failed to initialize P2P node''"]) (simp_all add: cli_main_def)
    next
      case 3
      with Some q Inr init show thesis
        by (intro that(4) [of port dir c]) (simp_all add: cli_main_def)
    qed
  qed
qed

text \<open>
  C24. The end of the program, whatever its options, the results of the system calls, its input
  without a \<open>connect\<close>, and what the node's threads do before each line, during a \<open>get\<close>, at the end of
  file and before the destructor. \<open>main\<close> returns 0 or 1, and 1 exactly when \<open>main\<close> itself has written
  an error message, because no node could be started; errors of commands do not count. If it got
  as far as a node and setting the server's directory changes its list of files only, then once
  that node is destroyed its client and its server have no descriptor open, no connection is left,
  and the loops of the server, of both peer managers and of the command line have been told to
  end, also when the start failed half way. Downloads that \<open>get\<close> has detached are not waited for.
\<close>

theorem main_leaves_nothing_open:
  assumes "sets_files_only set_dir" and "input_ok E h input" and "thread_steps E h waiting"
    and "thread_steps E h leaving" and "r = cli_main E set_dir v input waiting leaving argv0 args w"
  shows "(exit_code r = 0 \<and> m_err r = [] \<or> exit_code r = 1 \<and> m_err r \<noteq> []) \<and>
    (case m_node r of
       None \<Rightarrow> True
     | Some c \<Rightarrow> open_fds (cli_client c) = [] \<and> hp_fds (cli_server c) = [] \<and> connections (cli_server c) = [] \<and>
         \<not> hp_running (cli_server c) \<and> \<not> pm_running (hp_peers (cli_server c)) \<and>
         \<not> pm_running (cli_peers c) \<and> \<not> cli_running c)"
proof -
  have "open_fds (cli_client (cli_destroy c)) = [] \<and> hp_fds (cli_server (cli_destroy c)) = [] \<and>
      connections (cli_server (cli_destroy c)) = [] \<and> \<not> hp_running (cli_server (cli_destroy c)) \<and>
      \<not> pm_running (hp_peers (cli_server (cli_destroy c))) \<and> \<not> pm_running (cli_peers (cli_destroy c)) \<and>
      \<not> cli_running (cli_destroy c)"
    if "cli_reach E set_dir h c" for c
    using cli_reach_parts [OF that] server_wf_stop [OF cli_reach_server [OF that assms(1)]]
    by (simp add: cli_destroy_eq cli_shutdown_def parts_wf_def server_wf_def pm_stop_def disconnect_def
        closeSocket_def new_Client_def)
  note stopped = this [OF cli_reach.created]
    this [OF reach_steps [OF assms(4) reach_run [OF cli_reach.created assms(2,3)]]]
  show ?thesis
    by (cases rule: main_cases [of E set_dir v input waiting leaving argv0 args w])
      (simp_all add: assms(5) stopped)
qed

text \<open>A run of the program: the heartbeat thread learns of a peer, a \<open>get\<close> starts a download, the
  server accepts a connection, and \<open>exit\<close> comes before the download has ended.\<close>

definition accept_one :: "(string list \<times> disk) CLI \<Rightarrow> (string list \<times> disk) CLI" where
  "accept_one c =
     (let s = cli_server c
      in if hp_running s \<and> 5 \<notin> set (hp_fds s)
         then c\<lparr>cli_server := hp_dispatch example_handlers 0
           \<lparr>ev_fd = hp_socket s, ev_mask = 1, ev_accepts = [(5, ''10.0.0.7'', 0)]\<rparr> s\<rparr>
         else c)"

definition learn_peer :: "(string list \<times> disk) CLI \<Rightarrow> (string list \<times> disk) CLI" where
  "learn_peer c = c\<lparr>cli_peers := bootstrap_line 7 8 (cli_peers c) (serialize example_peer)\<rparr>"

definition example_input :: "(string list \<times> disk) input_line list" where
  "example_input =
     [\<lparr>in_text = ''get a.txt'', in_clock = \<lambda>_. 0, in_others = \<lambda>m. m, in_before = learn_peer\<rparr>,
      \<lparr>in_text = ''exit'', in_clock = \<lambda>_. 0, in_others = \<lambda>m. m, in_before = accept_one\<rparr>]"

lemma accept_one_thread: "(node_thread E example_handlers)\<^sup>*\<^sup>* c (accept_one c)"
proof (cases "hp_running (cli_server c) \<and> 5 \<notin> set (hp_fds (cli_server c))")
  case True
  let ?s = "cli_server c"
  have "hp_run example_handlers ?s (hp_dispatch example_handlers 0
      \<lparr>ev_fd = hp_socket ?s, ev_mask = 1, ev_accepts = [(5, ''10.0.0.7'', 0)]\<rparr> ?s)"
    by (rule hp_run.event [OF hp_run.idle]) (use True in \<open>simp_all add: own_event_def\<close>)
  with True show ?thesis
    unfolding accept_one_def Let_def by (auto intro: node_thread.served)
qed (auto simp: accept_one_def Let_def)

lemma learn_peer_thread: "(node_thread E h)\<^sup>*\<^sup>* c (learn_peer c)"
  unfolding learn_peer_def by (intro r_into_rtranclp node_thread.peers pm_thread.bootstrap)

lemma example_input_ok: "input_ok E example_handlers example_input"
  by (simp add: input_ok_def example_input_def connects_def get_line exit_line to_lower_def
      command_of_def accept_one_thread learn_peer_thread)

lemma get_on_example:
  "cli_server (run_line flat_env clk (\<lambda>m. m) ''get a.txt'' (print t example_node)) = example_server"
  "cli_running (run_line flat_env clk (\<lambda>m. m) ''get a.txt'' (print t example_node))"
  "length (cli_jobs (run_line flat_env clk (\<lambda>m. m) ''get a.txt'' (print t example_node))) = 1"
  by (simp_all add: run_line_def get_line to_lower_def command_of_def print_def
      handleGetCommand_def findPeersWithFile_def table_values_def deref_def received_peer_def
      example_peer_def peer_files.has_iff example_node_fields get_destination_def flat_env_def
      flat_fs_def parent_path_def Let_def)

lemma exit_stops:
  "cli_running (run_line E clk others ''exit'' c) = False"
  "cli_jobs (run_line E clk others ''exit'' c) = cli_jobs c"
  "cli_server (run_line E clk others ''exit'' c) = cli_server c"
  by (simp_all add: run_line_def exit_line to_lower_def command_of_def handleExitCommand_def print_def)

lemma accept_one_on_example:
  assumes "cli_server c = example_server"
  shows "map fst (connections (cli_server (accept_one c))) = [5] \<and> cli_jobs (accept_one c) = cli_jobs c \<and>
    cli_running (accept_one c) = cli_running c"
  using assms by (simp add: accept_one_def hp_dispatch_def EPOLLIN_def Let_def)

lemma example_run:
  "length (cli_jobs (cli_run flat_env (\<lambda>c. c) example_input started_node)) = 1"
  "map fst (connections (cli_server (cli_run flat_env (\<lambda>c. c) example_input started_node))) = [5]"
proof -
  obtain t where greeted: "displayWelcome started_node = print t started_node"
    by (simp add: displayWelcome_def)
  have learn: "learn_peer (print t started_node) = print t example_node"
    by (simp add: learn_peer_def example_node_def print_def)
  let ?c = "run_line flat_env (\<lambda>_. 0) (\<lambda>m. m) ''get a.txt'' (print t example_node)"
  have "cli_running (print t started_node)"
    using started_node_running by (simp add: print_def)
  then have "cli_run flat_env (\<lambda>c. c) example_input started_node =
      run_line flat_env (\<lambda>_. 0) (\<lambda>m. m) ''exit'' (accept_one ?c)"
    using get_on_example(2) by (simp add: cli_run_def example_input_def greeted learn exit_stops)
  then show "length (cli_jobs (cli_run flat_env (\<lambda>c. c) example_input started_node)) = 1"
    "map fst (connections (cli_server (cli_run flat_env (\<lambda>c. c) example_input started_node))) = [5]"
    using accept_one_on_example [OF get_on_example(1)] get_on_example(3) by (simp_all add: exit_stops)
qed

lemma example_main:
  "cli_main flat_env keep_dir good_start example_input (\<lambda>c. c) (\<lambda>c. c) ''p2p'' []
      ([], [''/h/c.txt'' \<mapsto> [1, 2]]) =
    \<lparr>exit_code = 0, m_out = [], m_err = [],
     m_node = Some (cli_destroy (cli_run flat_env (\<lambda>c. c) example_input started_node))\<rparr>"
proof -
  have "cli_initialize flat_env keep_dir good_start fresh_node = (Inr True, started_node)"
    using started_node_initialized by (simp add: started_node_def prod_eq_iff)
  then show ?thesis
    by (simp add: cli_main_def example_node_created DEFAULT_PORT_def)
qed

theorem main_leaves_nothing_open_witness:
  "\<exists>n c. map fst (connections (cli_server n)) = [5] \<and> length (cli_jobs n) = 1 \<and> c = cli_destroy n \<and>
    cli_main flat_env keep_dir good_start example_input (\<lambda>c. c) (\<lambda>c. c) ''p2p'' []
      ([], [''/h/c.txt'' \<mapsto> [1, 2]]) =
      \<lparr>exit_code = 0, m_out = [], m_err = [], m_node = Some c\<rparr> \<and>
    hp_fds (cli_server c) = [] \<and> connections (cli_server c) = []"
proof -
  have "thread_steps flat_env example_handlers (\<lambda>c. c)"
    by (simp add: thread_steps_def)
  then show ?thesis
    using main_leaves_nothing_open [OF keep_dir_files_only example_input_ok _ _ refl,
        of flat_env "\<lambda>c. c" "\<lambda>c. c" good_start "''p2p''" "[]" "([], [''/h/c.txt'' \<mapsto> [1, 2]])"]
      example_run
    unfolding example_main by (intro exI conjI) auto
qed

text \<open>Nothing waits for the detached threads of \<open>get\<close>: what is still to be downloaded when the node
  is destroyed is there afterwards, with its reference to the node.\<close>

lemma destroy_leaves_downloads: "cli_jobs (cli_destroy c) = cli_jobs c"
  by (simp add: cli_destroy_def cli_shutdown_def Let_def)

section \<open>Options\<close>

lemma word_of_int_range: "- (2 ^ 31) \<le> i \<Longrightarrow> i < 2 ^ 31 \<Longrightarrow> sint (word_of_int i :: 32 word) = i"
  by (simp add: sint_sbintrunc' signed_take_bit_int_eq_self_iff)

lemma atoi_show_int: "- (2 ^ 31) \<le> i \<Longrightarrow> i < 2 ^ 31 \<Longrightarrow> atoi (show_int i) = i"
  using word_of_int_range [of i]
  by (auto simp: atoi_def show_int_def scan_number_show_nat scan_number_negative max_def min_def)

lemma atoi_no_number: "scan_number s = None \<Longrightarrow> atoi s = 0"
  by (simp add: atoi_def)

datatype option_arg = Port_opt string | Dir_opt string | Other_opt string

fun render_opt :: "option_arg \<Rightarrow> string list" where
  "render_opt (Port_opt v) = [''-p'', v]"
| "render_opt (Dir_opt v) = [''-d'', v]"
| "render_opt (Other_opt s) = [s]"

fun apply_opt :: "int \<times> string \<Rightarrow> option_arg \<Rightarrow> int \<times> string" where
  "apply_opt (port, dir) (Port_opt v) = (atoi v, dir)"
| "apply_opt (port, dir) (Dir_opt v) = (port, v)"
| "apply_opt q (Other_opt s) = q"

definition option_names :: "string list" where
  "option_names = [''-p'', ''--port'', ''-d'', ''--directory'', ''-h'', ''--help'']"

text \<open>The last value of each option counts, unknown arguments are ignored, and the help option
  wins over everything that comes before it and after it.\<close>

lemma parse_args_options:
  assumes "\<forall>s. Other_opt s \<in> set opts \<longrightarrow> s \<notin> set option_names"
  shows "parse_args (concat (map render_opt opts) @ rest) q = parse_args rest (foldl apply_opt q opts)"
  using assms
proof (induction opts arbitrary: q)
  case (Cons x opts)
  obtain port dir where "q = (port, dir)"
    by (cases q)
  with Cons show ?case
    by (cases x) (simp_all add: option_names_def)
qed simp

lemma main_options:
  assumes "\<forall>s. Other_opt s \<in> set opts \<longrightarrow> s \<notin> set option_names"
  shows "parse_args (concat (map render_opt opts)) q = Some (foldl apply_opt q opts) \<and>
    parse_args (concat (map render_opt opts) @ ''-h'' # rest) q = None"
proof -
  have "parse_args [] q' = Some q'" "parse_args (''-h'' # rest) q' = None" for q'
    by (cases q'; simp)+
  then show ?thesis
    using parse_args_options [OF assms, of "[]" q] parse_args_options [OF assms, of "''-h'' # rest" q]
    by simp
qed

end
