(* ===== verification/Logger.thy ===== *)
theory Logger
  imports Prelude "HOL-Library.Sublist"
begin

text \<open>
  \<open>include/Logger.h\<close>: the levels, the setters and the four templates, which is all that the
  repository defines of the class. \<open>writeLog\<close> is declared and nowhere defined, so it is the
  argument \<open>W\<close> of the templates, and the file and the console it may change are the field
  \<open>log_out\<close> of any type. The lemmas use of it at most that it does not touch the level. The
  variadic arguments are those of the call and are printed by nobody.
\<close>

datatype LogLevel = DEBUG | INFO | WARNING | ERROR

fun level_value :: "LogLevel \<Rightarrow> nat" where
  "level_value DEBUG = 0"
| "level_value INFO = 1"
| "level_value WARNING = 2"
| "level_value ERROR = 3"

text \<open>Scoped enumerations compare by their values.\<close>

instantiation LogLevel :: linorder
begin

definition less_eq_LogLevel :: "LogLevel \<Rightarrow> LogLevel \<Rightarrow> bool" where
  "less_eq_LogLevel a b \<longleftrightarrow> level_value a \<le> level_value b"

definition less_LogLevel :: "LogLevel \<Rightarrow> LogLevel \<Rightarrow> bool" where
  "less_LogLevel a b \<longleftrightarrow> level_value a < level_value b"

instance
proof
  fix a b :: LogLevel
  show "a \<le> b \<Longrightarrow> b \<le> a \<Longrightarrow> a = b"
    by (cases a; cases b) (simp_all add: less_eq_LogLevel_def)
qed (auto simp: less_eq_LogLevel_def less_LogLevel_def)

end

record 'o Logger =
  current_level :: LogLevel
  console_output :: bool
  log_out :: 'o

type_synonym 'o write_log = "LogLevel \<Rightarrow> string \<Rightarrow> 'o Logger \<Rightarrow> 'o Logger"

definition setLevel :: "LogLevel \<Rightarrow> 'o Logger \<Rightarrow> 'o Logger" where
  "setLevel level g = g\<lparr>current_level := level\<rparr>"

definition setConsoleOutput :: "bool \<Rightarrow> 'o Logger \<Rightarrow> 'o Logger" where
  "setConsoleOutput enable g = g\<lparr>console_output := enable\<rparr>"

definition log_debug :: "'o write_log \<Rightarrow> string \<Rightarrow> 'a list \<Rightarrow> 'o Logger \<Rightarrow> 'o Logger" where
  "log_debug W format args g = (if current_level g \<le> DEBUG then W DEBUG format g else g)"

definition log_info :: "'o write_log \<Rightarrow> string \<Rightarrow> 'a list \<Rightarrow> 'o Logger \<Rightarrow> 'o Logger" where
  "log_info W format args g = (if current_level g \<le> INFO then W INFO format g else g)"

definition log_warning :: "'o write_log \<Rightarrow> string \<Rightarrow> 'a list \<Rightarrow> 'o Logger \<Rightarrow> 'o Logger" where
  "log_warning W format args g = (if current_level g \<le> WARNING then W WARNING format g else g)"

definition log_error :: "'o write_log \<Rightarrow> string \<Rightarrow> 'a list \<Rightarrow> 'o Logger \<Rightarrow> 'o Logger" where
  "log_error W format args g = (if current_level g \<le> ERROR then W ERROR format g else g)"

text \<open>A call of the template of a level, and a sequence of calls.\<close>

fun log_at :: "'o write_log \<Rightarrow> LogLevel \<Rightarrow> string \<Rightarrow> 'a list \<Rightarrow> 'o Logger \<Rightarrow> 'o Logger" where
  "log_at W DEBUG format args g = log_debug W format args g"
| "log_at W INFO format args g = log_info W format args g"
| "log_at W WARNING format args g = log_warning W format args g"
| "log_at W ERROR format args g = log_error W format args g"

type_synonym 'a log_call = "LogLevel \<times> string \<times> 'a list"

definition log_all :: "'o write_log \<Rightarrow> 'a log_call list \<Rightarrow> 'o Logger \<Rightarrow> 'o Logger" where
  "log_all W calls g = foldl (\<lambda>g (lv, format, args). log_at W lv format args g) g calls"

lemma log_at_eq:
  "log_at W lv format args g = (if current_level g \<le> lv then W lv format g else g)"
  by (cases lv) (simp_all add: log_debug_def log_info_def log_warning_def log_error_def)

lemma log_ignores_arguments: "log_at W lv format args g = log_at W lv format [] g"
  by (simp add: log_at_eq)

lemma log_everything: "log_at W ERROR format args g = W ERROR format g"
  by (cases "current_level g") (simp_all add: log_at_eq less_eq_LogLevel_def)

text \<open>What a sequence of calls hands to \<open>writeLog\<close> at a threshold.\<close>

definition passed :: "LogLevel \<Rightarrow> 'a log_call list \<Rightarrow> (LogLevel \<times> string) list" where
  "passed threshold calls =
     map (\<lambda>(lv, format, args). (lv, format)) (filter (\<lambda>c. threshold \<le> fst c) calls)"

lemma log_all_calls:
  assumes "\<And>lv s g. current_level (W lv s g) = current_level g"
  shows "log_all W calls g = foldl (\<lambda>g (lv, s). W lv s g) g (passed (current_level g) calls)"
  by (induction calls arbitrary: g) (auto simp: log_all_def log_at_eq passed_def assms)

text \<open>A higher threshold passes on, in order, those calls of a lower one that reach it.\<close>

lemma log_threshold:
  assumes "low \<le> high"
  shows "passed high calls = filter (\<lambda>c. high \<le> fst c) (passed low calls)"
    and "subseq (passed high calls) (passed low calls)"
proof -
  show eq: "passed high calls = filter (\<lambda>c. high \<le> fst c) (passed low calls)"
    using assms by (induction calls) (auto simp: passed_def)
  show "subseq (passed high calls) (passed low calls)"
    unfolding eq by (rule subseq_filter_left)
qed

text \<open>With a \<open>writeLog\<close> that appends a line to a file when the console is off.\<close>

definition example_write :: "string list write_log" where
  "example_write lv s g = (if console_output g then g else g\<lparr>log_out := log_out g @ [s]\<rparr>)"

lemma example_log:
  "log_out (log_all example_write [(INFO, ''a'', [1]), (DEBUG, ''b'', []), (ERROR, ''c'', [2 :: int])]
     (setLevel INFO (setConsoleOutput False \<lparr>current_level = ERROR, console_output = True, log_out = []\<rparr>))) =
   [''a'', ''c'']"
  by (subst log_all_calls)
    (simp_all add: example_write_def passed_def setLevel_def setConsoleOutput_def less_eq_LogLevel_def)

end
