(* ===== verification/Spec2Isabelle.thy ===== *)
theory Spec2Isabelle
  imports Prelude Double Common CRC32 Wire Table Peer Protocol ThreadPool Sockets Client PeerManager
    FileManager Server HPServer Console CLI Transfers Node Node_Theorems Logger
begin

text \<open>
  A model of the peer-to-peer file sharing program \<open>File-Share\<close> (C++17; headers in \<open>include/\<close>,
  code in \<open>src/\<close>) and the proofs of what it does.

  \<^bold>\<open>The program.\<close> A node (\<open>main.cpp\<close>, \<open>CLI.cpp\<close>) owns an event-driven server
  (\<open>HighPerformanceServer.cpp\<close>), a client (\<open>Client.cpp\<close>), a table of peers
  (\<open>PeerManager.cpp\<close>, whose entries are the objects of \<open>Peer.cpp\<close>) and the list of the files it
  shares (\<open>FileManager.cpp\<close>). \<open>Server.cpp\<close> is an older server with the request handlers;
  \<open>Protocol.cpp\<close> is a message format with header and checksum that neither of them uses;
  \<open>ThreadPool.cpp\<close> and \<open>Logger.h\<close> are on their own. The node calls the managers, the managers
  share peers by pointer, and client and server meet only on the wire.

  \<^bold>\<open>Theories.\<close> They follow the files of the program.
  \<^item> \<open>Prelude\<close>: bytes and words, byte order, strings, numbers in text, \<open>std::getline\<close>, exceptions
    as values of a sum (\<open>exn + 'a\<close>), undefined behaviour as an outcome (\<open>UB\<close>); the locale
    \<open>service\<close>, the contract of \<open>stop\<close> that the two servers and the peer manager meet and the
    node's \<open>shutdown\<close> uses.
  \<^item> \<open>Common\<close>: constants and enumerations of \<open>Common.h\<close>. \<open>Table\<close>: \<open>std::unordered_map\<close> keyed by
    strings, with the locale \<open>string_table\<close> that its users rely on.
  \<^item> \<open>CRC32\<close>, \<open>Wire\<close>, \<open>Protocol\<close>: checksum, field encoding and the messages of \<open>Protocol.cpp\<close>, for
    both byte orders of the host. Parsing returns a value, a refusal or \<open>UB\<close>.
  \<^item> \<open>Peer\<close>: the peer object and its text form; the locales \<open>file_lookup\<close> and \<open>file_table\<close> state
    what a store of file records promises, and \<open>FileManager\<close> interprets the first as well.
  \<^item> \<open>ThreadPool\<close>: a step relation, one step per critical section.
  \<^item> \<open>Sockets\<close>: \<open>send\<close> and \<open>recv\<close> as scripts of what the kernel will answer, and the loops around
    them; the locale \<open>byte_source\<close> is the contract of reading.
  \<^item> \<open>Double\<close>: the arithmetic of \<open>double\<close> for the speed and the percentage of a download, as exact
    rationals rounded to 53 bits.
  \<^item> \<open>Client\<close>, \<open>PeerManager\<close>, \<open>FileManager\<close>, \<open>Server\<close>, \<open>HPServer\<close>: one record for the object of each
    class, one definition per method. \<open>HPServer\<close> is \<open>HighPerformanceServer\<close>.
  \<^item> \<open>Console\<close>: \<open>std::quoted\<close>, \<open>setw\<close> and the file table of \<open>CLI.cpp\<close>. \<open>CLI\<close>: the node's state and its
    commands. \<open>Transfers\<close>: the detached threads of \<open>get\<close>, one turn of the receiving loop at a time, on
    one disk. \<open>Node\<close>: \<open>main.cpp\<close>, the steps of the node and its invariant. \<open>Node_Theorems\<close>: what
    holds of the node.
  \<^item> \<open>Logger\<close>: the levels and the templates of \<open>Logger.h\<close>, over any \<open>writeLog\<close>.
  \<^item> This theory: what holds between client and server.

  \<^bold>\<open>State and operations.\<close> A method of a class is a function from the object (a record with the
  fields of the class) to its result and the new object; where a name of the source occurs in
  several classes or in the library it has a prefix (\<open>pm_start\<close>, \<open>fm_hasFile\<close>, \<open>hp_stop\<close>,
  \<open>cli_run\<close>). Exceptions are the left side of a sum, with the state as the throw leaves it. A loop
  that may run for ever is a partial function whose value is then \<open>None\<close>: the server's sending
  loop (\<open>send_retry\<close>) and the receiving loop of a download over messages that need not end
  (\<open>download_messages\<close>, \<open>download_stream\<close>). Every other loop is total, by a measure: the unread text
  for the parsers, and for the receiving loops the bytes and events of a finite script of the
  network (\<open>downloadFile\<close> is the download over such a script; \<open>download_outcome\<close> relates the two).
  No fuel is used. Objects that several owners
  share (peers) live in a heap inside \<open>PeerManager\<close>; threads are steps of an inductive relation
  (\<open>pool_step\<close>, \<open>pm_step\<close>, \<open>hp_run\<close>, \<open>transfers_step\<close>, \<open>cli_reach\<close>), and a property of "every reachable state" is
  proved by rule induction over it.

  \<^bold>\<open>What the environment is.\<close> The kernel, the file system, OpenSSL, \<open>ctime\<close> and the clock are
  arguments: a script (\<open>conn\<close>, \<open>start_env\<close>), a view or an interface record (\<open>fs_view\<close>, \<open>filesystem\<close>,
  \<open>sha256\<close>), or a number. A property that needs more of them says so by a named hypothesis that
  states documented behaviour (\<open>streaming\<close>, \<open>digest_32\<close>, \<open>responsive\<close>, \<open>patient\<close>: a socket that may
  answer \<open>EAGAIN\<close> as often as it likes but not for ever, and gives no other error;
  \<open>sets_files_only\<close>: setting the server's directory changes its list of files), and its witness
  gives a concrete instance.

  \<^bold>\<open>Functions without a body.\<close> The handlers of \<open>HighPerformanceServer\<close> (\<open>handleClientData\<close>,
  \<open>handleClientWrite\<close>, \<open>closeConnection\<close>, \<open>cleanupStaleConnections\<close>) and
  \<open>CLI::handleConnectCommand\<close> are called but defined nowhere, so that the program does not link.
  They are arguments of the model, and nothing is assumed of them: the properties of the server
  and of the node are about the runs that do not enter them (\<open>hp_run\<close>, \<open>cli_reach\<close>). These runs accept
  connections and fail to register them, but read none of them and last until the clean-up of
  stale connections is due, a minute after the first turn of the event loop; and no line of
  input is a \<open>connect\<close>. \<open>HighPerformanceServer::setSharedDirectory\<close> is called at every start and
  declared nowhere; \<open>sets_files_only\<close> is asked of it where the server's descriptors matter.

  \<^bold>\<open>What the lemmas show.\<close>
  \<^item> Messages: whatever is created is accepted, and only that; parsers stay inside their buffers;
    every kind of body is read back; the table-driven checksum is the bit-serial CRC-32.
  \<^item> Thread pool: tasks run in order and once; no wake-up is lost; \<open>shutdown\<close> returns and has run
    everything.
  \<^item> Client: the descriptor is never leaked, \<open>receiveMessage\<close> is the framing parser under any
    segmentation, a download writes the chunks it gets, and reports success also when the disk is full;
    it returns unless the peer keeps it for ever;
    its progress, observed after every message (\<open>download_turn\<close>), is 0% until it is complete.
  \<^item> Downloads at the same time: with different paths they end as if they had run one after the
    other (\<open>downloads_serializable\<close>), which is why a download is one step of \<open>cli_reach\<close>; on one path
    they mix (\<open>same_path_mixes\<close>).
  \<^item> Server: a file is served whole and in order; a handler returns unless the peer blocks it; which
    descriptors \<open>stop\<close> leaves open; which inputs the receiving loop delivers; that the event-driven
    server makes every socket non-blocking.
  \<^item> Client and server together: no request and no answer is understood by the other side, since
    only one of them writes lengths; with the lengths, a file would arrive byte for byte and pass
    the integrity check.
  \<^item> Peers and files: the table is consistent under every interleaving, and the manager implements a
    map from identifiers to peers (\<open>known_peers\<close>); a peer is a finite map; the
    text forms are read back; a scan is complete and truthful.
  \<^item> Node: every state reached by the command loop, the peer managers' threads, the event thread and
    the detached downloads (\<open>cli_reach\<close>, \<open>node_thread\<close>) is well typed; a \<open>get\<close> fetches the file;
    \<open>share\<close>, \<open>files\<close> and \<open>downloads\<close> do or do not show what they should; the program ends with no
    descriptor of server and client open, though not with its downloads ended.

  \<^bold>\<open>Not modelled.\<close>
  \<^item> Functions that are declared and defined nowhere: those that are called are arguments, as
    above; \<open>Protocol::parseErrorMessage\<close>, the multi-source downloads and \<open>FileManager::serveFile\<close> have
    no counterpart. \<open>Logger::writeLog\<close> is an argument of the
    templates that call it; the rest of \<open>Logger\<close> (the singleton, the time stamp, the overloads that
    take a whole message) is declared only.
  \<^item> Sleeps and timeouts as durations: an expired timeout is an event of the script of \<open>recv\<close>, and
    threads that sleep take their next step at any time.
  \<^item> The buffers of \<open>std::ofstream\<close>: a write reaches the file at once. For a file that only one stream
    writes to, the difference is gone when the stream is closed. Two paths are the same file only if
    they are the same string. How one disk shares out its space among downloads that run at the same
    time: the room of each path (\<open>dest_file\<close>), what its stream writes before its first failed write,
    is given with the run.
  \<^item> Messages to the console other than those of the command line; \<open>readline\<close> is the list of lines,
    with what the node's other threads do while it waits for each (\<open>input_line\<close>).
  \<^item> The test programs and the build files.
\<close>

section \<open>Requests across the two programs\<close>

lemma frame_head:
  assumes "Suc (length payload) < 2 ^ 24"
  shows "\<exists>a b c. frame t payload = [0, a, b, c] @ type_byte t # payload"
proof -
  have len: "unat (word_of_nat (Suc (length payload)) :: u32) = Suc (length payload)"
    using assms by (simp add: unat_of_nat take_bit_nat_eq_self del: of_nat_Suc)
  have "unat (drop_bit 24 (word_of_nat (Suc (length payload)) :: u32)) =
      drop_bit 24 (Suc (length payload))"
    by (simp only: unat_drop_bit_eq len)
  also have "\<dots> = 0"
    using assms by (simp add: drop_bit_eq_div)
  finally have "unat (drop_bit 24 (word_of_nat (Suc (length payload)) :: u32)) = 0" .
  then have "drop_bit 24 (word_of_nat (Suc (length payload)) :: u32) = 0"
    by (simp add: unat_eq_zero del: of_nat_Suc)
  then show ?thesis
    by (simp add: frame_def le_bytes_def del: of_nat_Suc)
qed

lemma handle_conn_message:
  assumes "rx k = Data xs # es" and "xs \<noteq> []" and "length xs < 8192"
  shows "handle_conn fs s k =
    (case processMessage fs s xs (k\<lparr>rx := es\<rparr>) of
       None \<Rightarrow> None
     | Some (Inl err, k2) \<Rightarrow> Some (False, k2)
     | Some (Inr _, k2) \<Rightarrow> Some (True, k2))"
  using assms server_receive_short [of xs "[]" es]
  by (simp add: handle_conn_def server_receiveMessage_def BUFFER_SIZE_def)

lemma process_zero: "processMessage fs s (0 # xs) k = Some (Inr (), k)"
  by (simp add: processMessage_def byte_type_def)

text \<open>
  C18. The server does not understand the client's framing. When the length and the message of a
  request of less than 8000 bytes arrive together, the server takes the first byte of the length, which is 0, for the
  message type and ignores the request: it sends nothing and keeps the connection. When the
  network happens to deliver the length on its own, that is dropped as an unknown message, and
  at the next event the rest is processed as the request that it is; a request for a file of the
  server's list is then served whole, if the kernel sends it.
\<close>

theorem server_takes_length_for_type:
  assumes "length payload < 8000" and "k' = k\<lparr>rx := [Data (type_byte t # payload)]\<rparr>"
  shows "(rx k = [Data (frame t payload)] \<longrightarrow>
      handle_conn fs s k = Some (True, k\<lparr>rx := []\<rparr>)) \<and>
    (rx k = [Data (take 4 (frame t payload)), Data (drop 4 (frame t payload))] \<longrightarrow>
      handle_conn fs s k = Some (True, k') \<and>
      handle_conn fs s k' =
        (case processMessage fs s (type_byte t # payload) (k\<lparr>rx := []\<rparr>) of
           None \<Rightarrow> None
         | Some (Inl err, k2) \<Rightarrow> Some (False, k2)
         | Some (Inr _, k2) \<Rightarrow> Some (True, k2)) \<and>
      (\<forall>f bytes. t = FILE_REQUEST \<and> fm_getFileInfo (file_manager s) (to_string payload) = Inr f \<and>
        contents fs (filepath f) = Some bytes \<and> patient k \<longrightarrow>
        (\<exists>k2. handle_conn fs s k' = Some (True, k2) \<and> tx k2 = tx k @ unframed (file_messages bytes))))"
proof -
  obtain a b c where f: "frame t payload = [0, a, b, c] @ type_byte t # payload"
    using frame_head [of payload t] assms(1) by auto
  have request: "handle_conn fs s k' = (case processMessage fs s (type_byte t # payload) (k\<lparr>rx := []\<rparr>) of
      None \<Rightarrow> None
    | Some (Inl err, k2) \<Rightarrow> Some (False, k2)
    | Some (Inr _, k2) \<Rightarrow> Some (True, k2))"
    using handle_conn_message [of k' "type_byte t # payload" "[]" fs s] assms by simp
  have "\<exists>k2. handle_conn fs s k' = Some (True, k2) \<and> tx k2 = tx k @ unframed (file_messages bytes)"
    if "t = FILE_REQUEST" "fm_getFileInfo (file_manager s) (to_string payload) = Inr f"
      "contents fs (filepath f) = Some bytes" "patient k" for f bytes
    using file_request_served [OF that(2,3), of "k\<lparr>rx := []\<rparr>"] that(1,4)
    by (auto simp: request processMessage_def byte_type_def)
  then show ?thesis
    using assms request by (auto simp: f handle_conn_message process_zero)
qed

theorem server_takes_length_for_type_witness:
  "(let k = calm [Data (frame FILE_REQUEST (to_bytes ''a.txt''))]
    in handle_conn example_fs ((new_Server 8888 example_fm)\<lparr>file_manager := example_fm\<rparr>) k =
         Some (True, k\<lparr>rx := []\<rparr>)) \<and>
   (let m = frame FILE_REQUEST (to_bytes ''a.txt''); k = calm [Data (take 4 m), Data (drop 4 m)];
        s = (new_Server 8888 example_fm)\<lparr>file_manager := example_fm\<rparr>
    in \<exists>k1 k2. handle_conn example_fs s k = Some (True, k1) \<and> handle_conn example_fs s k1 = Some (True, k2) \<and>
         tx k2 = type_byte FILE_CHUNK # [1, 2, 3] @ [type_byte FILE_COMPLETE])"
proof -
  let ?m = "frame FILE_REQUEST (to_bytes ''a.txt'')"
  let ?s = "(new_Server 8888 example_fm)\<lparr>file_manager := example_fm\<rparr>"
  let ?k = "calm [Data (take 4 ?m), Data (drop 4 ?m)]"
  have "fm_getFileInfo (file_manager ?s) ''a.txt'' = Inr (mkFileInfo ''a.txt'' ''/s/a.txt'' 3 ''0a'' 7)"
    by (simp add: example_fm_def mkFileInfo_def fm_getFileInfo_def find_file_def)
  moreover have "contents example_fs (filepath (mkFileInfo ''a.txt'' ''/s/a.txt'' 3 ''0a'' 7)) = Some [1, 2, 3]"
    by (simp add: mkFileInfo_def example_fs_def)
  moreover have "unframed (file_messages [1, 2, 3]) = type_byte FILE_CHUNK # [1, 2, 3] @ [type_byte FILE_COMPLETE]"
    by (simp add: file_messages_def blocks.simps BUFFER_SIZE_def)
  ultimately have "\<exists>k1 k2. handle_conn example_fs ?s ?k = Some (True, k1) \<and>
      handle_conn example_fs ?s k1 = Some (True, k2) \<and>
      tx k2 = type_byte FILE_CHUNK # [1, 2, 3] @ [type_byte FILE_COMPLETE]"
    using server_takes_length_for_type [OF _ refl, of "to_bytes ''a.txt''" ?k FILE_REQUEST example_fs ?s]
    by fastforce
  moreover have "length (to_bytes ''a.txt'') < 8000"
    by simp
  ultimately show ?thesis
    using server_takes_length_for_type
      [OF _ refl, of "to_bytes ''a.txt''" "calm [Data ?m]" FILE_REQUEST example_fs ?s]
    by (simp add: Let_def)
qed

section \<open>Answers across the two programs\<close>

lemma parse_frame_unframed:
  assumes "\<forall>b. t \<noteq> Unnamed_type b" and "4 \<le> length (type_byte t # bs)"
  shows "parse_frame (type_byte t # bs) = Inl (Runtime_error ''Message too large'')"
proof -
  obtain x y z zs where bs: "bs = x # y # z # zs"
    using assms(2) by (auto simp: eval_nat_numeral Suc_le_length_iff)
  let ?w = "le_word [z, y, x, type_byte t] :: u32"
  have "type_byte t = ucast (drop_bit 24 ?w)"
    using arg_cong [OF le_bytes_le_word [of "[z, y, x, type_byte t]"], of "\<lambda>l. l ! 3"]
    by (simp add: le_bytes_def)
  moreover have "type_byte t \<noteq> 0"
    using named_type_byte_nonzero assms(1) by blast
  ultimately have "drop_bit 24 ?w \<noteq> 0"
    by (metis unsigned_0)
  then have "unat ?w div 2 ^ 24 \<noteq> 0"
    by (metis unat_drop_bit_eq drop_bit_eq_div unat_eq_zero)
  then have "2 ^ 24 \<le> unat ?w"
    by (metis div_less not_le)
  then have "10485760 < unat ?w"
    by simp
  then show ?thesis
    by (simp add: parse_frame_def bs Let_def)
qed

text \<open>
  C19. The client does not understand the server's answers. Whatever message of at least four
  bytes the server sends first, in any segmentation, a download over that connection fails
  with "Message too large", because the client reads the type as the top byte of a length;
  the destination is left as an empty file.
\<close>

theorem client_takes_type_for_length:
  assumes "connected c" and "opens dest \<noteq> Cannot_create"
    and "fst (client_sendMessage e FILE_REQUEST (to_bytes name) c) = Inr ()"
    and "pending (rx (sock c)) = unframed ((t, payload) # ms)"
    and "\<forall>b. t \<noteq> Unnamed_type b" and "4 \<le> length (unframed ((t, payload) # ms))"
  shows "\<exists>c' p. downloadFile e clk opens name dest c d = (False, c', d(dest \<mapsto> [])) \<and>
    getDownloadProgress name c' = Some p \<and> failed p \<and> error_message p = ''Message too large''"
proof -
  obtain c1 where start: "downloadFile e clk opens name dest c d =
      download_loop e clk (opens dest) name dest (dl_start clk) (new_progress (clk 0) name) c1
        (d(dest \<mapsto> []))"
    and c1: "downloading name (new_progress (clk 0) name) (type_byte t # payload @ unframed ms) c1"
    using downloadFile_starts assms(1-4) by (metis unframed_simps(2))
  have "parse_frame (pending (rx (sock c1))) = Inl (Runtime_error ''Message too large'')"
    using parse_frame_unframed [OF assms(5), of "payload @ unframed ms"] assms(6) c1
    by (simp add: downloading_def)
  then obtain es where "client_receiveMessage e c1 =
      (Inl (Runtime_error ''Message too large''), set_rx es c1)"
    using receive_parses_frame [of c1 e] c1 by (auto simp: downloading_def)
  then show ?thesis
    unfolding start
    by (simp add: download_loop.simps [of e _ _ _ _ _ _ c1] download_failed_def getDownloadProgress_def)
qed

theorem client_takes_type_for_length_witness:
  "\<exists>c' p. downloadFile LittleEndian (\<lambda>_. 0) (\<lambda>_. Unbounded) ''f'' ''/d/f''
      (client_on [Data (unframed (file_messages [1, 2, 3]))]) Map.empty =
      (False, c', [''/d/f'' \<mapsto> []]) \<and>
    getDownloadProgress ''f'' c' = Some p \<and> error_message p = ''Message too large''"
  using client_takes_type_for_length
      [of "client_on [Data (unframed (file_messages [1, 2, 3]))]" "\<lambda>_. Unbounded" "''/d/f''" LittleEndian
        "''f''" FILE_CHUNK "[1, 2, 3]" "[(FILE_COMPLETE, [])]" "\<lambda>_. 0" Map.empty]
  by (auto simp: file_messages_def blocks.simps BUFFER_SIZE_def)

section \<open>A transfer from end to end\<close>

lemma frames_append: "frames (xs @ ys) = frames xs @ frames ys"
  by (simp add: frames_def)

lemma chunks_in_flight: "in_flight (map (\<lambda>b. (FILE_CHUNK, b)) (blocks BUFFER_SIZE bytes))"
proof -
  have "length b \<le> 8192" if "b \<in> set (blocks BUFFER_SIZE bytes)" for b
    using blocks_bounds [OF that] by (simp add: BUFFER_SIZE_def)
  then show ?thesis
    by (fastforce simp: in_flight_def)
qed

lemma chunk_data_blocks: "chunk_data (map (\<lambda>b. (FILE_CHUNK, b)) (blocks BUFFER_SIZE bytes)) = bytes"
  using chunk_data_file_messages [of bytes] by (simp add: file_messages_def chunk_data_def)

text \<open>
  C20. Apart from the length in front of a message the two sides agree. If the messages that the
  server writes for a file of its list reached the client as frames, the download would succeed,
  the destination would hold exactly the server's bytes, and the file there would pass the
  integrity check against the hash in the server's list.
\<close>

theorem framed_transfer_is_exact:
  assumes "fm_getFileInfo m name = Inr f" and "truthful sha fs f"
    and "contents fs (filepath f) = Some bytes" and "patient k"
    and "connected c" and "opens dest = Unbounded"
    and "fst (client_sendMessage e FILE_REQUEST (to_bytes name) c) = Inr ()"
    and "pending (rx (sock c)) = frames (file_messages bytes) @ rest"
  shows "\<exists>k' c'. handleFileRequest fs m name k = Some (Inr (), k') \<and>
    tx k' = tx k @ unframed (file_messages bytes) \<and>
    downloadFile e clk opens name dest c d = (True, c', d(dest \<mapsto> bytes)) \<and>
    validateFileIntegrity sha (cfs\<lparr>contents := d(dest \<mapsto> bytes)\<rparr>) dest (file_hash f)"
proof -
  obtain k' where "handleFileRequest fs m name k = Some (Inr (), k')"
      and "tx k' = tx k @ unframed (file_messages bytes)"
    using file_request_served [OF assms(1,3,4)] by blast
  moreover have "pending (rx (sock c)) =
      frames (map (\<lambda>b. (FILE_CHUNK, b)) (blocks BUFFER_SIZE bytes)) @ frame FILE_COMPLETE [] @ rest"
    using assms(8) by (simp add: file_messages_def frames_append)
  then obtain c' where "downloadFile e clk opens name dest c d = (True, c', d(dest \<mapsto> bytes))"
    using download_in_full [OF assms(5) _ chunks_in_flight [of bytes] assms(7), where opens = opens and
        dest = dest and rest = rest and clk = clk and d = d] assms(6)
    by (auto simp: chunk_data_blocks)
  moreover have "calculateFileHash sha (cfs\<lparr>contents := d(dest \<mapsto> bytes)\<rparr>) dest = Inr (file_hash f)"
    using assms(2) hash_of_contents [OF assms(3), of "cfs\<lparr>contents := d(dest \<mapsto> bytes)\<rparr>" dest sha]
    by (simp add: truthful_def)
  ultimately show ?thesis
    by (auto simp: validateFileIntegrity_def)
qed

theorem framed_transfer_is_exact_witness:
  "\<exists>f c'. fm_getFileInfo \<lparr>shared_directory = ''/s/'', local_files = [f]\<rparr> ''a.txt'' = Inr f \<and>
    downloadFile LittleEndian (\<lambda>_. 0) (\<lambda>_. Unbounded) ''a.txt'' ''/d/a''
      (client_on [Data (frames (file_messages [1, 2, 3]))]) Map.empty = (True, c', [''/d/a'' \<mapsto> [1, 2, 3]]) \<and>
    validateFileIntegrity toy_sha (example_fs\<lparr>contents := [''/d/a'' \<mapsto> [1, 2, 3]]\<rparr>) ''/d/a'' (file_hash f)"
proof -
  let ?hash = "projr (calculateFileHash toy_sha example_fs ''/s/a.txt'')"
  let ?f = "mkFileInfo ''a.txt'' ''/s/a.txt'' 3 ?hash 7"
  let ?m = "\<lparr>shared_directory = ''/s/'', local_files = [?f]\<rparr>"
  have "calculateFileHash toy_sha example_fs ''/s/a.txt'' = Inr ?hash"
    by (simp add: calculateFileHash_def Let_def)
  then have "truthful toy_sha example_fs ?f"
    by (simp add: truthful_def mkFileInfo_def path_filename_def) (simp add: example_fs_def)
  moreover have get: "fm_getFileInfo ?m ''a.txt'' = Inr ?f"
    by (simp add: fm_getFileInfo_def find_file_def mkFileInfo_def)
  moreover have "contents example_fs (filepath ?f) = Some [1, 2, 3]"
    by (simp add: mkFileInfo_def example_fs_def)
  ultimately show ?thesis
    using framed_transfer_is_exact [of ?m "''a.txt''" ?f toy_sha example_fs "[1, 2, 3]" "calm []"
        "client_on [Data (frames (file_messages [1, 2, 3]))]" "\<lambda>_. Unbounded" "''/d/a''" LittleEndian "[]"
        "\<lambda>_. 0" Map.empty example_fs]
    by fastforce
qed

section \<open>The texts inside the messages\<close>

lemma getlines_lines:
  "\<forall>x \<in> set xs. CHR 0x0A \<notin> set (f x) \<Longrightarrow>
   getlines CHR 0x0A (concat (map (\<lambda>x. f x @ [CHR 0x0A]) xs)) = map f xs"
  using getlines_terminate_with [of "map f xs" "CHR 0x0A"]
  by (simp add: terminate_with_def comp_def)

definition listable :: "FileInfo \<Rightarrow> bool" where
  "listable f \<longleftrightarrow> CHR ''|'' \<notin> set (filename f) \<and> CHR 0x0A \<notin> set (filename f) \<and>
     CHR 0x0A \<notin> set (file_hash f) \<and> file_hash f \<noteq> []"

lemma parse_file_line_file_line:
  "listable f \<Longrightarrow> parse_file_line (file_line f) = Some (wire_file f)"
  by (simp add: listable_def parse_file_line_def file_line_def getline_append getline_last
      show_nat_no_delim stoul_show_nat wire_file_eq)

text \<open>
  C38. The text of a file list survives when no name holds a bar or a line break: for scanned
  files with such names, the client's parser applied to the server's text gives every file with
  its name, size and hash, in order. Hash texts are never a problem, since they are 64
  hexadecimal digits.
\<close>

theorem file_list_text_roundtrip:
  assumes "digest_32 sha" and "\<forall>f \<in> set (getFileList m). truthful sha fs f"
    and "\<forall>f \<in> set (getFileList m). CHR ''|'' \<notin> set (filename f) \<and> CHR 0x0A \<notin> set (filename f)"
  shows "List.map_filter parse_file_line
      (filter (\<lambda>line. line \<noteq> []) (getlines CHR 0x0A (file_list_text m))) =
    map wire_file (getFileList m)"
proof -
  have ok: "listable f" if "f \<in> set (getFileList m)" for f
  proof -
    have "length (file_hash f) = 64 \<and> (\<forall>c \<in> set (file_hash f). is_hex c)"
      using hash_text [OF assms(1)] assms(2) that by (auto simp: truthful_def)
    then show ?thesis
      using assms(3) that is_hex_not_delim by (auto simp: listable_def)
  qed
  then have "getlines CHR 0x0A (file_list_text m) = map file_line (getFileList m)"
    unfolding file_list_text_def
    by (intro getlines_lines) (auto simp: listable_def file_line_def show_nat_no_delim)
  moreover have "List.map_filter parse_file_line (filter (\<lambda>line. line \<noteq> []) (map file_line fs)) =
      map wire_file fs" if "\<forall>f \<in> set fs. listable f" for fs
    using that by (induction fs)
      (simp_all add: List.map_filter_simps parse_file_line_file_line file_line_def
        parse_file_line_file_line [unfolded file_line_def, simplified])
  ultimately show ?thesis
    using ok by simp
qed

theorem file_list_text_roundtrip_witness:
  "\<exists>m. map filename (List.map_filter parse_file_line
      (filter (\<lambda>line. line \<noteq> []) (getlines CHR 0x0A (file_list_text m)))) = [''a.txt'']"
proof -
  let ?hash = "projr (calculateFileHash toy_sha example_fs ''/s/a.txt'')"
  let ?f = "mkFileInfo ''a.txt'' ''/s/a.txt'' 3 ?hash 7"
  let ?m = "\<lparr>shared_directory = ''/s/'', local_files = [?f]\<rparr>"
  have "calculateFileHash toy_sha example_fs ''/s/a.txt'' = Inr ?hash"
    by (simp add: calculateFileHash_def Let_def)
  then have "truthful toy_sha example_fs ?f"
    by (simp add: truthful_def mkFileInfo_def path_filename_def) (simp add: example_fs_def)
  then have "List.map_filter parse_file_line
      (filter (\<lambda>line. line \<noteq> []) (getlines CHR 0x0A (file_list_text ?m))) = [wire_file ?f]"
    using file_list_text_roundtrip [OF toy_sha_laws(2), of ?m example_fs]
    by (simp add: getFileList_def mkFileInfo_def)
  then show ?thesis
    by (intro exI [of _ ?m]) (simp add: mkFileInfo_def)
qed

lemma no_newline_serialize:
  assumes "CHR 0x0A \<notin> set (peer_id p)" and "CHR 0x0A \<notin> set (ip_address p)"
    and "\<forall>f \<in> set (shared_files p). CHR 0x0A \<notin> set (filename f) \<and> CHR 0x0A \<notin> set (file_hash f)"
  shows "CHR 0x0A \<notin> set (serialize p)"
  using assms by (auto simp: serialize_def serialize_file_def show_nat_no_delim show_int_no_delim)

text \<open>
  The text of a peer list survives: the lines the client cuts out of the server's text are
  one per known peer, and each of them is read back as that peer, when the peers' fields are
  free of bars and line breaks and the last file of each has a hash.
\<close>

theorem peer_list_text_roundtrip:
  assumes "\<forall>r \<in> set (getAllPeers m).
      peer_wf (deref m r) \<and> peer_printable (deref m r) \<and> CHR 0x0A \<notin> set (serialize (deref m r)) \<and>
      length (shared_files (deref m r)) < 2 ^ 64 \<and>
      (shared_files (deref m r) = [] \<or> file_hash (last (shared_files (deref m r))) \<noteq> [])"
  shows "map (deserialize t_new t_active)
      (filter (\<lambda>line. line \<noteq> []) (getlines CHR 0x0A (peer_list_text m))) =
    map (\<lambda>r. Inr (received_peer t_new t_active (deref m r) (shared_files (deref m r)))) (getAllPeers m)"
proof -
  have "getlines CHR 0x0A (peer_list_text m) = map (\<lambda>r. serialize (deref m r)) (getAllPeers m)"
    unfolding peer_list_text_def using assms by (intro getlines_lines) auto
  moreover have "serialize p \<noteq> []" for p
    by (simp add: serialize_def)
  ultimately show ?thesis
    using assms by (simp add: filter_map comp_def deserialize_serialize)
qed

theorem peer_list_text_roundtrip_witness:
  "map (deserialize 7 8) (filter (\<lambda>line. line \<noteq> []) (getlines CHR 0x0A (peer_list_text two_peers))) =
   map (\<lambda>r. Inr (received_peer 7 8 (deref two_peers r) [])) [0, 1]"
  using peer_list_text_roundtrip [of two_peers 7 8] no_newline_serialize
  by (simp add: two_peers_def getAllPeers_def table_values_def deref_def new_Peer_def
      updateLastSeen_def peer_wf_def peer_printable_def no_bar_def Let_def)

end
